theory Spec2Isabelle
  imports Complex_Main "HOL-Library.Word"
begin

unbundle bit_operations_syntax

section \<open>ODTTF font deobfuscation\<close>

text \<open>
  A font part is a byte buffer. The file name of the part may carry a UUID; the
  sixteen key bytes are read from its hexadecimal digits.
\<close>

type_synonym byte = "8 word"

definition is_hex :: "char \<Rightarrow> bool" where
  "is_hex c = (c \<in> set ''0123456789abcdefABCDEF'')"

definition hex_val :: "char \<Rightarrow> nat" where
  "hex_val c =
     (if c \<in> set ''0123456789'' then of_char c - 48
      else if c \<in> set ''abcdef'' then of_char c - 87
      else of_char c - 55)"

text \<open>One group of the pattern: exactly \<open>n\<close> hexadecimal digits (\<open>[0-9a-f]{n}\<close>, flag \<open>i\<close>).\<close>

definition hex_group :: "nat \<Rightarrow> string \<Rightarrow> (string \<times> string) option" where
  "hex_group n s =
     (if n \<le> length s \<and> list_all is_hex (take n s) then Some (take n s, drop n s) else None)"

definition dash :: "string \<Rightarrow> string option" where
  "dash s = (case s of [] \<Rightarrow> None | c # r \<Rightarrow> if c = CHR ''-'' then Some r else None)"

text \<open>The pattern tried at the start of \<open>s\<close>; the result is the five captured groups.\<close>

definition uuid_at :: "string \<Rightarrow> (string \<times> string \<times> string \<times> string \<times> string) option" where
  "uuid_at s =
     Option.bind (hex_group 8 s) (\<lambda>(m1, s1).
     Option.bind (dash s1) (\<lambda>s1'.
     Option.bind (hex_group 4 s1') (\<lambda>(m2, s2).
     Option.bind (dash s2) (\<lambda>s2'.
     Option.bind (hex_group 4 s2') (\<lambda>(m3, s3).
     Option.bind (dash s3) (\<lambda>s3'.
     Option.bind (hex_group 4 s3') (\<lambda>(m4, s4).
     Option.bind (dash s4) (\<lambda>s4'.
     Option.bind (hex_group 12 s4') (\<lambda>(m5, s5).
     Some (m1, m2, m3, m4, m5))))))))))"

text \<open>\<open>fileName.match(...)\<close>: the pattern is not anchored, the leftmost match wins.\<close>

fun match_uuid :: "string \<Rightarrow> (string \<times> string \<times> string \<times> string \<times> string) option" where
  "match_uuid [] = uuid_at []"
| "match_uuid (c # s) =
     (case uuid_at (c # s) of Some m \<Rightarrow> Some m | None \<Rightarrow> match_uuid s)"

text \<open>\<open>h(s, i) = parseInt(s.slice(i, i + 2), 16)\<close> on a group of hexadecimal digits.\<close>

definition parseInt16 :: "string \<Rightarrow> nat" where
  "parseInt16 s = foldl (\<lambda>acc c. 16 * acc + hex_val c) 0 (takeWhile is_hex s)"

definition h :: "string \<Rightarrow> nat \<Rightarrow> byte" where
  "h s i = of_nat (parseInt16 (take 2 (drop i s)))"

definition odttf_key :: "string \<times> string \<times> string \<times> string \<times> string \<Rightarrow> byte list" where
  "odttf_key m =
     (case m of (m1, m2, m3, m4, m5) \<Rightarrow>
       [h m1 6, h m1 4, h m1 2, h m1 0,
        h m2 2, h m2 0,
        h m3 2, h m3 0,
        h m4 0, h m4 2,
        h m5 0, h m5 2, h m5 4, h m5 6, h m5 8, h m5 10])"

text \<open>\<open>for (let i = 0; i < 32 && i < out.length; i++) out[i] ^= key[i % 16]\<close>\<close>

function xor_loop :: "nat \<Rightarrow> byte list \<Rightarrow> byte list \<Rightarrow> byte list" where
  "xor_loop i key out =
     (if i < 32 \<and> i < length out
      then xor_loop (i + 1) key (out[i := (out ! i) XOR (key ! (i mod 16))])
      else out)"
  by pat_completeness auto
termination
  by (relation "measure (\<lambda>(i, key, out). 32 - i)") auto

declare xor_loop.simps [simp del]

definition deobfuscateOdttf :: "byte list \<Rightarrow> string \<Rightarrow> byte list" where
  "deobfuscateOdttf buffer fileName =
     (case match_uuid fileName of
        None \<Rightarrow> buffer
      | Some m \<Rightarrow> xor_loop 0 (odttf_key m) buffer)"

text \<open>
  The specification's wording of the same function, for comparison: the shape of a UUID
  given by position, the key by the table of (group, offset) pairs with the high nibble
  first, and the XOR over the first 32 bytes.
\<close>

definition uuid_shape :: "string \<Rightarrow> bool" where
  "uuid_shape t =
     (length t = 36 \<and>
      list_all is_hex (take 8 t) \<and> t ! 8 = CHR ''-'' \<and>
      list_all is_hex (take 4 (drop 9 t)) \<and> t ! 13 = CHR ''-'' \<and>
      list_all is_hex (take 4 (drop 14 t)) \<and> t ! 18 = CHR ''-'' \<and>
      list_all is_hex (take 4 (drop 19 t)) \<and> t ! 23 = CHR ''-'' \<and>
      list_all is_hex (take 12 (drop 24 t)))"

definition uuid_groups :: "string \<Rightarrow> string \<times> string \<times> string \<times> string \<times> string" where
  "uuid_groups t =
     (take 8 t, take 4 (drop 9 t), take 4 (drop 14 t), take 4 (drop 19 t), take 12 (drop 24 t))"

definition first_uuid :: "string \<Rightarrow> (string \<times> string \<times> string \<times> string \<times> string) option" where
  "first_uuid s =
     (case find (\<lambda>i. uuid_shape (take 36 (drop i s))) [0..<Suc (length s)] of
        None \<Rightarrow> None
      | Some i \<Rightarrow> Some (uuid_groups (take 36 (drop i s))))"

definition hex_pair :: "string \<Rightarrow> nat \<Rightarrow> byte" where
  "hex_pair g off = of_nat (16 * hex_val (g ! off) + hex_val (g ! (off + 1)))"

definition key_table :: "(nat \<times> nat) list" where
  "key_table =
     [(1, 6), (1, 4), (1, 2), (1, 0), (2, 2), (2, 0), (3, 2), (3, 0),
      (4, 0), (4, 2), (5, 0), (5, 2), (5, 4), (5, 6), (5, 8), (5, 10)]"

fun uuid_group :: "string \<times> string \<times> string \<times> string \<times> string \<Rightarrow> nat \<Rightarrow> string" where
  "uuid_group (m1, m2, m3, m4, m5) g =
     (if g = 1 then m1 else if g = 2 then m2 else if g = 3 then m3
      else if g = 4 then m4 else m5)"

definition spec_key :: "string \<times> string \<times> string \<times> string \<times> string \<Rightarrow> byte list" where
  "spec_key u = map (\<lambda>(g, off). hex_pair (uuid_group u g) off) key_table"

definition spec_deobfuscate :: "byte list \<Rightarrow> byte list \<Rightarrow> byte list" where
  "spec_deobfuscate key buffer =
     map (\<lambda>i. if i < 32 then (buffer ! i) XOR (key ! (i mod 16)) else buffer ! i)
       [0..<length buffer]"

section \<open>JavaScript values\<close>

text \<open>
  The values the converter computes with. A finite number is a real; there is no infinity
  and no signed zero. \<open>NaN\<close> and \<open>undefined\<close> are kept, because the program produces them
  from malformed input (a missing operand, an attribute that is not a number) and hands
  them on to the PDF library. So are the strings the path interpreter comes to hold
  when it reads a command letter where it expects a number: \<open>Letter c\<close> is the
  one-character string of that letter, and \<open>Cat a b\<close> is the text of \<open>a\<close> followed by the
  text of \<open>b\<close> (what \<open>+\<close> gives when one operand is a string). Every string has a
  letter in it.

  Arithmetic is of two kinds. The sums that move the current point of a path are
  binary64 sums (\<open>padd\<close> below), and the numbers of a path are binary64 numbers. The rest
  of the arithmetic (\<open>jadd\<close>, \<open>jsub\<close>, \<open>jmul\<close>, \<open>jdiv\<close> and the functions of \<open>Math\<close>, whose
  precision the language leaves to the implementation) is idealised: it is exact.
\<close>

datatype jsval = Num real | NaN | Undef | Letter char | Cat jsval jsval

fun is_string :: "jsval \<Rightarrow> bool" where
  "is_string (Letter c) = True"
| "is_string (Cat a b) = True"
| "is_string v = False"

section \<open>Reading numbers from text\<close>

definition is_digit :: "char \<Rightarrow> bool" where
  "is_digit c = (c \<in> set ''0123456789'')"

definition digits_val :: "string \<Rightarrow> nat" where
  "digits_val ds = foldl (\<lambda>a c. 10 * a + (of_char c - 48)) 0 ds"

text \<open>White space (\<open>\s\<close>, and what \<open>parseFloat\<close> and \<open>Number\<close> skip), for ASCII text.\<close>

definition is_space :: "char \<Rightarrow> bool" where
  "is_space c = (c \<in> {CHR '' '', CHR 0x09, CHR 0x0A, CHR 0x0B, CHR 0x0C, CHR 0x0D})"

text \<open>An optional sign: whether it is a minus, and the text after it.\<close>

definition scan_sign :: "string \<Rightarrow> bool \<times> string" where
  "scan_sign s =
     (case s of
        [] \<Rightarrow> (False, [])
      | c # r \<Rightarrow>
          if c = CHR ''-'' then (True, r) else if c = CHR ''+'' then (False, r) else (False, s))"

text \<open>\<open>\d+\.?\d*|\.\d+\<close>: the value of the digits read and the text after them.\<close>

definition scan_mantissa :: "string \<Rightarrow> (real \<times> string) option" where
  "scan_mantissa s =
     (let ip = takeWhile is_digit s; r = dropWhile is_digit s in
      if ip \<noteq> [] then
        (case r of
           [] \<Rightarrow> Some (real (digits_val ip), [])
         | c # r' \<Rightarrow>
             if c = CHR ''.'' then
               (let fp = takeWhile is_digit r' in
                Some (real (digits_val ip) + real (digits_val fp) / 10 ^ length fp,
                      dropWhile is_digit r'))
             else Some (real (digits_val ip), r))
      else
        (case s of
           [] \<Rightarrow> None
         | c # r' \<Rightarrow>
             (let fp = takeWhile is_digit r' in
              if c = CHR ''.'' \<and> fp \<noteq> [] then
                Some (real (digits_val fp) / 10 ^ length fp, dropWhile is_digit r')
              else None)))"

text \<open>\<open>(?:[eE][+-]?\d+)?\<close>: the exponent, 0 when there is none (then nothing is consumed).\<close>

definition scan_exponent :: "string \<Rightarrow> int \<times> string" where
  "scan_exponent s =
     (case s of
        [] \<Rightarrow> (0, [])
      | c # r \<Rightarrow>
          if c = CHR ''e'' \<or> c = CHR ''E'' then
            (case scan_sign r of (neg, r') \<Rightarrow>
               (let ds = takeWhile is_digit r' in
                if ds \<noteq> [] then
                  (if neg then - int (digits_val ds) else int (digits_val ds),
                   dropWhile is_digit r')
                else (0, s)))
          else (0, s))"

text \<open>
  \<open>[+-]?(?:\d+\.?\d*|\.\d+)(?:[eE][+-]?\d+)?\<close> tried at the start of the text: the number
  read (the value \<open>parseFloat\<close> gives for the matched text) and the text after the match.
\<close>

definition scan_number :: "string \<Rightarrow> (real \<times> string) option" where
  "scan_number s =
     (case scan_sign s of (neg, r) \<Rightarrow>
        (case scan_mantissa r of
           None \<Rightarrow> None
         | Some (m, r') \<Rightarrow>
             (case scan_exponent r' of (e, r'') \<Rightarrow>
                Some ((if neg then - 1 else 1) *
                      (if e < 0 then m / 10 ^ nat (- e) else m * 10 ^ nat e), r''))))"

text \<open>
  \<open>parseFloat\<close>: leading white space is skipped and the longest decimal literal at the
  start is read; NaN when there is none. The number is the exact value of the literal (it
  is not rounded here; the tokens of a path are, see \<open>tokenizePath\<close>). (The literal
  \<open>Infinity\<close> is not a value of the idealised numbers and is not read.)
  \<open>parseFloat(undefined)\<close> is NaN.
\<close>

definition parseFloat :: "string \<Rightarrow> jsval" where
  "parseFloat s =
     (case scan_number (dropWhile is_space s) of None \<Rightarrow> NaN | Some (v, r) \<Rightarrow> Num v)"

definition parseFloat_opt :: "string option \<Rightarrow> jsval" where
  "parseFloat_opt v = (case v of None \<Rightarrow> NaN | Some s \<Rightarrow> parseFloat s)"

text \<open>
  \<open>Number(s)\<close> on a string: white space is trimmed at both ends, the empty string is 0,
  and the whole of what is left must be one numeric literal (decimal, or an unsigned
  integer in base 16, 8 or 2 after \<open>0x\<close>, \<open>0o\<close>, \<open>0b\<close>); NaN otherwise.
\<close>

definition trim :: "string \<Rightarrow> string" where
  "trim s = rev (dropWhile is_space (rev (dropWhile is_space s)))"

definition radix_digits :: "nat \<Rightarrow> string \<Rightarrow> jsval" where
  "radix_digits b ds =
     (if ds \<noteq> [] \<and> list_all (\<lambda>c. is_hex c \<and> hex_val c < b) ds
      then Num (real (foldl (\<lambda>a c. b * a + hex_val c) 0 ds)) else NaN)"

definition Number_of :: "string \<Rightarrow> jsval" where
  "Number_of s =
     (let t = trim s in
      if t = [] then Num 0
      else if take 2 t = ''0x'' \<or> take 2 t = ''0X'' then radix_digits 16 (drop 2 t)
      else if take 2 t = ''0o'' \<or> take 2 t = ''0O'' then radix_digits 8 (drop 2 t)
      else if take 2 t = ''0b'' \<or> take 2 t = ''0B'' then radix_digits 2 (drop 2 t)
      else (case scan_number t of
              None \<Rightarrow> NaN
            | Some (v, r) \<Rightarrow> if r = [] then Num v else NaN))"

text \<open>\<open>s.split(",")\<close>: every comma separates; the empty string gives one empty piece.\<close>

fun split_comma :: "string \<Rightarrow> string list" where
  "split_comma [] = [[]]"
| "split_comma (c # s) =
     (if c = CHR '','' then [] # split_comma s
      else (case split_comma s of
              [] \<Rightarrow> [[c]]
            | p # ps \<Rightarrow> (c # p) # ps))"

text \<open>\<open>s.split(/[\s,]+/)\<close>: a maximal run of white space and commas separates.\<close>

definition is_sep :: "char \<Rightarrow> bool" where
  "is_sep c = (is_space c \<or> c = CHR '','')"

function split_sep :: "string \<Rightarrow> string list" where
  "split_sep [] = [[]]"
| "split_sep (c # s) =
     (if is_sep c then [] # split_sep (dropWhile is_sep s)
      else (case split_sep s of
              [] \<Rightarrow> [[c]]
            | p # ps \<Rightarrow> (c # p) # ps))"
  by pat_completeness auto
termination
  by (relation "measure length") (auto simp: le_imp_less_Suc length_dropWhile_le)

section \<open>Conversions and arithmetic\<close>

text \<open>The decimal digits of a natural number.\<close>

function digits_of :: "nat \<Rightarrow> string" where
  "digits_of n =
     (if n < 10 then [char_of (48 + n)] else digits_of (n div 10) @ [char_of (48 + n mod 10)])"
  by pat_completeness auto
termination
  by (relation "measure (\<lambda>n. n)") auto

declare digits_of.simps [simp del]

text \<open>
  The text of a value, as far as it matters for reading a string as a number. The text
  of a natural number below \<open>2 ^ 53\<close> is its digits. The text of any other number, of NaN
  and of \<open>undefined\<close> has a character (a sign, a point, an exponent, a letter that is no
  digit of a base) that no numeric literal with a command letter in it has: \<open>None\<close>. (For
  an integer from \<open>2 ^ 53\<close> on, whose text is digits again, this is an idealisation.)
\<close>

fun text_of :: "jsval \<Rightarrow> string option" where
  "text_of (Num r) =
     (if 0 \<le> r \<and> r < 2 ^ 53 \<and> r = of_int \<lfloor>r\<rfloor> then Some (digits_of (nat \<lfloor>r\<rfloor>)) else None)"
| "text_of NaN = None"
| "text_of Undef = None"
| "text_of (Letter c) = Some [c]"
| "text_of (Cat a b) =
     (case text_of a of
        None \<Rightarrow> None
      | Some s \<Rightarrow> (case text_of b of None \<Rightarrow> None | Some t \<Rightarrow> Some (s @ t)))"

text \<open>
  \<open>ToNumber\<close>: \<open>None\<close> stands for NaN; \<open>undefined\<close> converts to NaN. A string converts as
  \<open>Number\<close> reads its text: to NaN, unless the text is a numeric literal (as \<open>0x10\<close>, which
  the letter \<open>x\<close> between the texts of two numbers makes).
\<close>

definition string_to_number :: "jsval \<Rightarrow> real option" where
  "string_to_number v =
     (case text_of v of
        None \<Rightarrow> None
      | Some s \<Rightarrow> (case Number_of s of Num r \<Rightarrow> Some r | _ \<Rightarrow> None))"

fun to_number :: "jsval \<Rightarrow> real option" where
  "to_number (Num r) = Some r"
| "to_number NaN = None"
| "to_number Undef = None"
| "to_number (Letter c) = string_to_number (Letter c)"
| "to_number (Cat a b) = string_to_number (Cat a b)"

definition lift1 :: "(real \<Rightarrow> real) \<Rightarrow> jsval \<Rightarrow> jsval" where
  "lift1 f a = (case to_number a of Some x \<Rightarrow> Num (f x) | None \<Rightarrow> NaN)"

definition lift2 :: "(real \<Rightarrow> real \<Rightarrow> real) \<Rightarrow> jsval \<Rightarrow> jsval \<Rightarrow> jsval" where
  "lift2 f a b =
     (case to_number a of
        None \<Rightarrow> NaN
      | Some x \<Rightarrow> (case to_number b of None \<Rightarrow> NaN | Some y \<Rightarrow> Num (f x y)))"

definition jadd :: "jsval \<Rightarrow> jsval \<Rightarrow> jsval" where "jadd = lift2 (+)"
definition jsub :: "jsval \<Rightarrow> jsval \<Rightarrow> jsval" where "jsub = lift2 (-)"
definition jmul :: "jsval \<Rightarrow> jsval \<Rightarrow> jsval" where "jmul = lift2 (*)"
definition jneg :: "jsval \<Rightarrow> jsval" where "jneg = lift1 uminus"

text \<open>
  Division. A zero divisor would give an infinity (or NaN for \<open>0 / 0\<close>), which the
  idealised numbers do not have; \<open>jdiv\<close> answers NaN there. Every divisor in the modelled
  code is a non-zero literal or is guarded against zero before it is used.
\<close>

definition jdiv :: "jsval \<Rightarrow> jsval \<Rightarrow> jsval" where
  "jdiv a b =
     (case to_number a of
        None \<Rightarrow> NaN
      | Some x \<Rightarrow>
          (case to_number b of
             None \<Rightarrow> NaN
           | Some y \<Rightarrow> if y = 0 then NaN else Num (x / y)))"

text \<open>
  \<open>a + b\<close> in general: the concatenation when an operand is a string, the sum otherwise.
\<close>

definition plus_js :: "jsval \<Rightarrow> jsval \<Rightarrow> jsval" where
  "plus_js a b = (if is_string a \<or> is_string b then Cat a b else jadd a b)"

text \<open>
  Comparisons with NaN are false. \<open>===\<close> on two values of this type; two strings are
  equal when they are the same text. (The strings compared are the current point, a
  token, and the current point with a token after it: they are the same text when they
  are made of the same parts.)
\<close>

definition jlt :: "jsval \<Rightarrow> jsval \<Rightarrow> bool" where
  "jlt a b =
     (case to_number a of
        None \<Rightarrow> False
      | Some x \<Rightarrow> (case to_number b of None \<Rightarrow> False | Some y \<Rightarrow> x < y))"

definition jgt :: "jsval \<Rightarrow> jsval \<Rightarrow> bool" where
  "jgt a b = jlt b a"

fun strict_eq :: "jsval \<Rightarrow> jsval \<Rightarrow> bool" where
  "strict_eq (Num a) (Num b) = (a = b)"
| "strict_eq Undef Undef = True"
| "strict_eq (Letter c) (Letter d) = (c = d)"
| "strict_eq (Cat a b) (Cat c d) = (Cat a b = Cat c d)"
| "strict_eq _ _ = False"

text \<open>
  Truthiness of a value: \<open>0\<close>, NaN and \<open>undefined\<close> are falsy; the strings are not
  empty and are truthy.
\<close>

fun truthy :: "jsval \<Rightarrow> bool" where
  "truthy (Num r) = (r \<noteq> 0)"
| "truthy NaN = False"
| "truthy Undef = False"
| "truthy (Letter c) = True"
| "truthy (Cat a b) = True"

text \<open>The functions of \<open>Math\<close> the converter uses.\<close>

definition Math_abs :: "jsval \<Rightarrow> jsval" where "Math_abs = lift1 abs"
definition Math_cos :: "jsval \<Rightarrow> jsval" where "Math_cos = lift1 cos"
definition Math_sin :: "jsval \<Rightarrow> jsval" where "Math_sin = lift1 sin"
definition Math_tan :: "jsval \<Rightarrow> jsval" where "Math_tan = lift1 tan"
definition Math_ceil :: "jsval \<Rightarrow> jsval" where "Math_ceil = lift1 (\<lambda>x. of_int \<lceil>x\<rceil>)"
definition Math_max :: "jsval \<Rightarrow> jsval \<Rightarrow> jsval" where "Math_max = lift2 max"
definition Math_min :: "jsval \<Rightarrow> jsval \<Rightarrow> jsval" where "Math_min = lift2 min"

definition Math_sqrt :: "jsval \<Rightarrow> jsval" where
  "Math_sqrt a =
     (case to_number a of None \<Rightarrow> NaN | Some x \<Rightarrow> if x < 0 then NaN else Num (sqrt x))"

definition Math_acos :: "jsval \<Rightarrow> jsval" where
  "Math_acos a =
     (case to_number a of
        None \<Rightarrow> NaN
      | Some x \<Rightarrow> if x < -1 \<or> 1 < x then NaN else Num (arccos x))"

definition Math_PI :: jsval where "Math_PI = Num pi"

text \<open>\<open>a || b\<close> on numbers.\<close>

definition or_else :: "jsval \<Rightarrow> jsval \<Rightarrow> jsval" where
  "or_else a b = (if truthy a then a else b)"

text \<open>\<open>xs[i]\<close>: reading past the end of an array gives \<open>undefined\<close>.\<close>

definition at_index :: "jsval list \<Rightarrow> nat \<Rightarrow> jsval" where
  "at_index xs i = (if i < length xs then xs ! i else Undef)"

section \<open>Binary64 numbers\<close>

text \<open>Rounding to the nearest integer, a tie going to the even one.\<close>

definition rne :: "real \<Rightarrow> int" where
  "rne y =
     (let f = \<lfloor>y\<rfloor> in
      if y - of_int f < 1 / 2 then f
      else if 1 / 2 < y - of_int f then f + 1
      else if even f then f else f + 1)"

text \<open>
  The binary64 number nearest to a real (a tie going to the even significand): 53
  significant bits, and no bit below \<open>2 powi - 1074\<close>. There is no infinity here: a real
  beyond the binary64 range, which the program would turn into an infinity, is rounded as
  any other.
\<close>

definition binary64 :: "real \<Rightarrow> real" where
  "binary64 x =
     (if x = 0 then 0
      else (let e = max (\<lfloor>log 2 \<bar>x\<bar>\<rfloor> - 52) (- 1074)
            in of_int (rne (x / 2 powi e)) * 2 powi e))"

text \<open>A finite binary64 number.\<close>

definition is_binary64 :: "real \<Rightarrow> bool" where
  "is_binary64 x = (binary64 x = x \<and> \<bar>x\<bar> < 2 ^ 1024)"

text \<open>
  \<open>a + b\<close> where the current point of a path is moved: the binary64 sum of two numbers,
  and what \<open>+\<close> gives otherwise.
\<close>

definition padd :: "jsval \<Rightarrow> jsval \<Rightarrow> jsval" where
  "padd a b = (case plus_js a b of Num r \<Rightarrow> Num (binary64 r) | v \<Rightarrow> v)"

section \<open>Angle between two vectors\<close>

definition vecAngle :: "jsval \<Rightarrow> jsval \<Rightarrow> jsval \<Rightarrow> jsval \<Rightarrow> jsval" where
  "vecAngle ux uy vx vy =
     (let sign = (if jlt (jsub (jmul ux vy) (jmul uy vx)) (Num 0) then Num (-1) else Num 1);
          dot = jadd (jmul ux vx) (jmul uy vy);
          len = Math_sqrt (jmul (jadd (jmul ux ux) (jmul uy uy)) (jadd (jmul vx vx) (jmul vy vy)))
      in jmul sign (Math_acos (Math_max (Num (-1)) (Math_min (Num 1) (jdiv dot (or_else len (Num 1)))))))"

section \<open>Path-data tokens\<close>

datatype token = Cmd char | Val real

text \<open>\<open>[a-df-zA-DF-Z]\<close>\<close>

definition is_command :: "char \<Rightarrow> bool" where
  "is_command c =
     (c \<in> set ''abcdfghijklmnopqrstuvwxyz'' \<or> c \<in> set ''ABCDFGHIJKLMNOPQRSTUVWXYZ'')"

lemma scan_sign_length: "scan_sign s = (n, r) \<Longrightarrow> length r \<le> length s"
  by (auto simp: scan_sign_def split: list.splits if_splits)

lemma scan_mantissa_length: "scan_mantissa s = Some (m, r) \<Longrightarrow> length r < length s"
proof -
  assume a: "scan_mantissa s = Some (m, r)"
  have d: "\<And>t. length (dropWhile is_digit t) \<le> length t" by (rule length_dropWhile_le)
  show ?thesis
  proof (cases "takeWhile is_digit s = []")
    case True
    with a show ?thesis
      by (auto simp: scan_mantissa_def Let_def le_imp_less_Suc d split: list.splits if_splits)
  next
    case False
    then have l: "length (dropWhile is_digit s) < length s"
      by (cases s) (auto simp: le_imp_less_Suc d split: if_splits)
    show ?thesis
    proof (cases "dropWhile is_digit s")
      case Nil
      with a False l show ?thesis by (simp add: scan_mantissa_def Let_def)
    next
      case (Cons c r')
      with a False have "r = dropWhile is_digit r' \<or> r = c # r'"
        by (auto simp: scan_mantissa_def Let_def split: if_splits)
      with l Cons d [of r'] show ?thesis by auto
    qed
  qed
qed

lemma scan_exponent_length: "scan_exponent s = (e, r) \<Longrightarrow> length r \<le> length s"
proof -
  assume a: "scan_exponent s = (e, r)"
  show ?thesis
  proof (cases s)
    case Nil
    with a show ?thesis by (simp add: scan_exponent_def)
  next
    case (Cons c t)
    obtain neg t' where s: "scan_sign t = (neg, t')" by (cases "scan_sign t")
    have "length (dropWhile is_digit t') \<le> length t'" by (rule length_dropWhile_le)
    with scan_sign_length [OF s] a Cons s show ?thesis
      by (auto simp: scan_exponent_def Let_def split: if_splits)
  qed
qed

lemma scan_number_length: "scan_number s = Some (v, r) \<Longrightarrow> length r < length s"
proof -
  assume a: "scan_number s = Some (v, r)"
  obtain neg s1 where 1: "scan_sign s = (neg, s1)" by (cases "scan_sign s")
  with a obtain m s2 where 2: "scan_mantissa s1 = Some (m, s2)"
    by (auto simp: scan_number_def split: option.splits)
  obtain e s3 where 3: "scan_exponent s2 = (e, s3)" by (cases "scan_exponent s2")
  from a 1 2 3 have "r = s3" by (simp add: scan_number_def)
  with scan_sign_length [OF 1] scan_mantissa_length [OF 2] scan_exponent_length [OF 3]
  show ?thesis by simp
qed

text \<open>
  \<open>tokenizePath\<close>: the pattern is matched again and again from the end of the last match;
  a letter other than \<open>e\<close>, \<open>E\<close> is a command, a number is read by \<open>parseFloat\<close> (here
  with its rounding: the token is the binary64 number nearest to the literal), every other
  character is skipped.
\<close>

function tokenizePath :: "string \<Rightarrow> token list" where
  "tokenizePath [] = []"
| "tokenizePath (c # s) =
     (if is_command c then Cmd c # tokenizePath s
      else (case scan_number (c # s) of
              Some (v, r) \<Rightarrow> Val (binary64 v) # tokenizePath r
            | None \<Rightarrow> tokenizePath s))"
  by pat_completeness auto
termination
  by (relation "measure length") (auto dest: scan_number_length)

section \<open>The page tree\<close>

text \<open>
  Modelled from the spec: the element type the XML parser (an external library, not part
  of the sources) hands to the converter, "an ordered tree of elements with a tag name,
  an attribute map (string to string), and an ordered child list". In the source the tag
  is \<open>node["#name"]\<close>, the attributes are \<open>node.$\<close> and the children \<open>node.$$\<close>. The
  parser gives an element the object \<open>node.$\<close> only when the element has an attribute:
  for an element with an empty attribute list \<open>node.$\<close> is \<open>undefined\<close>, and reading
  \<open>node.$.X\<close> raises a TypeError.
\<close>

datatype node = Node (tag: string) (attrs: "(string \<times> string) list") (children: "node list")

definition has_attributes :: "node \<Rightarrow> bool" where
  "has_attributes n = (attrs n \<noteq> [])"

text \<open>\<open>node.$.k\<close>, where \<open>node.$\<close> is there.\<close>

definition attr :: "node \<Rightarrow> string \<Rightarrow> string option" where
  "attr n k = map_of (attrs n) k"

text \<open>Truthiness of an attribute value: absent and empty are falsy. \<open>v || d\<close>.\<close>

definition present :: "string option \<Rightarrow> bool" where
  "present v = (case v of None \<Rightarrow> False | Some s \<Rightarrow> s \<noteq> [])"

definition or_default :: "string option \<Rightarrow> string \<Rightarrow> string" where
  "or_default v d = (case v of None \<Rightarrow> d | Some s \<Rightarrow> if s = [] then d else s)"

definition getChildren :: "node \<Rightarrow> node list" where
  "getChildren n = children n"

section \<open>The PDF document and the library that writes it\<close>

text \<open>
  The PDF library is external. A document is the sequence of calls the converter has made
  on it, with their operands; which calls the library refuses by raising an exception is a
  parameter of the embedding. \<open>RegisterFont id buf\<close> is \<open>doc.registerFont(id, buf)\<close> with
  the bytes of a font; \<open>RegisterInherited id name\<close> is the same call where the second
  operand is no font but the property \<open>name\<close> that every object inherits (see \<open>font_at\<close>).
\<close>

datatype pdf_op =
    Save
  | Restore
  | Transform jsval jsval jsval jsval jsval jsval
  | MoveTo jsval jsval
  | LineTo jsval jsval
  | BezierCurveTo jsval jsval jsval jsval jsval jsval
  | QuadraticCurveTo jsval jsval jsval jsval
  | ClosePath
  | Clip
  | Fill string
  | Stroke
  | FillAndStroke string string
  | Image "byte list" jsval jsval jsval jsval
  | StrokeColor "string option"
  | LineWidth jsval
  | LineCap string
  | LineJoin string
  | MiterLimit jsval
  | Dash "jsval list" jsval
  | Undash
  | RegisterFont string "byte list"
  | RegisterInherited string string
  | Font string
  | FontSize jsval
  | FillColor string
  | Text string jsval jsval bool
  | End

text \<open>
  The state a conversion works on: the document (its page size, given when it is created
  with \<open>autoFirstPage\<close>, and the calls made so far) and the module-level set
  \<open>registeredFonts\<close>.
\<close>

record state =
  page_size :: "jsval \<times> jsval"
  ops :: "pdf_op list"
  registeredFonts :: "string set"

text \<open>
  What a conversion can end with instead of a result: the exceptions of the program, and
  \<open>Rejected c\<close> for the exception the library raises when it refuses the call \<open>c\<close>.
\<close>

datatype error =
    NoFixedDocumentSequence
  | NoPagesFound
  | CannotReadPage string
  | XmlParseError
  | TypeError
  | Rejected pdf_op

type_synonym 'a result = "(error \<times> state) + 'a"

text \<open>The library: given the calls made so far, does it refuse this call?\<close>

type_synonym library = "pdf_op list \<Rightarrow> pdf_op \<Rightarrow> bool"

definition call :: "library \<Rightarrow> pdf_op \<Rightarrow> state \<Rightarrow> state result" where
  "call lib c st =
     (if lib (ops st) c then Inl (Rejected c, st) else Inr (st\<lparr>ops := ops st @ [c]\<rparr>))"

text \<open>
  \<open>doc.save()\<close>, \<open>doc.restore()\<close> and \<open>doc.end()\<close> take no operand and are never
  refused.
\<close>

definition save :: "state \<Rightarrow> state" where
  "save st = st\<lparr>ops := ops st @ [Save]\<rparr>"

definition restore :: "state \<Rightarrow> state" where
  "restore st = st\<lparr>ops := ops st @ [Restore]\<rparr>"

definition end_document :: "state \<Rightarrow> state" where
  "end_document st = st\<lparr>ops := ops st @ [End]\<rparr>"

text \<open>Sequencing: an exception ends the sequence.\<close>

definition andThen :: "'a result \<Rightarrow> ('a \<Rightarrow> 'b result) \<Rightarrow> 'b result" where
  "andThen r f = (case r of Inl e \<Rightarrow> Inl e | Inr x \<Rightarrow> f x)"

lemma andThen_cong [fundef_cong]:
  "r = r' \<Longrightarrow> (\<And>x. r' = Inr x \<Longrightarrow> f x = f' x) \<Longrightarrow> andThen r f = andThen r' f'"
  by (auto simp: andThen_def split: sum.splits)

text \<open>
  \<open>try { ... } catch (e) { }\<close>: the exception is dropped and the program goes on in the
  state it was raised in.
\<close>

definition swallow :: "state result \<Rightarrow> state result" where
  "swallow r = (case r of Inl (e, st) \<Rightarrow> Inr st | Inr st \<Rightarrow> Inr st)"

text \<open>The depth of the graphics-state stack after a sequence of calls, from depth \<open>d\<close>.\<close>

fun depth_after :: "nat \<Rightarrow> pdf_op list \<Rightarrow> nat" where
  "depth_after d [] = d"
| "depth_after d (Save # cs) = depth_after (Suc d) cs"
| "depth_after d (Restore # cs) = depth_after (d - 1) cs"
| "depth_after d (c # cs) = depth_after d cs"

definition depth :: "state \<Rightarrow> nat" where
  "depth st = depth_after 0 (ops st)"

section \<open>Elliptical arcs\<close>

definition bezierArcSeg ::
  "library \<Rightarrow> jsval \<Rightarrow> jsval \<Rightarrow> jsval \<Rightarrow> jsval \<Rightarrow> jsval \<Rightarrow> jsval \<Rightarrow> jsval \<Rightarrow> state \<Rightarrow> state result" where
  "bezierArcSeg lib cx0 cy0 rx ry phi t1 t2 st =
     (let alpha = jmul (Num (4 / 3)) (Math_tan (jdiv (jsub t2 t1) (Num 4)));
          cp = Math_cos phi; sp = Math_sin phi;
          c1 = Math_cos t1; s1 = Math_sin t1;
          c2 = Math_cos t2; s2 = Math_sin t2;
          ep0 = (\<lambda>ct sn. jadd (jsub (jmul (jmul cp rx) ct) (jmul (jmul sp ry) sn)) cx0);
          ep1 = (\<lambda>ct sn. jadd (jadd (jmul (jmul sp rx) ct) (jmul (jmul cp ry) sn)) cy0);
          px2 = ep0 c2 s2; py2 = ep1 c2 s2;
          d1x = jmul (jneg rx) s1; d1y = jmul ry c1;
          d2x = jmul (jneg rx) s2; d2y = jmul ry c2
      in call lib
           (BezierCurveTo
              (jadd (ep0 c1 s1) (jmul alpha (jsub (jmul cp d1x) (jmul sp d1y))))
              (jadd (ep1 c1 s1) (jmul alpha (jadd (jmul sp d1x) (jmul cp d1y))))
              (jsub px2 (jmul alpha (jsub (jmul cp d2x) (jmul sp d2y))))
              (jsub py2 (jmul alpha (jadd (jmul sp d2x) (jmul cp d2y))))
              px2 py2)
           st)"

text \<open>
  \<open>for (let s = 0; s < segs; s++) bezierArcSeg(..., theta1 + s * delta, theta1 + (s + 1) * delta)\<close>
\<close>

function arc_loop ::
  "library \<Rightarrow> jsval \<Rightarrow> jsval \<Rightarrow> jsval \<Rightarrow> jsval \<Rightarrow> jsval \<Rightarrow> jsval \<Rightarrow> jsval \<Rightarrow> jsval \<Rightarrow> nat \<Rightarrow>
   state \<Rightarrow> state result" where
  "arc_loop lib cx0 cy0 rx ry phi theta1 delta segs s st =
     (if jlt (Num (real s)) segs
      then andThen
             (bezierArcSeg lib cx0 cy0 rx ry phi
                (jadd theta1 (jmul (Num (real s)) delta))
                (jadd theta1 (jmul (Num (real (s + 1))) delta)) st)
             (arc_loop lib cx0 cy0 rx ry phi theta1 delta segs (s + 1))
      else Inr st)"
  by pat_completeness auto
termination
proof (relation "measure (\<lambda>(lib, cx0, cy0, rx, ry, phi, theta1, delta, segs, s, st).
    (case to_number segs of None \<Rightarrow> 0 | Some n \<Rightarrow> nat \<lceil>n\<rceil>) - s)", goal_cases)
  case 1
  show ?case by simp
next
  case (2 lib cx0 cy0 rx ry phi theta1 delta segs s st x)
  then obtain n where n: "to_number segs = Some n" "real s < n"
    by (auto simp: jlt_def split: option.splits)
  then have "s < nat \<lceil>n\<rceil>" by linarith
  with n show ?case by simp
qed

declare arc_loop.simps [simp del]

definition emitArc ::
  "library \<Rightarrow> jsval \<Rightarrow> jsval \<Rightarrow> jsval \<Rightarrow> jsval \<Rightarrow> jsval \<Rightarrow> jsval \<Rightarrow> jsval \<Rightarrow> jsval \<Rightarrow> jsval \<Rightarrow>
   state \<Rightarrow> state result" where
  "emitArc lib x1 y1 rx0 ry0 angleDeg largeArc sweep x2 y2 st =
     (if (strict_eq x1 x2 \<and> strict_eq y1 y2) \<or> strict_eq rx0 (Num 0) \<or> strict_eq ry0 (Num 0)
      then call lib (LineTo x2 y2) st
      else
       (let rx1 = Math_abs rx0; ry1 = Math_abs ry0;
            phi = jdiv (jmul angleDeg Math_PI) (Num 180);
            cp = Math_cos phi; sp = Math_sin phi;
            dx = jdiv (jsub x1 x2) (Num 2); dy = jdiv (jsub y1 y2) (Num 2);
            x1p = jadd (jmul cp dx) (jmul sp dy);
            y1p = jadd (jmul (jneg sp) dx) (jmul cp dy);
            x1pSq = jmul x1p x1p; y1pSq = jmul y1p y1p;
            lambda = jadd (jdiv x1pSq (jmul rx1 rx1)) (jdiv y1pSq (jmul ry1 ry1));
            rx = (if jgt lambda (Num 1) then jmul rx1 (Math_sqrt lambda) else rx1);
            ry = (if jgt lambda (Num 1) then jmul ry1 (Math_sqrt lambda) else ry1);
            rxSq = jmul rx rx; rySq = jmul ry ry;
            sq = Math_max (Num 0)
                   (jdiv (jsub (jsub (jmul rxSq rySq) (jmul rxSq y1pSq)) (jmul rySq x1pSq))
                         (jadd (jmul rxSq y1pSq) (jmul rySq x1pSq)));
            root = (if strict_eq largeArc sweep then jneg (Math_sqrt sq) else Math_sqrt sq);
            cxp = jmul root (jdiv (jmul rx y1p) ry);
            cyp = jmul root (jneg (jdiv (jmul ry x1p) rx));
            cx0 = jadd (jsub (jmul cp cxp) (jmul sp cyp)) (jdiv (plus_js x1 x2) (Num 2));
            cy0 = jadd (jadd (jmul sp cxp) (jmul cp cyp)) (jdiv (plus_js y1 y2) (Num 2));
            theta1 = vecAngle (Num 1) (Num 0) (jdiv (jsub x1p cxp) rx) (jdiv (jsub y1p cyp) ry);
            dTheta0 = vecAngle (jdiv (jsub x1p cxp) rx) (jdiv (jsub y1p cyp) ry)
                        (jdiv (jsub (jneg x1p) cxp) rx) (jdiv (jsub (jneg y1p) cyp) ry);
            dTheta1 = (if \<not> truthy sweep \<and> jgt dTheta0 (Num 0)
                       then jsub dTheta0 (jmul (Num 2) Math_PI) else dTheta0);
            dTheta = (if truthy sweep \<and> jlt dTheta1 (Num 0)
                      then jadd dTheta1 (jmul (Num 2) Math_PI) else dTheta1);
            segs = Math_max (Num 1)
                     (Math_ceil (jdiv (Math_abs dTheta) (jdiv Math_PI (Num 2))));
            delta = jdiv dTheta segs
        in arc_loop lib cx0 cy0 rx ry phi theta1 delta segs 0 st))"

section \<open>The path-data interpreter\<close>

text \<open>The current point \<open>(cx, cy)\<close> and the start of the subpath \<open>(sx, sy)\<close>.\<close>

record pen =
  cx :: jsval
  cy :: jsval
  sx :: jsval
  sy :: jsval

type_synonym pstate = "pen \<times> token list \<times> state"

text \<open>\<open>isNum = () => i < t.length && typeof t[i] === "number"\<close>\<close>

fun isNum :: "token list \<Rightarrow> bool" where
  "isNum (Val v # ts) = True"
| "isNum ts = False"

text \<open>
  \<open>num = () => t[i++]\<close>: past the end it gives \<open>undefined\<close>, and a command letter is
  handed over as it is, a string.
\<close>

fun num :: "token list \<Rightarrow> jsval \<times> token list" where
  "num [] = (Undef, [])"
| "num (Val v # ts) = (Num v, ts)"
| "num (Cmd c # ts) = (Letter c, ts)"

definition num2 :: "token list \<Rightarrow> jsval \<times> jsval \<times> token list" where
  "num2 ts = (case num ts of (a, t1) \<Rightarrow> (case num t1 of (b, t2) \<Rightarrow> (a, b, t2)))"

definition num4 :: "token list \<Rightarrow> jsval \<times> jsval \<times> jsval \<times> jsval \<times> token list" where
  "num4 ts =
     (case num2 ts of (a, b, t1) \<Rightarrow> (case num2 t1 of (c, d, t2) \<Rightarrow> (a, b, c, d, t2)))"

definition num6 ::
  "token list \<Rightarrow> jsval \<times> jsval \<times> jsval \<times> jsval \<times> jsval \<times> jsval \<times> token list" where
  "num6 ts =
     (case num4 ts of (a, b, c, d, t1) \<Rightarrow>
        (case num2 t1 of (e, f, t2) \<Rightarrow> (a, b, c, d, e, f, t2)))"

definition num7 ::
  "token list \<Rightarrow> jsval \<times> jsval \<times> jsval \<times> jsval \<times> jsval \<times> jsval \<times> jsval \<times> token list" where
  "num7 ts =
     (case num4 ts of (a, b, c, d, t1) \<Rightarrow>
        (case num t1 of (e, t2) \<Rightarrow>
           (case num2 t2 of (f, g, t3) \<Rightarrow> (a, b, c, d, e, f, g, t3))))"

text \<open>The twelve \<open>while (isNum()) { ... }\<close> loops of the switch, named by what they draw.\<close>

datatype segment =
    LineAbs | LineRel | HorAbs | HorRel | VerAbs | VerRel
  | CubicAbs | CubicRel | QuadAbs | QuadRel | ArcAbs | ArcRel

text \<open>One pass through the body of such a loop.\<close>

fun step :: "library \<Rightarrow> segment \<Rightarrow> pstate \<Rightarrow> pstate result" where
  "step lib LineAbs (p, ts, st) =
     (case num2 ts of (x, y, ts') \<Rightarrow>
        andThen (call lib (LineTo x y) st) (\<lambda>st'. Inr (p\<lparr>cx := x, cy := y\<rparr>, ts', st')))"
| "step lib LineRel (p, ts, st) =
     (case num2 ts of (a, b, ts') \<Rightarrow>
        (let x = padd (cx p) a; y = padd (cy p) b in
         andThen (call lib (LineTo x y) st) (\<lambda>st'. Inr (p\<lparr>cx := x, cy := y\<rparr>, ts', st'))))"
| "step lib HorAbs (p, ts, st) =
     (case num ts of (x, ts') \<Rightarrow>
        andThen (call lib (LineTo x (cy p)) st) (\<lambda>st'. Inr (p\<lparr>cx := x\<rparr>, ts', st')))"
| "step lib HorRel (p, ts, st) =
     (case num ts of (a, ts') \<Rightarrow>
        (let x = padd (cx p) a in
         andThen (call lib (LineTo x (cy p)) st) (\<lambda>st'. Inr (p\<lparr>cx := x\<rparr>, ts', st'))))"
| "step lib VerAbs (p, ts, st) =
     (case num ts of (y, ts') \<Rightarrow>
        andThen (call lib (LineTo (cx p) y) st) (\<lambda>st'. Inr (p\<lparr>cy := y\<rparr>, ts', st')))"
| "step lib VerRel (p, ts, st) =
     (case num ts of (b, ts') \<Rightarrow>
        (let y = padd (cy p) b in
         andThen (call lib (LineTo (cx p) y) st) (\<lambda>st'. Inr (p\<lparr>cy := y\<rparr>, ts', st'))))"
| "step lib CubicAbs (p, ts, st) =
     (case num6 ts of (x1, y1, x2, y2, x, y, ts') \<Rightarrow>
        andThen (call lib (BezierCurveTo x1 y1 x2 y2 x y) st)
          (\<lambda>st'. Inr (p\<lparr>cx := x, cy := y\<rparr>, ts', st')))"
| "step lib CubicRel (p, ts, st) =
     (case num6 ts of (a1, b1, a2, b2, a, b, ts') \<Rightarrow>
        (let x1 = padd (cx p) a1; y1 = padd (cy p) b1;
             x2 = padd (cx p) a2; y2 = padd (cy p) b2;
             x = padd (cx p) a; y = padd (cy p) b in
         andThen (call lib (BezierCurveTo x1 y1 x2 y2 x y) st)
           (\<lambda>st'. Inr (p\<lparr>cx := x, cy := y\<rparr>, ts', st'))))"
| "step lib QuadAbs (p, ts, st) =
     (case num4 ts of (qx, qy, x, y, ts') \<Rightarrow>
        andThen (call lib (QuadraticCurveTo qx qy x y) st)
          (\<lambda>st'. Inr (p\<lparr>cx := x, cy := y\<rparr>, ts', st')))"
| "step lib QuadRel (p, ts, st) =
     (case num4 ts of (a1, b1, a, b, ts') \<Rightarrow>
        (let qx = padd (cx p) a1; qy = padd (cy p) b1;
             x = padd (cx p) a; y = padd (cy p) b in
         andThen (call lib (QuadraticCurveTo qx qy x y) st)
           (\<lambda>st'. Inr (p\<lparr>cx := x, cy := y\<rparr>, ts', st'))))"
| "step lib ArcAbs (p, ts, st) =
     (case num7 ts of (rx, ry, rot, la, sw, ex, ey, ts') \<Rightarrow>
        andThen (emitArc lib (cx p) (cy p) rx ry rot la sw ex ey st)
          (\<lambda>st'. Inr (p\<lparr>cx := ex, cy := ey\<rparr>, ts', st')))"
| "step lib ArcRel (p, ts, st) =
     (case num7 ts of (rx, ry, rot, la, sw, a, b, ts') \<Rightarrow>
        (let ex = padd (cx p) a; ey = padd (cy p) b in
         andThen (emitArc lib (cx p) (cy p) rx ry rot la sw ex ey st)
           (\<lambda>st'. Inr (p\<lparr>cx := ex, cy := ey\<rparr>, ts', st'))))"

lemma num_length: "num ts = (v, ts') \<Longrightarrow> length ts' \<le> length ts"
  by (cases ts rule: num.cases) auto

lemma num_isNum_length: "isNum ts \<Longrightarrow> num ts = (v, ts') \<Longrightarrow> length ts' < length ts"
  by (cases ts rule: num.cases) auto

lemma num2_eq:
  "num2 ts = (a, b, ts') \<longleftrightarrow> (\<exists>t1. num ts = (a, t1) \<and> num t1 = (b, ts'))"
  by (auto simp: num2_def split: prod.splits)

lemma num4_eq:
  "num4 ts = (a, b, c, d, ts') \<longleftrightarrow>
     (\<exists>t1. num2 ts = (a, b, t1) \<and> num2 t1 = (c, d, ts'))"
  by (auto simp: num4_def split: prod.splits)

lemma num6_eq:
  "num6 ts = (a, b, c, d, e, f, ts') \<longleftrightarrow>
     (\<exists>t1. num4 ts = (a, b, c, d, t1) \<and> num2 t1 = (e, f, ts'))"
  by (auto simp: num6_def split: prod.splits)

lemma num7_eq:
  "num7 ts = (a, b, c, d, e, f, g, ts') \<longleftrightarrow>
     (\<exists>t1 t2. num4 ts = (a, b, c, d, t1) \<and> num t1 = (e, t2) \<and> num2 t2 = (f, g, ts'))"
  by (auto simp: num7_def split: prod.splits)

lemma num2_length: "num2 ts = (a, b, ts') \<Longrightarrow> length ts' \<le> length ts"
  unfolding num2_eq using num_length by (meson le_trans)

lemma num2_isNum_length:
  "isNum ts \<Longrightarrow> num2 ts = (a, b, ts') \<Longrightarrow> length ts' < length ts"
  unfolding num2_eq using num_length num_isNum_length by (meson le_less_trans)

lemma num4_isNum_length:
  "isNum ts \<Longrightarrow> num4 ts = (a, b, c, d, ts') \<Longrightarrow> length ts' < length ts"
  unfolding num4_eq using num2_length num2_isNum_length by (meson le_less_trans)

lemma num6_isNum_length:
  "isNum ts \<Longrightarrow> num6 ts = (a, b, c, d, e, f, ts') \<Longrightarrow> length ts' < length ts"
  unfolding num6_eq using num2_length num4_isNum_length by (meson le_less_trans)

lemma num7_isNum_length:
  "isNum ts \<Longrightarrow> num7 ts = (a, b, c, d, e, f, g, ts') \<Longrightarrow> length ts' < length ts"
  unfolding num7_eq using num2_length num_length num4_isNum_length
  by (meson le_less_trans)

lemma step_length:
  "isNum ts \<Longrightarrow> step lib g (p, ts, st) = Inr (p', ts', st') \<Longrightarrow> length ts' < length ts"
  by (cases g)
     (auto simp: andThen_def Let_def split: prod.splits sum.splits
       dest: num_isNum_length num2_isNum_length num4_isNum_length num6_isNum_length
         num7_isNum_length)

function repeat :: "library \<Rightarrow> segment \<Rightarrow> pstate \<Rightarrow> pstate result" where
  "repeat lib g (p, ts, st) =
     (if isNum ts then andThen (step lib g (p, ts, st)) (repeat lib g) else Inr (p, ts, st))"
  by pat_completeness auto
termination
  by (relation "measure (\<lambda>(lib, g, p, ts, st). length ts)") (auto dest: step_length)

declare repeat.simps [simp del]

text \<open>One command of the switch, the command letter already taken from the tokens.\<close>

definition command :: "library \<Rightarrow> char \<Rightarrow> pstate \<Rightarrow> pstate result" where
  "command lib c pst =
     (case pst of (p, ts, st) \<Rightarrow>
        if c = CHR ''F'' then Inr (p, ts, st)
        else if c = CHR ''M'' then
          (case num2 ts of (x, y, ts') \<Rightarrow>
             andThen (call lib (MoveTo x y) st)
               (\<lambda>st'. repeat lib LineAbs (p\<lparr>cx := x, cy := y, sx := x, sy := y\<rparr>, ts', st')))
        else if c = CHR ''m'' then
          (case num2 ts of (a, b, ts') \<Rightarrow>
             (let x = padd (cx p) a; y = padd (cy p) b in
              andThen (call lib (MoveTo x y) st)
                (\<lambda>st'. repeat lib LineRel (p\<lparr>cx := x, cy := y, sx := x, sy := y\<rparr>, ts', st'))))
        else if c = CHR ''L'' then repeat lib LineAbs (p, ts, st)
        else if c = CHR ''l'' then repeat lib LineRel (p, ts, st)
        else if c = CHR ''H'' then repeat lib HorAbs (p, ts, st)
        else if c = CHR ''h'' then repeat lib HorRel (p, ts, st)
        else if c = CHR ''V'' then repeat lib VerAbs (p, ts, st)
        else if c = CHR ''v'' then repeat lib VerRel (p, ts, st)
        else if c = CHR ''C'' then repeat lib CubicAbs (p, ts, st)
        else if c = CHR ''c'' then repeat lib CubicRel (p, ts, st)
        else if c = CHR ''Q'' then repeat lib QuadAbs (p, ts, st)
        else if c = CHR ''q'' then repeat lib QuadRel (p, ts, st)
        else if c = CHR ''A'' then repeat lib ArcAbs (p, ts, st)
        else if c = CHR ''a'' then repeat lib ArcRel (p, ts, st)
        else if c = CHR ''Z'' \<or> c = CHR ''z'' then
          andThen (call lib ClosePath st) (\<lambda>st'. Inr (p\<lparr>cx := sx p, cy := sy p\<rparr>, ts, st'))
        else Inr (p, ts, st))"

lemma repeat_length:
  "repeat lib g pst = Inr (p', ts', st') \<Longrightarrow> length ts' \<le> length (fst (snd pst))"
proof (induction lib g pst arbitrary: p' ts' st' rule: repeat.induct)
  case (1 lib g p ts st)
  show ?case
  proof (cases "isNum ts")
    case False
    with 1(2) show ?thesis by (simp add: repeat.simps)
  next
    case True
    with 1(2) obtain p1 ts1 st1 where s: "step lib g (p, ts, st) = Inr (p1, ts1, st1)"
      and r: "repeat lib g (p1, ts1, st1) = Inr (p', ts', st')"
      by (auto simp: repeat.simps [of lib g p ts st] andThen_def split: sum.splits)
    from 1(1) [OF True s r] step_length [OF True s] show ?thesis by simp
  qed
qed

lemma command_length:
  "command lib c (p, ts, st) = Inr (p', ts', st') \<Longrightarrow> length ts' \<le> length ts"
  unfolding command_def
  by (auto simp: andThen_def Let_def split: if_splits prod.splits sum.splits
      dest!: repeat_length num2_length)

text \<open>
  \<open>while (i < t.length) { const cmd = t[i++]; switch (cmd) { ... } }\<close>: a token that is
  a number where a command is expected matches no case and is skipped.
\<close>

function run :: "library \<Rightarrow> pstate \<Rightarrow> pstate result" where
  "run lib (p, [], st) = Inr (p, [], st)"
| "run lib (p, Cmd c # ts, st) = andThen (command lib c (p, ts, st)) (run lib)"
| "run lib (p, Val v # ts, st) = run lib (p, ts, st)"
  by pat_completeness auto
termination
  by (relation "measure (\<lambda>(lib, p, ts, st). length ts)")
     (auto simp: le_imp_less_Suc dest: command_length)

definition drawPathData :: "library \<Rightarrow> string \<Rightarrow> state \<Rightarrow> state result" where
  "drawPathData lib d st =
     (case run lib (\<lparr>cx = Num 0, cy = Num 0, sx = Num 0, sy = Num 0\<rparr>, tokenizePath d, st) of
        Inl e \<Rightarrow> Inl e
      | Inr (p, ts, st') \<Rightarrow> Inr st')"

section \<open>Stroke styling\<close>

definition toLowerCase :: "string \<Rightarrow> string" where
  "toLowerCase s =
     map (\<lambda>c. if c \<in> set ''ABCDEFGHIJKLMNOPQRSTUVWXYZ''
               then char_of (of_char c + (32 :: nat)) else c) s"

definition applyStrokeStyle :: "library \<Rightarrow> node \<Rightarrow> jsval \<Rightarrow> state \<Rightarrow> state result" where
  "applyStrokeStyle lib node thickness st =
     andThen (call lib (StrokeColor (attr node ''Stroke'')) st) (\<lambda>st.
     andThen (call lib (LineWidth thickness) st) (\<lambda>st.
     (let cap = toLowerCase
                  (or_default (attr node ''StrokeEndLineCap'')
                     (or_default (attr node ''StrokeStartLineCap'') ''Flat'')) in
      andThen (call lib (LineCap (if cap = ''round'' then ''round''
                                  else if cap = ''square'' then ''square'' else ''butt'')) st) (\<lambda>st.
     (let join = toLowerCase (or_default (attr node ''StrokeLineJoin'') ''Miter'') in
      andThen (call lib (LineJoin (if join = ''round'' then ''round''
                                   else if join = ''bevel'' then ''bevel'' else ''miter'')) st) (\<lambda>st.
     (let miter = parseFloat (or_default (attr node ''StrokeMiterLimit'') ''10'') in
      andThen (call lib (MiterLimit miter) st) (\<lambda>st.
     (let dashStr = attr node ''StrokeDashArray'' in
      if present dashStr \<and> dashStr \<noteq> Some ''1 0'' then
        (let dashOffset = parseFloat (or_default (attr node ''StrokeDashOffset'') ''0'');
             parts = map (\<lambda>p. jmul (parseFloat p) thickness) (split_sep (or_default dashStr []))
         in call lib (Dash parts (Math_abs (jmul dashOffset thickness))) st)
      else call lib Undash st)))))))))"

section \<open>Rendering\<close>

text \<open>An image brush of the resource table.\<close>

record brush =
  imageBuffer :: "byte list option"
  transform :: "string option"
  viewport :: "string option"
  viewbox :: "string option"

text \<open>
  The tables \<open>resources\<close> and \<open>fonts\<close> are plain objects (\<open>{}\<close>) used as maps from
  text to values. The maps below hold their own properties. Reading \<open>table[key]\<close> also
  finds what every object inherits from \<open>Object.prototype\<close>: for these names the value
  read is a function (for \<open>__proto__\<close>, an object), which is truthy.
\<close>

type_synonym resources = "string \<rightharpoonup> brush"
type_synonym fonts = "string \<rightharpoonup> byte list"

definition object_prototype :: "string list" where
  "object_prototype =
     [''constructor'', ''hasOwnProperty'', ''isPrototypeOf'', ''propertyIsEnumerable'',
      ''toLocaleString'', ''toString'', ''valueOf'', ''__defineGetter__'',
      ''__defineSetter__'', ''__lookupGetter__'', ''__lookupSetter__'', ''__proto__'']"

text \<open>
  \<open>fonts[uri]\<close>: the bytes stored under the name, or else the inherited property of that
  name, or else \<open>undefined\<close>. (\<open>collectFontRefs\<close> stores nothing under an inherited name,
  because \<open>!fonts[uri]\<close> is false for it.)
\<close>

datatype font_entry = Loaded "byte list" | Inherited

definition font_at :: "fonts \<Rightarrow> string \<Rightarrow> font_entry option" where
  "font_at fnt u =
     (case fnt u of
        Some buf \<Rightarrow> Some (Loaded buf)
      | None \<Rightarrow> if u \<in> set object_prototype then Some Inherited else None)"

text \<open>
  \<open>resources[key]\<close> in \<open>renderImageFill\<close>: what is read under a name that is not stored
  is \<open>undefined\<close> or an inherited value without a truthy \<open>imageBuffer\<close>, and the function
  returns at once in both cases; so the map alone decides. (A brush stored under
  \<open>__proto__\<close> becomes the prototype of the table and is what \<open>resources["__proto__"]\<close>
  reads, as for any other name; what is then inherited from it has no \<open>imageBuffer\<close>
  either.)
\<close>

text \<open>\<open>fill.match(/^\{StaticResource\s+(\w+)\}$/)\<close>: the key, if the fill has that form.\<close>

definition is_word :: "char \<Rightarrow> bool" where
  "is_word c =
     (c \<in> set ''abcdefghijklmnopqrstuvwxyz'' \<or> c \<in> set ''ABCDEFGHIJKLMNOPQRSTUVWXYZ'' \<or>
      c \<in> set ''0123456789_'')"

definition static_resource :: "string \<Rightarrow> string option" where
  "static_resource f =
     (if take 15 f = ''{StaticResource'' then
        (let r = drop 15 f; r' = dropWhile is_space r;
             key = takeWhile is_word r'; r'' = dropWhile is_word r' in
         if takeWhile is_space r \<noteq> [] \<and> key \<noteq> [] \<and> r'' = ''}'' then Some key else None)
      else None)"

definition transform6 :: "library \<Rightarrow> jsval list \<Rightarrow> state \<Rightarrow> state result" where
  "transform6 lib m st =
     call lib (Transform (at_index m 0) (at_index m 1) (at_index m 2)
                 (at_index m 3) (at_index m 4) (at_index m 5)) st"

definition renderImageFill ::
  "library \<Rightarrow> string \<Rightarrow> string \<Rightarrow> resources \<Rightarrow> string option \<Rightarrow> node \<Rightarrow> jsval \<Rightarrow> state \<Rightarrow>
   state result" where
  "renderImageFill lib data key resources stroke node thickness st =
     (case resources key of
        None \<Rightarrow> Inr st
      | Some res \<Rightarrow>
         (case imageBuffer res of
            None \<Rightarrow> Inr st
          | Some img \<Rightarrow>
             andThen
               (swallow
                  (andThen (drawPathData lib data (save st)) (\<lambda>st.
                   andThen (call lib Clip st) (\<lambda>st.
                   andThen
                     (if present (transform res)
                      then transform6 lib
                             (map Number_of (split_comma (or_default (transform res) []))) st
                      else Inr st) (\<lambda>st.
                   (let vp = (if present (viewport res)
                              then map Number_of (split_sep (or_default (viewport res) []))
                              else [Num 0, Num 0, Num 100, Num 100])
                    in call lib (Image img (at_index vp 0) (at_index vp 1)
                                   (at_index vp 2) (at_index vp 3)) st))))))
               (\<lambda>st.
                 (let st = restore st in
                  if present stroke then
                    andThen (applyStrokeStyle lib node thickness (save st)) (\<lambda>st.
                    andThen (swallow (andThen (drawPathData lib data st) (call lib Stroke)))
                      (\<lambda>st. Inr (restore st)))
                  else Inr st))))"

definition renderPath :: "library \<Rightarrow> resources \<Rightarrow> node \<Rightarrow> state \<Rightarrow> state result" where
  "renderPath lib resources node st =
     (if \<not> has_attributes node then Inl (TypeError, st)
      else
      (let data = attr node ''Data'' in
      if \<not> present data then Inr st
      else
       (let fill = attr node ''Fill''; stroke = attr node ''Stroke'' in
        if \<not> present fill \<and> \<not> present stroke then Inr st
        else
         (let thickness = parseFloat (or_default (attr node ''StrokeThickness'') ''1'');
              resMatch = (if present fill then static_resource (or_default fill []) else None)
          in case resMatch of
               Some key \<Rightarrow>
                 renderImageFill lib (or_default data []) key resources stroke node thickness st
             | None \<Rightarrow>
                 andThen
                   (if present stroke then applyStrokeStyle lib node thickness (save st)
                    else Inr (save st)) (\<lambda>st.
                 andThen
                   (swallow
                      (andThen (drawPathData lib (or_default data []) st) (\<lambda>st.
                         if present fill \<and> present stroke
                         then call lib (FillAndStroke (or_default fill []) (or_default stroke [])) st
                         else if present fill then call lib (Fill (or_default fill [])) st
                         else call lib Stroke st)))
                   (\<lambda>st. Inr (restore st)))))))"

text \<open>\<open>Buffer.from(uri).toString("hex")\<close>\<close>

definition hex_digit :: "nat \<Rightarrow> char" where
  "hex_digit n = ''0123456789abcdef'' ! (n mod 16)"

definition hex_encode :: "string \<Rightarrow> string" where
  "hex_encode s = concat (map (\<lambda>c. [hex_digit (of_char c div 16), hex_digit (of_char c)]) s)"

definition renderGlyphs :: "library \<Rightarrow> fonts \<Rightarrow> node \<Rightarrow> state \<Rightarrow> state result" where
  "renderGlyphs lib fonts node st =
     (if \<not> has_attributes node then Inl (TypeError, st)
      else
      (let text = attr node ''UnicodeString'' in
      if \<not> present text then Inr st
      else
       (let fill = or_default (attr node ''Fill'') ''#000000'';
            fontSize = parseFloat (or_default (attr node ''FontRenderingEmSize'') ''12'');
            ox = parseFloat (or_default (attr node ''OriginX'') ''0'');
            oy = parseFloat (or_default (attr node ''OriginY'') ''0'');
            uri = attr node ''FontUri'';
            st1 = save st;
            chosen =
              (case (if present uri then font_at fonts (or_default uri []) else None) of
                 None \<Rightarrow> (''Helvetica'', st1)
               | Some entry \<Rightarrow>
                  (let fontId = ''f_'' @ take 20 (hex_encode (or_default uri [])) in
                   if fontId \<notin> registeredFonts st1 then
                     (case call lib
                             (case entry of
                                Loaded buf \<Rightarrow> RegisterFont fontId buf
                              | Inherited \<Rightarrow> RegisterInherited fontId (or_default uri []))
                             st1 of
                        Inr st2 \<Rightarrow>
                          (fontId, st2\<lparr>registeredFonts := insert fontId (registeredFonts st2)\<rparr>)
                      | Inl (e, st2) \<Rightarrow> (''Helvetica'', st2))
                   else (fontId, st1)))
        in case chosen of (fontName, st3) \<Rightarrow>
             andThen
               (swallow
                  (andThen (call lib (Font fontName) st3) (\<lambda>st.
                   andThen (call lib (FontSize fontSize) st) (\<lambda>st.
                   andThen (call lib (FillColor fill) st) (\<lambda>st.
                   call lib (Text (or_default text []) ox (jsub oy (jmul fontSize (Num 0.8))) False)
                     st)))))
               (\<lambda>st. Inr (restore st)))))"

text \<open>The walk over the page tree.\<close>

function renderElement :: "library \<Rightarrow> resources \<Rightarrow> fonts \<Rightarrow> node \<Rightarrow> state \<Rightarrow> state result"
  and renderCanvas :: "library \<Rightarrow> resources \<Rightarrow> fonts \<Rightarrow> node \<Rightarrow> state \<Rightarrow> state result"
  and renderChildren :: "library \<Rightarrow> resources \<Rightarrow> fonts \<Rightarrow> node \<Rightarrow> state \<Rightarrow> state result"
  and renderEach :: "library \<Rightarrow> resources \<Rightarrow> fonts \<Rightarrow> node list \<Rightarrow> state \<Rightarrow> state result"
where
  "renderElement lib res fnt (Node t a cs) st =
     (if t = ''Canvas'' then renderCanvas lib res fnt (Node t a cs) st
      else if t = ''Path'' then renderPath lib res (Node t a cs) st
      else if t = ''Glyphs'' then renderGlyphs lib fnt (Node t a cs) st
      else if t = ''Canvas.Resources'' \<or> t = ''ResourceDictionary'' then Inr st
      else renderChildren lib res fnt (Node t a cs) st)"
| "renderCanvas lib res fnt (Node t a cs) st =
     (if \<not> has_attributes (Node t a cs) then Inl (TypeError, save st)
      else
       (let rt = attr (Node t a cs) ''RenderTransform'';
            clip = attr (Node t a cs) ''Clip'' in
        andThen
          (if present rt
           then transform6 lib (map Number_of (split_comma (or_default rt []))) (save st)
           else Inr (save st)) (\<lambda>st.
        andThen
          (if present clip
           then andThen (drawPathData lib (or_default clip []) st) (call lib Clip)
           else Inr st) (\<lambda>st.
        andThen (renderChildren lib res fnt (Node t a cs) st) (\<lambda>st.
        Inr (restore st))))))"
| "renderChildren lib res fnt (Node t a cs) st = renderEach lib res fnt cs st"
| "renderEach lib res fnt [] st = Inr st"
| "renderEach lib res fnt (c # cs) st =
     andThen (renderElement lib res fnt c st) (renderEach lib res fnt cs)"
  by pat_completeness auto
termination
  by (relation "measure (\<lambda>x. case x of
         Inl (Inl (lib, res, fnt, n, st)) \<Rightarrow> 3 * size n + 2
       | Inl (Inr (lib, res, fnt, n, st)) \<Rightarrow> 3 * size n + 1
       | Inr (Inl (lib, res, fnt, n, st)) \<Rightarrow> 3 * size n
       | Inr (Inr (lib, res, fnt, ns, st)) \<Rightarrow> 3 * size_list size ns + 2)")
     auto

section \<open>The package\<close>

text \<open>
  The opened ZIP container: the data of each entry by name. XML parts are text; the
  decoding is taken bytewise. The XML parser is external: it is a parameter that gives the
  root element of a text, or nothing when it rejects the text.
\<close>

type_synonym zip = "string \<rightharpoonup> byte list"
type_synonym parser = "string \<Rightarrow> node option"

definition strip_prefix :: "string \<Rightarrow> string \<Rightarrow> string" where
  "strip_prefix pre s = (if take (length pre) s = pre then drop (length pre) s else s)"

definition readEntryBuf :: "zip \<Rightarrow> string \<Rightarrow> byte list option" where
  "readEntryBuf z p = z (strip_prefix ''/'' (strip_prefix ''./'' p))"

definition toString :: "byte list \<Rightarrow> string" where
  "toString buf = map (\<lambda>b. char_of (unat b)) buf"

definition readEntry :: "zip \<Rightarrow> string \<Rightarrow> string option" where
  "readEntry z p = map_option toString (z (strip_prefix ''/'' (strip_prefix ''./'' p)))"

text \<open>\<open>path.posix\<close> of the runtime: \<open>dirname\<close>, \<open>basename\<close>, \<open>join\<close>.\<close>

definition is_slash :: "char \<Rightarrow> bool" where
  "is_slash c = (c = CHR ''/'')"

definition dirname :: "string \<Rightarrow> string" where
  "dirname p =
     (case p of
        [] \<Rightarrow> ''.''
      | c # t \<Rightarrow>
          (case dropWhile (\<lambda>x. \<not> is_slash x) (dropWhile is_slash (rev t)) of
             [] \<Rightarrow> if is_slash c then ''/'' else ''.''
           | s # r \<Rightarrow> if is_slash c \<and> r = [] then ''//'' else c # rev r))"

definition basename :: "string \<Rightarrow> string" where
  "basename p = rev (takeWhile (\<lambda>x. \<not> is_slash x) (dropWhile is_slash (rev p)))"

fun split_slash :: "string \<Rightarrow> string list" where
  "split_slash [] = [[]]"
| "split_slash (c # s) =
     (if is_slash c then [] # split_slash s
      else (case split_slash s of
              [] \<Rightarrow> [[c]]
            | p # ps \<Rightarrow> (c # p) # ps))"

text \<open>The segments kept so far are held last first.\<close>

fun normalize_segments :: "bool \<Rightarrow> string list \<Rightarrow> string list \<Rightarrow> string list" where
  "normalize_segments allowAboveRoot acc [] = rev acc"
| "normalize_segments allowAboveRoot acc (seg # segs) =
     (if seg = [] \<or> seg = ''.'' then normalize_segments allowAboveRoot acc segs
      else if seg = ''..'' then
        (case acc of
           [] \<Rightarrow> normalize_segments allowAboveRoot (if allowAboveRoot then [''..''] else []) segs
         | l # rest \<Rightarrow>
             if l = ''..'' then normalize_segments allowAboveRoot (if allowAboveRoot then ''..'' # acc else acc) segs
             else normalize_segments allowAboveRoot rest segs)
      else normalize_segments allowAboveRoot (seg # acc) segs)"

fun join_slash :: "string list \<Rightarrow> string" where
  "join_slash [] = []"
| "join_slash [s] = s"
| "join_slash (s # ss) = s @ ''/'' @ join_slash ss"

definition normalize :: "string \<Rightarrow> string" where
  "normalize p =
     (if p = [] then ''.''
      else
       (let isAbsolute = is_slash (hd p); trailingSeparator = is_slash (last p);
            q = join_slash (normalize_segments (\<not> isAbsolute) [] (split_slash p)) in
        if q = [] then (if isAbsolute then ''/'' else if trailingSeparator then ''./'' else ''.'')
        else (if isAbsolute then ''/'' else []) @ q @ (if trailingSeparator then ''/'' else [])))"

definition posix_join :: "string \<Rightarrow> string \<Rightarrow> string" where
  "posix_join a b =
     (if a = [] \<and> b = [] then ''.''
      else if a = [] then normalize b
      else if b = [] then normalize a
      else normalize (a @ ''/'' @ b))"

definition resolvePath :: "string \<Rightarrow> string \<Rightarrow> string" where
  "resolvePath base rel =
     (if take 1 rel = ''/'' then drop 1 rel
      else posix_join base (strip_prefix ''./'' rel))"

section \<open>Navigation\<close>

record page =
  fpagePath :: string
  basePath :: string

text \<open>The loop over the \<open>PageContent\<close> children of one fixed document.\<close>

fun page_contents :: "node list \<Rightarrow> page list \<Rightarrow> error + page list" where
  "page_contents [] pages = Inr pages"
| "page_contents (pc # pcs) pages =
     (if tag pc \<noteq> ''PageContent'' then page_contents pcs pages
      else (case attr pc ''Source'' of
              None \<Rightarrow> Inl TypeError
            | Some s \<Rightarrow>
                (let src = strip_prefix ''/'' s in
                 page_contents pcs (pages @ [\<lparr>fpagePath = src, basePath = dirname src\<rparr>]))))"

text \<open>The loop over the \<open>DocumentReference\<close> children of the sequence.\<close>

fun document_references :: "parser \<Rightarrow> zip \<Rightarrow> node list \<Rightarrow> page list \<Rightarrow> error + page list" where
  "document_references P z [] pages = Inr pages"
| "document_references P z (child # cs) pages =
     (if tag child \<noteq> ''DocumentReference'' then document_references P z cs pages
      else (case attr child ''Source'' of
              None \<Rightarrow> Inl TypeError
            | Some s \<Rightarrow>
                (let docXml = readEntry z (strip_prefix ''/'' s) in
                 if \<not> present docXml then document_references P z cs pages
                 else (case P (or_default docXml []) of
                         None \<Rightarrow> Inl XmlParseError
                       | Some docRoot \<Rightarrow>
                           (case page_contents (getChildren docRoot) pages of
                              Inl e \<Rightarrow> Inl e
                            | Inr pages' \<Rightarrow> document_references P z cs pages')))))"

definition findPages :: "parser \<Rightarrow> zip \<Rightarrow> error + page list" where
  "findPages P z =
     (let fdseqXml = readEntry z ''FixedDocumentSequence.fdseq'' in
      if \<not> present fdseqXml then Inl NoFixedDocumentSequence
      else (case P (or_default fdseqXml []) of
              None \<Rightarrow> Inl XmlParseError
            | Some fdseqRoot \<Rightarrow> document_references P z (getChildren fdseqRoot) []))"

section \<open>Resources and fonts\<close>

definition loadBrush :: "zip \<Rightarrow> string \<Rightarrow> node \<Rightarrow> resources \<Rightarrow> error + resources" where
  "loadBrush z base n resources =
     (if tag n \<noteq> ''ImageBrush'' then Inr resources
      else if \<not> has_attributes n then Inl TypeError
      else
       (let key = (if present (attr n ''x:Key'') then attr n ''x:Key'' else attr n ''Key'');
            imgSrc = attr n ''ImageSource'' in
        if \<not> present key \<or> \<not> present imgSrc then Inr resources
        else Inr (resources(or_default key [] \<mapsto>
               \<lparr>imageBuffer = readEntryBuf z (resolvePath base (or_default imgSrc [])),
                transform = attr n ''Transform'',
                viewport = attr n ''Viewport'',
                viewbox = attr n ''Viewbox''\<rparr>))))"

text \<open>\<open>for (const child of getChildren(root)) loadBrush(child, basePath, zip, resources)\<close>\<close>

fun loadBrushes :: "zip \<Rightarrow> string \<Rightarrow> node list \<Rightarrow> resources \<Rightarrow> error + resources" where
  "loadBrushes z base [] resources = Inr resources"
| "loadBrushes z base (n # ns) resources =
     (case loadBrush z base n resources of
        Inl e \<Rightarrow> Inl e
      | Inr resources' \<Rightarrow> loadBrushes z base ns resources')"

definition parseResourceDict ::
  "parser \<Rightarrow> zip \<Rightarrow> string \<Rightarrow> string \<Rightarrow> resources \<Rightarrow> error + resources" where
  "parseResourceDict P z base xml resources =
     (case P xml of
        None \<Rightarrow> Inl XmlParseError
      | Some rdRoot \<Rightarrow> loadBrushes z base (getChildren rdRoot) resources)"

text \<open>The loop over the children of one \<open>Canvas.Resources\<close> element.\<close>

fun resource_dictionaries ::
  "parser \<Rightarrow> zip \<Rightarrow> string \<Rightarrow> node list \<Rightarrow> resources \<Rightarrow> error + resources" where
  "resource_dictionaries P z base [] resources = Inr resources"
| "resource_dictionaries P z base (rd # rds) resources =
     (if tag rd \<noteq> ''ResourceDictionary'' then resource_dictionaries P z base rds resources
      else if \<not> has_attributes rd then Inl TypeError
      else
       (let src = attr rd ''Source'';
            rdXml = (if present src then readEntry z (resolvePath base (or_default src []))
                     else None) in
        case (if present rdXml then parseResourceDict P z base (or_default rdXml []) resources
              else Inr resources) of
          Inl e \<Rightarrow> Inl e
        | Inr resources' \<Rightarrow>
            (case loadBrushes z base (getChildren rd) resources' of
               Inl e \<Rightarrow> Inl e
             | Inr resources'' \<Rightarrow> resource_dictionaries P z base rds resources'')))"

fun collectResources ::
  "parser \<Rightarrow> zip \<Rightarrow> string \<Rightarrow> node \<Rightarrow> resources \<Rightarrow> error + resources"
  and collectResources_each ::
  "parser \<Rightarrow> zip \<Rightarrow> string \<Rightarrow> node list \<Rightarrow> resources \<Rightarrow> error + resources"
where
  "collectResources P z base (Node t a cs) resources = collectResources_each P z base cs resources"
| "collectResources_each P z base [] resources = Inr resources"
| "collectResources_each P z base (child # cs) resources =
     (case (if tag child = ''Canvas.Resources''
            then resource_dictionaries P z base (getChildren child) resources
            else Inr resources) of
        Inl e \<Rightarrow> Inl e
      | Inr r1 \<Rightarrow>
          (case collectResources P z base child r1 of
             Inl e \<Rightarrow> Inl e
           | Inr r2 \<Rightarrow> collectResources_each P z base cs r2))"

text \<open>
  What \<open>collectFontRefs\<close> does with one \<open>Glyphs\<close> child before it descends into it.
\<close>

definition font_ref :: "zip \<Rightarrow> string \<Rightarrow> node \<Rightarrow> fonts \<Rightarrow> error + fonts" where
  "font_ref z base child fnt =
     (if \<not> has_attributes child then Inl TypeError
      else
       (let uri = attr child ''FontUri'' in
        if present uri \<and> font_at fnt (or_default uri []) = None then
          (case readEntryBuf z (resolvePath base (or_default uri [])) of
             None \<Rightarrow> Inr fnt
           | Some buf \<Rightarrow>
               Inr (fnt(or_default uri [] \<mapsto> deobfuscateOdttf buf (basename (or_default uri [])))))
        else Inr fnt))"

fun collectFontRefs :: "zip \<Rightarrow> string \<Rightarrow> node \<Rightarrow> fonts \<Rightarrow> error + fonts"
  and collectFontRefs_each :: "zip \<Rightarrow> string \<Rightarrow> node list \<Rightarrow> fonts \<Rightarrow> error + fonts"
where
  "collectFontRefs z base (Node t a cs) fnt = collectFontRefs_each z base cs fnt"
| "collectFontRefs_each z base [] fnt = Inr fnt"
| "collectFontRefs_each z base (child # cs) fnt =
     (case (if tag child = ''Glyphs'' then font_ref z base child fnt else Inr fnt) of
        Inl e \<Rightarrow> Inl e
      | Inr f1 \<Rightarrow>
          (case collectFontRefs z base child f1 of
             Inl e \<Rightarrow> Inl e
           | Inr f2 \<Rightarrow> collectFontRefs_each z base cs f2))"

section \<open>The conversion\<close>

definition XPS_TO_PDF :: jsval where
  "XPS_TO_PDF = Num (72 / 96)"

text \<open>
  \<open>convertDwfxToPdf\<close> on an opened package. The module-level set \<open>registeredFonts\<close> is
  an argument, and is handed back in the result (in the final state, or beside the error):
  it outlives the conversion.
\<close>

definition convertDwfxToPdf ::
  "parser \<Rightarrow> library \<Rightarrow> zip \<Rightarrow> string set \<Rightarrow> (error \<times> string set) + state" where
  "convertDwfxToPdf P lib z rf =
     (case findPages P z of
        Inl e \<Rightarrow> Inl (e, rf)
      | Inr pages \<Rightarrow>
         (case pages of
            [] \<Rightarrow> Inl (NoPagesFound, rf)
          | pg # others \<Rightarrow>
             (let fpageXml = readEntry z (fpagePath pg) in
              if \<not> present fpageXml then Inl (CannotReadPage (fpagePath pg), rf)
              else
               (case P (or_default fpageXml []) of
                  None \<Rightarrow> Inl (XmlParseError, rf)
                | Some fixedPage \<Rightarrow>
                   (if \<not> has_attributes fixedPage then Inl (TypeError, rf)
                    else
                    (let pageW = parseFloat_opt (attr fixedPage ''Width'');
                         pageH = parseFloat_opt (attr fixedPage ''Height'') in
                     (case collectResources P z (basePath pg) fixedPage Map.empty of
                        Inl e \<Rightarrow> Inl (e, rf)
                      | Inr resources \<Rightarrow>
                         (case collectFontRefs z (basePath pg) fixedPage Map.empty of
                            Inl e \<Rightarrow> Inl (e, rf)
                          | Inr fnt \<Rightarrow>
                             (let doc = \<lparr>page_size = (jmul pageW XPS_TO_PDF, jmul pageH XPS_TO_PDF),
                                         ops = [], registeredFonts = rf\<rparr> in
                              case andThen
                                     (call lib
                                        (Transform XPS_TO_PDF (Num 0) (Num 0) XPS_TO_PDF (Num 0) (Num 0))
                                        (save doc)) (\<lambda>st.
                                   andThen (renderChildren lib resources fnt fixedPage st) (\<lambda>st.
                                   Inr (end_document (restore st)))) of
                                Inl (e, st) \<Rightarrow> Inl (e, registeredFonts st)
                              | Inr st \<Rightarrow> Inr st)))))))))"

section \<open>Notions used to state the properties\<close>

text \<open>A library that refuses nothing, and an empty document.\<close>

definition accept_all :: library where
  "accept_all prior c = False"

definition blank :: state where
  "blank = \<lparr>page_size = (Num 0, Num 0), ops = [], registeredFonts = {}\<rparr>"

text \<open>The library accepts these calls one after the other, after the calls \<open>prior\<close>.\<close>

fun accepts :: "library \<Rightarrow> pdf_op list \<Rightarrow> pdf_op list \<Rightarrow> bool" where
  "accepts lib prior [] = True"
| "accepts lib prior (c # cs) = (\<not> lib prior c \<and> accepts lib (prior @ [c]) cs)"

text \<open>
  A library that refuses a call with an operand that is not a number, as a PDF writer
  does when it formats its operands.
\<close>

fun operands :: "pdf_op \<Rightarrow> jsval list" where
  "operands (Transform a b c d e f) = [a, b, c, d, e, f]"
| "operands (MoveTo x y) = [x, y]"
| "operands (LineTo x y) = [x, y]"
| "operands (BezierCurveTo a b c d e f) = [a, b, c, d, e, f]"
| "operands (QuadraticCurveTo a b c d) = [a, b, c, d]"
| "operands (Image buf x y wd ht) = [x, y, wd, ht]"
| "operands (LineWidth w) = [w]"
| "operands (MiterLimit m) = [m]"
| "operands (Dash parts phase) = parts @ [phase]"
| "operands (FontSize s) = [s]"
| "operands (Text t x y b) = [x, y]"
| "operands c = []"

definition refuses_non_numbers :: library where
  "refuses_non_numbers prior c = list_ex (\<lambda>v. to_number v = None) (operands c)"

text \<open>
  A library that refuses to select a font that is neither the standard face nor
  registered in the document.
\<close>

definition refuses_unknown_fonts :: library where
  "refuses_unknown_fonts prior c =
     (case c of
        Font n \<Rightarrow> n \<noteq> ''Helvetica'' \<and> \<not> list_ex (\<lambda>p. case p of RegisterFont m buf \<Rightarrow> m = n | _ \<Rightarrow> False) prior
      | _ \<Rightarrow> False)"

text \<open>An attribute with its default: the text, and the number read from it.\<close>

definition attr_text :: "node \<Rightarrow> string \<Rightarrow> string \<Rightarrow> string" where
  "attr_text n k d = (case attr n k of None \<Rightarrow> d | Some v \<Rightarrow> if v = [] then d else v)"

definition attr_number :: "node \<Rightarrow> string \<Rightarrow> real \<Rightarrow> jsval" where
  "attr_number n k d =
     (case attr n k of None \<Rightarrow> Num d | Some v \<Rightarrow> if v = [] then Num d else parseFloat v)"

text \<open>
  What \<open>uri && fonts[uri]\<close> finds for the \<open>FontUri\<close> of an element, the call that registers
  it, and the identifier it is registered under.
\<close>

definition loaded_font :: "fonts \<Rightarrow> node \<Rightarrow> font_entry option" where
  "loaded_font fnt n =
     (case attr n ''FontUri'' of
        None \<Rightarrow> None
      | Some u \<Rightarrow> if u = [] then None else font_at fnt u)"

definition register_call :: "node \<Rightarrow> string \<Rightarrow> font_entry \<Rightarrow> pdf_op" where
  "register_call n fontId entry =
     (case entry of
        Loaded buf \<Rightarrow> RegisterFont fontId buf
      | Inherited \<Rightarrow> RegisterInherited fontId (case attr n ''FontUri'' of None \<Rightarrow> [] | Some u \<Rightarrow> u))"

definition font_id :: "node \<Rightarrow> string" where
  "font_id n = ''f_'' @ take 20 (hex_encode (attr_text n ''FontUri'' []))"

text \<open>
  The calls that draw the text of a \<open>Glyphs\<close> element in a given face: at
  \<open>(OriginX, OriginY - 0.8 * FontRenderingEmSize)\<close>, without line breaking.
\<close>

definition glyph_run :: "node \<Rightarrow> string \<Rightarrow> pdf_op list" where
  "glyph_run n face =
     [Font face,
      FontSize (attr_number n ''FontRenderingEmSize'' 12),
      FillColor (attr_text n ''Fill'' ''#000000''),
      Text (attr_text n ''UnicodeString'' [])
        (attr_number n ''OriginX'' 0)
        (jsub (attr_number n ''OriginY'' 0)
           (jmul (attr_number n ''FontRenderingEmSize'' 12) (Num 0.8)))
        False]"

text \<open>
  Following the graphics-state stack through a sequence of calls, from \<open>k\<close> frames saved
  within the sequence's own scope: the number of frames at the end, or nothing if a
  restore would pop a frame that was not saved in scope, or a transform is applied with
  no frame saved in scope, or the document is ended.
\<close>

fun walk :: "nat \<Rightarrow> pdf_op list \<Rightarrow> nat option" where
  "walk k [] = Some k"
| "walk k (Save # cs) = walk (Suc k) cs"
| "walk k (Restore # cs) = (if k = 0 then None else walk (k - 1) cs)"
| "walk k (Transform a b c d e f # cs) = (if k = 0 then None else walk k cs)"
| "walk k (End # cs) = None"
| "walk k (c # cs) = walk k cs"

text \<open>
  The transform a text of comma-separated numbers stands for:
  \<open>m = text.split(",").map(Number); doc.transform(m[0], m[1], m[2], m[3], m[4], m[5])\<close>.
\<close>

definition transform_of :: "string \<Rightarrow> pdf_op" where
  "transform_of s =
     (let m = map Number_of (split_comma s) in
      Transform (at_index m 0) (at_index m 1) (at_index m 2)
        (at_index m 3) (at_index m 4) (at_index m 5))"

text \<open>
  The transforms a page declares: the \<open>RenderTransform\<close> of its \<open>Canvas\<close> elements and the
  \<open>Transform\<close> of the image brushes of its resource table.
\<close>

fun canvas_transforms :: "node \<Rightarrow> pdf_op list" where
  "canvas_transforms (Node t a cs) =
     (if t = ''Canvas'' \<and> present (map_of a ''RenderTransform'')
      then [transform_of (or_default (map_of a ''RenderTransform'') [])] else [])
     @ concat (map canvas_transforms cs)"

definition brush_transforms :: "resources \<Rightarrow> pdf_op set" where
  "brush_transforms resources =
     {c. \<exists>key b. resources key = Some b \<and> present (transform b) \<and>
                  c = transform_of (or_default (transform b) [])}"

definition declared :: "node \<Rightarrow> resources \<Rightarrow> pdf_op set" where
  "declared n resources = set (canvas_transforms n) \<union> brush_transforms resources"

text \<open>Of the calls of a sequence, every transform is one of \<open>T\<close>.\<close>

definition allowed :: "pdf_op set \<Rightarrow> pdf_op \<Rightarrow> bool" where
  "allowed T c = (case c of Transform a b c' d e f \<Rightarrow> c \<in> T | _ \<Rightarrow> True)"

text \<open>A small package: one document, one page, one \<open>Glyphs\<close> element with an embedded font.\<close>

definition Buffer_from :: "string \<Rightarrow> byte list" where
  "Buffer_from s = map (\<lambda>c. of_nat (of_char c)) s"

definition sample_page :: node where
  "sample_page =
     Node ''FixedPage'' [(''Width'', ''960''), (''Height'', ''720'')]
       [Node ''Glyphs'' [(''UnicodeString'', ''Hi''), (''FontUri'', ''/f.odttf'')] []]"

definition sample_parser :: parser where
  "sample_parser xml =
     (if xml = ''<seq>'' then
        Some (Node ''FixedDocumentSequence'' []
                [Node ''DocumentReference'' [(''Source'', ''/doc'')] []])
      else if xml = ''<doc>'' then
        Some (Node ''FixedDocument'' [] [Node ''PageContent'' [(''Source'', ''/page'')] []])
      else if xml = ''<page>'' then Some sample_page
      else None)"

definition sample_zip :: zip where
  "sample_zip =
     [''FixedDocumentSequence.fdseq'' \<mapsto> Buffer_from ''<seq>'',
      ''doc'' \<mapsto> Buffer_from ''<doc>'',
      ''page'' \<mapsto> Buffer_from ''<page>'',
      ''f.odttf'' \<mapsto> [1, 2, 3]]"

text \<open>A call that neither touches the stack of frames, nor transforms, nor ends the document.\<close>

definition plain :: "pdf_op \<Rightarrow> bool" where
  "plain c = (\<forall>k. walk k [c] = Some k)"

text \<open>
  How a state grows into a later one: the page size is kept and calls are added that take
  the stack from \<open>a\<close> frames in scope to \<open>b\<close> (whatever lies below those frames), and every
  transform among them is one of \<open>T\<close>.
\<close>

definition grows :: "pdf_op set \<Rightarrow> nat \<Rightarrow> nat \<Rightarrow> state \<Rightarrow> state \<Rightarrow> bool" where
  "grows T a b st st' =
     (page_size st' = page_size st \<and>
      (\<exists>d. ops st' = ops st @ d \<and> (\<forall>k. walk (a + k) d = Some (b + k)) \<and>
           list_all (allowed T) d))"

text \<open>
  The exceptions that come from the library, and the exceptions the rendering of an
  element can end with.
\<close>

definition library_error :: "error \<Rightarrow> bool" where
  "library_error e = (case e of Rejected c \<Rightarrow> True | _ \<Rightarrow> False)"

definition render_error :: "error \<Rightarrow> bool" where
  "render_error e = (library_error e \<or> e = TypeError)"

text \<open>
  A computation that stays in its frame, also when it raises: what the body of a
  \<open>try\<close> block must be for the \<open>restore\<close> after it to match.
\<close>

definition inside :: "pdf_op set \<Rightarrow> ('a \<Rightarrow> state) \<Rightarrow> nat \<Rightarrow> state \<Rightarrow> 'a result \<Rightarrow> bool" where
  "inside T prj a st r =
     (case r of
        Inr x \<Rightarrow> grows T a a st (prj x)
      | Inl (e, st') \<Rightarrow> library_error e \<and> grows T a a st st')"

text \<open>A computation that, when it returns, has taken the stack from \<open>a\<close> frames to \<open>b\<close>.\<close>

definition tracks :: "pdf_op set \<Rightarrow> nat \<Rightarrow> nat \<Rightarrow> state \<Rightarrow> state result \<Rightarrow> bool" where
  "tracks T a b st r =
     (case r of
        Inr st' \<Rightarrow> grows T a b st st'
      | Inl (e, st') \<Rightarrow> render_error e)"

text \<open>The root element of the page the conversion renders: the first page reference.\<close>

definition first_fixed_page :: "parser \<Rightarrow> zip \<Rightarrow> node option" where
  "first_fixed_page P z =
     (case findPages P z of
        Inl e \<Rightarrow> None
      | Inr pages \<Rightarrow>
          (case pages of
             [] \<Rightarrow> None
           | pg # others \<Rightarrow>
               (case readEntry z (fpagePath pg) of
                  None \<Rightarrow> None
                | Some xml \<Rightarrow> if xml = [] then None else P xml)))"

text \<open>The resource table the conversion collects for that page.\<close>

definition first_page_resources :: "parser \<Rightarrow> zip \<Rightarrow> resources option" where
  "first_page_resources P z =
     (case findPages P z of
        Inl e \<Rightarrow> None
      | Inr pages \<Rightarrow>
          (case pages of
             [] \<Rightarrow> None
           | pg # others \<Rightarrow>
               (case first_fixed_page P z of
                  None \<Rightarrow> None
                | Some fixedPage \<Rightarrow>
                    (case collectResources P z (basePath pg) fixedPage Map.empty of
                       Inl e \<Rightarrow> None
                     | Inr resources \<Rightarrow> Some resources))))"

text \<open>The document as \<open>convertDwfxToPdf\<close> creates it for a page.\<close>

definition new_document :: "node \<Rightarrow> string set \<Rightarrow> state" where
  "new_document fixedPage rf =
     \<lparr>page_size = (jmul (parseFloat_opt (attr fixedPage ''Width'')) XPS_TO_PDF,
                   jmul (parseFloat_opt (attr fixedPage ''Height'')) XPS_TO_PDF),
      ops = [], registeredFonts = rf\<rparr>"

text \<open>A \<open>Glyphs\<close> element without a font, and a package whose only document part is missing.\<close>

definition sample_glyphs :: node where
  "sample_glyphs = Node ''Glyphs'' [(''UnicodeString'', ''Hi''), (''OriginY'', ''100'')] []"

definition sample_zip_no_document :: zip where
  "sample_zip_no_document = [''FixedDocumentSequence.fdseq'' \<mapsto> Buffer_from ''<seq>'']"

text \<open>
  A page with a scaled canvas around a path whose data is malformed (the second operand
  of \<open>M\<close> is missing, so that the letter \<open>L\<close> is read for it), in the package above.
\<close>

definition drawing_page :: node where
  "drawing_page =
     Node ''FixedPage'' [(''Width'', ''960''), (''Height'', ''720'')]
       [Node ''Canvas'' [(''RenderTransform'', ''2,0,0,2,0,0'')]
          [Node ''Path'' [(''Data'', ''M 0 L 5,5''), (''Fill'', ''#FF0000'')] []]]"

definition drawing_parser :: parser where
  "drawing_parser xml = (if xml = ''<page>'' then Some drawing_page else sample_parser xml)"

text \<open>
  A \<open>Glyphs\<close> element whose \<open>FontUri\<close> names no part of the package, but a property that
  every object inherits; and a page with that element.
\<close>

definition inherited_glyphs :: node where
  "inherited_glyphs =
     Node ''Glyphs'' [(''UnicodeString'', ''Hi''), (''FontUri'', ''constructor'')] []"

definition inherited_page :: node where
  "inherited_page =
     Node ''FixedPage'' [(''Width'', ''960''), (''Height'', ''720'')] [inherited_glyphs]"

definition inherited_parser :: parser where
  "inherited_parser xml = (if xml = ''<page>'' then Some inherited_page else sample_parser xml)"

text \<open>The same element with a \<open>FontUri\<close> that names nothing at all.\<close>

definition missing_glyphs :: node where
  "missing_glyphs =
     Node ''Glyphs'' [(''UnicodeString'', ''Hi''), (''FontUri'', ''missing.odttf'')] []"

section \<open>Properties of the font deobfuscation\<close>

lemma xor_loop_length: "length (xor_loop i key out) = length out"
  by (induction i key out rule: xor_loop.induct) (subst xor_loop.simps, simp)

lemma xor_loop_nth:
  "j < length out \<Longrightarrow>
   xor_loop i key out ! j =
     (if i \<le> j \<and> j < 32 then (out ! j) XOR (key ! (j mod 16)) else out ! j)"
proof (induction i key out rule: xor_loop.induct)
  case (1 i key out)
  show ?case
  proof (cases "i < 32 \<and> i < length out")
    case True
    then show ?thesis
      using 1 by (subst xor_loop.simps) (auto simp: nth_list_update)
  next
    case False
    then show ?thesis using 1(2) by (subst xor_loop.simps) auto
  qed
qed

lemma hex_group_drop:
  "hex_group n (drop k s) =
     (if n \<le> length s - k \<and> list_all is_hex (take n (drop k s))
      then Some (take n (drop k s), drop (n + k) s) else None)"
  by (auto simp: hex_group_def add.commute)

lemma dash_drop:
  "dash (drop n s) =
     (if n < length s \<and> s ! n = CHR ''-'' then Some (drop (Suc n) s) else None)"
  by (cases "n < length s") (auto simp: dash_def Cons_nth_drop_Suc[symmetric])

lemma uuid_at_shape:
  "uuid_at s = (if uuid_shape (take 36 s) then Some (uuid_groups (take 36 s)) else None)"
proof -
  have "uuid_at (drop 0 s) =
      (if uuid_shape (take 36 (drop 0 s)) then Some (uuid_groups (take 36 (drop 0 s))) else None)"
    unfolding uuid_at_def hex_group_drop
    by (auto simp: dash_drop uuid_shape_def uuid_groups_def hex_group_drop take_drop min_def
        split: if_splits)
  then show ?thesis by simp
qed

lemma find_map_option: "find P (map f xs) = map_option f (find (P \<circ> f) xs)"
  by (induction xs) auto

lemma find_upt_Suc:
  "find P [0..<Suc (Suc n)] =
     (if P 0 then Some 0 else map_option Suc (find (P \<circ> Suc) [0..<Suc n]))"
proof -
  have "[0..<Suc (Suc n)] = 0 # map Suc [0..<Suc n]"
    by (simp only: map_Suc_upt upt_rec[of 0 "Suc (Suc n)"]) simp
  then have "find P [0..<Suc (Suc n)] = find P (0 # map Suc [0..<Suc n])"
    by (rule arg_cong)
  then show ?thesis by (simp only: find.simps find_map_option)
qed

lemma match_uuid_first: "match_uuid s = first_uuid s"
proof (induction s)
  case Nil
  show ?case by (simp add: first_uuid_def uuid_at_shape uuid_shape_def)
next
  case (Cons c s)
  show ?case
  proof (cases "uuid_shape (take 36 (c # s))")
    case True
    then show ?thesis
      by (simp add: first_uuid_def uuid_at_shape find_upt_Suc del: upt_Suc)
  next
    case False
    have "first_uuid (c # s) = first_uuid s"
      using False unfolding first_uuid_def length_Cons find_upt_Suc
      by (simp add: comp_def del: upt_Suc split: option.splits)
    with False Cons show ?thesis by (simp add: uuid_at_shape)
  qed
qed

lemma h_hex_pair:
  assumes "list_all is_hex g" "off + 2 \<le> length g"
  shows "h g off = hex_pair g off"
proof -
  have t: "take 2 (drop off g) = [g ! off, g ! (off + 1)]"
    using assms(2) by (simp add: take_Suc_conv_app_nth numeral_2_eq_2 add.commute)
  have "is_hex (g ! off)" "is_hex (g ! (off + 1))"
    using assms by (simp_all add: list_all_length)
  then show ?thesis by (simp add: h_def parseInt16_def t hex_pair_def)
qed

lemma xor_loop_spec: "xor_loop 0 key buffer = spec_deobfuscate key buffer"
  by (rule nth_equalityI) (simp_all add: xor_loop_length xor_loop_nth spec_deobfuscate_def)

lemma odttf_key_spec:
  assumes "uuid_shape t"
  shows "odttf_key (uuid_groups t) = spec_key (uuid_groups t)"
proof -
  obtain m1 m2 m3 m4 m5 where u: "uuid_groups t = (m1, m2, m3, m4, m5)"
    by (metis prod_cases5)
  then have m: "m1 = take 8 t" "m2 = take 4 (drop 9 t)" "m3 = take 4 (drop 14 t)"
    "m4 = take 4 (drop 19 t)" "m5 = take 12 (drop 24 t)"
    by (simp_all add: uuid_groups_def)
  have x: "list_all is_hex m1" "list_all is_hex m2" "list_all is_hex m3"
    "list_all is_hex m4" "list_all is_hex m5"
    using assms unfolding m uuid_shape_def by blast+
  have l: "length m1 = 8" "length m2 = 4" "length m3 = 4" "length m4 = 4" "length m5 = 12"
    using assms unfolding m uuid_shape_def by simp_all
  show ?thesis
    unfolding u by (simp add: odttf_key_def spec_key_def key_table_def h_hex_pair x l)
qed

lemma first_uuid_shape:
  "first_uuid s = Some u \<Longrightarrow> \<exists>t. uuid_shape t \<and> u = uuid_groups t"
  by (auto simp: first_uuid_def split: option.splits simp: find_Some_iff)

text \<open>
  Claim C3. If the file name contains a UUID of the shape
  \<open>xxxxxxxx-xxxx-xxxx-xxxx-xxxxxxxxxxxx\<close> (the first one, \<open>first_uuid\<close>), the result is the
  buffer with byte \<open>i\<close> of its first 32 bytes (or of the whole buffer if it is shorter)
  XORed with \<open>key[i mod 16]\<close>, the key being read from the UUID by the table of the
  specification (\<open>spec_key\<close>); every byte from index 32 on is unchanged and the length is
  kept. Without a UUID the buffer is returned as it is.
\<close>

theorem deobfuscateOdttf_spec:
  "deobfuscateOdttf buffer fileName =
     (case first_uuid fileName of
        None \<Rightarrow> buffer
      | Some u \<Rightarrow> spec_deobfuscate (spec_key u) buffer)
   \<and> length (deobfuscateOdttf buffer fileName) = length buffer
   \<and> (\<forall>i. 32 \<le> i \<and> i < length buffer \<longrightarrow>
          deobfuscateOdttf buffer fileName ! i = buffer ! i)"
proof (cases "first_uuid fileName")
  case None
  then show ?thesis by (simp add: deobfuscateOdttf_def match_uuid_first)
next
  case (Some u)
  then obtain t where "uuid_shape t" "u = uuid_groups t"
    using first_uuid_shape by blast
  then have "odttf_key u = spec_key u" by (simp add: odttf_key_spec)
  then have "deobfuscateOdttf buffer fileName = spec_deobfuscate (spec_key u) buffer"
    using Some by (simp add: deobfuscateOdttf_def match_uuid_first xor_loop_spec)
  then show ?thesis using Some by (simp add: spec_deobfuscate_def)
qed

theorem deobfuscateOdttf_spec_witness:
  "deobfuscateOdttf [0x10, 0x20, 0x30] ''abcdef01-2345-6789-abcd-EF0123456789'' =
     [0x11, 0xCF, 0xFD]
   \<and> deobfuscateOdttf [0x10, 0x20, 0x30] ''font.ttf'' = [0x10, 0x20, 0x30]"
  using deobfuscateOdttf_spec [of "[0x10, 0x20, 0x30]" "''abcdef01-2345-6789-abcd-EF0123456789''"]
    deobfuscateOdttf_spec [of "[0x10, 0x20, 0x30]" "''font.ttf''"]
  by (simp add: first_uuid_def uuid_shape_def uuid_groups_def spec_key_def key_table_def
      spec_deobfuscate_def hex_pair_def hex_val_def is_hex_def)

text \<open>
  Claim C7. Deobfuscating twice with the same file name gives the original buffer back,
  for every buffer and every file name.
\<close>

theorem deobfuscateOdttf_involution:
  "deobfuscateOdttf (deobfuscateOdttf buffer fileName) fileName = buffer"
proof (cases "match_uuid fileName")
  case None
  then show ?thesis by (simp add: deobfuscateOdttf_def)
next
  case (Some m)
  have "xor_loop 0 (odttf_key m) (xor_loop 0 (odttf_key m) buffer) = buffer"
    by (rule nth_equalityI) (simp_all add: xor_loop_length xor_loop_nth xor.assoc)
  then show ?thesis using Some by (simp add: deobfuscateOdttf_def)
qed

theorem deobfuscateOdttf_involution_witness:
  "deobfuscateOdttf
     (deobfuscateOdttf [0x10, 0x20, 0x30] ''abcdef01-2345-6789-abcd-EF0123456789'')
     ''abcdef01-2345-6789-abcd-EF0123456789'' = [0x10, 0x20, 0x30]"
  by (rule deobfuscateOdttf_involution)

section \<open>Properties of the vector angle\<close>

lemma clamp_acos:
  "Math_acos (Math_max (Num (- 1)) (Math_min (Num 1) (Num x))) =
     Num (arccos (max (- 1) (min 1 x)))"
proof -
  have "- 1 \<le> max (- 1) (min 1 x)" "max (- 1) (min 1 x) \<le> 1" by auto
  then show ?thesis
    by (simp add: Math_acos_def Math_max_def Math_min_def lift2_def not_less del: max_less_iff_conj)
qed

lemma vecAngle_unfold:
  assumes "0 \<le> P"
  shows "jmul (if jlt (Num C) (Num 0) then Num (- 1) else Num 1)
           (Math_acos (Math_max (Num (- 1)) (Math_min (Num 1)
              (jdiv (Num D) (or_else (Math_sqrt (Num P)) (Num 1)))))) =
         Num ((if C < 0 then - 1 else 1) *
              arccos (max (- 1) (min 1 (D / (if sqrt P = 0 then 1 else sqrt P)))))"
proof -
  have s: "Math_sqrt (Num P) = Num (sqrt P)"
    using assms by (simp add: Math_sqrt_def)
  have d: "jdiv (Num D) (or_else (Num (sqrt P)) (Num 1)) =
           Num (D / (if sqrt P = 0 then 1 else sqrt P))"
    by (simp add: jdiv_def or_else_def)
  show ?thesis
    unfolding s d clamp_acos by (simp add: jmul_def lift2_def jlt_def)
qed

text \<open>
  Claim C5, as stated: \<open>vecAngle(u, v)\<close> returns 0 when \<open>|u| * |v| = 0\<close>. It does not:
  the guard replaces the zero divisor by 1, the quotient is 0 and the result is
  \<open>acos(0) = pi / 2\<close>.
\<close>

theorem vecAngle_zero_vector_counterexample:
  "vecAngle (Num 0) (Num 0) (Num 1) (Num 0) = Num (pi / 2) \<and>
   vecAngle (Num 0) (Num 0) (Num 1) (Num 0) \<noteq> Num 0"
  by (simp add: vecAngle_def jadd_def jsub_def jmul_def jdiv_def jlt_def lift2_def
      Math_sqrt_def Math_acos_def Math_max_def Math_min_def or_else_def)

text \<open>
  Claim C5, amended. On numbers, \<open>vecAngle(u, v)\<close> is
  \<open>s * acos(clamp(u.v / (|u| * |v|), -1, 1))\<close> where \<open>s\<close> is \<open>-1\<close> when
  \<open>ux * vy - uy * vx < 0\<close> and \<open>+1\<close> otherwise (also when that cross product is 0);
  when \<open>|u| * |v| = 0\<close> the result is \<open>pi / 2\<close>.
\<close>

theorem vecAngle_formula:
  "vecAngle (Num ux) (Num uy) (Num vx) (Num vy) =
     (if sqrt (ux * ux + uy * uy) * sqrt (vx * vx + vy * vy) = 0 then Num (pi / 2)
      else Num ((if ux * vy - uy * vx < 0 then - 1 else 1) *
                arccos (max (- 1) (min 1
                  ((ux * vx + uy * vy) / (sqrt (ux * ux + uy * uy) * sqrt (vx * vx + vy * vy)))))))"
proof -
  let ?P = "(ux * ux + uy * uy) * (vx * vx + vy * vy)"
  let ?D = "ux * vx + uy * vy"
  let ?C = "ux * vy - uy * vx"
  have nn: "0 \<le> ?P" by simp
  have len: "sqrt ?P = sqrt (ux * ux + uy * uy) * sqrt (vx * vx + vy * vy)"
    by (rule real_sqrt_mult)
  have args: "jsub (jmul (Num ux) (Num vy)) (jmul (Num uy) (Num vx)) = Num ?C"
    "jadd (jmul (Num ux) (Num vx)) (jmul (Num uy) (Num vy)) = Num ?D"
    "jmul (jadd (jmul (Num ux) (Num ux)) (jmul (Num uy) (Num uy)))
          (jadd (jmul (Num vx) (Num vx)) (jmul (Num vy) (Num vy))) = Num ?P"
    by (simp_all add: jadd_def jsub_def jmul_def lift2_def)
  have v: "vecAngle (Num ux) (Num uy) (Num vx) (Num vy) =
      Num ((if ?C < 0 then - 1 else 1) *
           arccos (max (- 1) (min 1 (?D / (if sqrt ?P = 0 then 1 else sqrt ?P)))))"
    unfolding vecAngle_def Let_def args by (rule vecAngle_unfold [OF nn])
  show ?thesis
  proof (cases "sqrt ?P = 0")
    case True
    then have "?P = 0" by simp
    then have "(ux = 0 \<and> uy = 0) \<or> (vx = 0 \<and> vy = 0)"
      by (auto simp: sum_squares_eq_zero_iff)
    then have "?D = 0" "?C = 0" by auto
    with True show ?thesis unfolding v len[symmetric] by simp
  next
    case False
    then show ?thesis unfolding v len[symmetric] by simp
  qed
qed

theorem vecAngle_formula_witness:
  "vecAngle (Num 1) (Num 0) (Num 0) (Num 1) = Num (pi / 2) \<and>
   vecAngle (Num 0) (Num 1) (Num 1) (Num 0) = Num (- (pi / 2)) \<and>
   vecAngle (Num 1) (Num 0) (Num (- 1)) (Num 0) = Num pi \<and>
   vecAngle (Num 0) (Num 0) (Num 0) (Num 0) = Num (pi / 2)"
  using vecAngle_formula [of 1 0 0 1] vecAngle_formula [of 0 1 1 0]
    vecAngle_formula [of 1 0 "- 1" 0] vecAngle_formula [of 0 0 0 0]
  by simp

section \<open>Evaluating the interpreter\<close>

lemmas scan_defs = is_command_def scan_number_def scan_sign_def scan_mantissa_def
  scan_exponent_def is_digit_def digits_val_def Let_def

lemma repeat_no_number: "\<not> isNum ts \<Longrightarrow> repeat lib g (p, ts, st) = Inr (p, ts, st)"
  by (simp add: repeat.simps)

lemma repeat_number:
  "isNum ts \<Longrightarrow> repeat lib g (p, ts, st) = andThen (step lib g (p, ts, st)) (repeat lib g)"
  by (simp add: repeat.simps)

lemma parseFloat_samples:
  "parseFloat ''960'' = Num 960" "parseFloat ''720'' = Num 720"
  "parseFloat ''12'' = Num 12" "parseFloat ''0'' = Num 0" "parseFloat ''100'' = Num 100"
  by (simp_all add: parseFloat_def scan_defs is_space_def)

text \<open>Binary64 rounding, once the power of two below the number is known.\<close>

lemma floor_log2:
  assumes "0 < x" "2 powi k \<le> x" "x < 2 powi (k + 1)"
  shows "\<lfloor>log 2 x\<rfloor> = k"
proof -
  have "(2::real) powr real_of_int k = 2 powi k"
    by (simp add: powr_real_of_int')
  moreover have "(2::real) powr (real_of_int k + 1) = 2 powi (k + 1)"
    using powr_real_of_int' [of "2::real" "k + 1"] by simp
  ultimately show ?thesis
    using assms by (subst floor_log_eq_powr_iff) auto
qed

lemma binary64_between:
  assumes "2 powi k \<le> \<bar>x\<bar>" "\<bar>x\<bar> < 2 powi (k + 1)"
  shows "binary64 x =
    of_int (rne (x / 2 powi (max (k - 52) (- 1074)))) * 2 powi (max (k - 52) (- 1074))"
proof -
  have "(0::real) < 2 powi k" by simp
  with assms(1) have p: "0 < \<bar>x\<bar>" by linarith
  then have "x \<noteq> 0" by auto
  moreover have "\<lfloor>log 2 \<bar>x\<bar>\<rfloor> = k" using p assms by (rule floor_log2)
  ultimately show ?thesis by (simp add: binary64_def Let_def)
qed

lemma binary64_0: "binary64 0 = 0"
  by (simp add: binary64_def)

lemma binary64_tenth: "binary64 (1 / 10) = 7205759403792794 / 2 ^ 56"
  by (subst binary64_between [where k = "- 4"])
     (simp_all add: rne_def power_int_minus field_simps)

lemma binary64_fifth: "binary64 (1 / 5) = 7205759403792794 / 2 ^ 55"
  by (subst binary64_between [where k = "- 3"])
     (simp_all add: rne_def power_int_minus field_simps)

lemma binary64_three_tenths: "binary64 (3 / 10) = 5404319552844595 / 2 ^ 54"
  by (subst binary64_between [where k = "- 2"])
     (simp_all add: rne_def power_int_minus field_simps)

lemma binary64_half: "binary64 (1 / 2) = 1 / 2"
  by (subst binary64_between [where k = "- 1"])
     (simp_all add: rne_def power_int_minus field_simps)

lemma binary64_seven_tenths: "binary64 (7 / 10) = 6305039478318694 / 2 ^ 53"
  by (subst binary64_between [where k = "- 1"])
     (simp_all add: rne_def power_int_minus field_simps)

lemma binary64_tenth_plus_fifth:
  "binary64 (7205759403792794 / 2 ^ 56 + 7205759403792794 / 2 ^ 55) =
   5404319552844596 / 2 ^ 54"
  by (subst binary64_between [where k = "- 2"])
     (simp_all add: rne_def power_int_minus field_simps)

lemma binary64_fifth_plus_half:
  "binary64 (7205759403792794 / 2 ^ 55 + 1 / 2) = 6305039478318694 / 2 ^ 53"
  by (subst binary64_between [where k = "- 1"])
     (simp_all add: rne_def power_int_minus field_simps)

lemma binary64_small:
  "binary64 1 = 1" "binary64 (3 / 2) = 3 / 2" "binary64 2 = 2" "binary64 (5 / 2) = 5 / 2"
  "binary64 4 = 4" "binary64 5 = 5" "binary64 6 = 6" "binary64 10 = 10"
proof -
  show "binary64 1 = 1"
    by (subst binary64_between [where k = 0]) (simp_all add: rne_def power_int_minus field_simps)
  show "binary64 (3 / 2) = 3 / 2"
    by (subst binary64_between [where k = 0]) (simp_all add: rne_def power_int_minus field_simps)
  show "binary64 2 = 2"
    by (subst binary64_between [where k = 1]) (simp_all add: rne_def power_int_minus field_simps)
  show "binary64 (5 / 2) = 5 / 2"
    by (subst binary64_between [where k = 1]) (simp_all add: rne_def power_int_minus field_simps)
  show "binary64 4 = 4"
    by (subst binary64_between [where k = 2]) (simp_all add: rne_def power_int_minus field_simps)
  show "binary64 5 = 5"
    by (subst binary64_between [where k = 2]) (simp_all add: rne_def power_int_minus field_simps)
  show "binary64 6 = 6"
    by (subst binary64_between [where k = 2]) (simp_all add: rne_def power_int_minus field_simps)
  show "binary64 10 = 10"
    by (subst binary64_between [where k = 3]) (simp_all add: rne_def power_int_minus field_simps)
qed

lemma padd_numbers: "padd (Num a) (Num b) = Num (binary64 (a + b))"
  by (simp add: padd_def plus_js_def jadd_def lift2_def)

text \<open>A command letter alone is no number.\<close>

lemma letter_L_not_a_number: "string_to_number (Letter CHR ''L'') = None"
  by (simp add: string_to_number_def Number_of_def trim_def is_space_def scan_defs)

section \<open>Relative and absolute line commands\<close>

lemma tokens_absolute:
  "tokenizePath ''M 0.1 0.2 L 0.3 0.7'' =
     [Cmd CHR ''M'', Val (7205759403792794 / 2 ^ 56), Val (7205759403792794 / 2 ^ 55),
      Cmd CHR ''L'', Val (5404319552844595 / 2 ^ 54), Val (6305039478318694 / 2 ^ 53)]"
proof -
  have "tokenizePath ''M 0.1 0.2 L 0.3 0.7'' =
     [Cmd CHR ''M'', Val (binary64 (1 / 10)), Val (binary64 (1 / 5)),
      Cmd CHR ''L'', Val (binary64 (3 / 10)), Val (binary64 (7 / 10))]"
    by (simp add: scan_defs)
  then show ?thesis
    by (simp only: binary64_tenth binary64_fifth binary64_three_tenths binary64_seven_tenths)
qed

lemma tokens_relative:
  "tokenizePath ''M 0.1 0.2 l 0.2 0.5'' =
     [Cmd CHR ''M'', Val (7205759403792794 / 2 ^ 56), Val (7205759403792794 / 2 ^ 55),
      Cmd CHR ''l'', Val (7205759403792794 / 2 ^ 55), Val (1 / 2)]"
proof -
  have "tokenizePath ''M 0.1 0.2 l 0.2 0.5'' =
     [Cmd CHR ''M'', Val (binary64 (1 / 10)), Val (binary64 (1 / 5)),
      Cmd CHR ''l'', Val (binary64 (1 / 5)), Val (binary64 (1 / 2))]"
    by (simp add: scan_defs)
  then show ?thesis
    by (simp only: binary64_tenth binary64_fifth binary64_half)
qed

lemma run_absolute_line:
  "run accept_all (p, [Cmd CHR ''M'', Val a, Val b, Cmd CHR ''L'', Val c, Val d], st) =
     Inr (p\<lparr>cx := Num c, cy := Num d, sx := Num a, sy := Num b\<rparr>, [],
          st\<lparr>ops := ops st @ [MoveTo (Num a) (Num b), LineTo (Num c) (Num d)]\<rparr>)"
  by (simp add: command_def num2_def andThen_def call_def repeat_no_number repeat_number
      accept_all_def)

lemma run_relative_line:
  "run accept_all (p, [Cmd CHR ''M'', Val a, Val b, Cmd CHR ''l'', Val e, Val f], st) =
     Inr (p\<lparr>cx := Num (binary64 (a + e)), cy := Num (binary64 (b + f)), sx := Num a, sy := Num b\<rparr>,
          [],
          st\<lparr>ops := ops st @ [MoveTo (Num a) (Num b),
                               LineTo (Num (binary64 (a + e))) (Num (binary64 (b + f)))]\<rparr>)"
  by (simp add: command_def num2_def andThen_def call_def repeat_no_number repeat_number
      accept_all_def padd_numbers Let_def)

text \<open>
  Claim C8, as stated, fails on the code. For \<open>a = 0.1\<close>, \<open>b = 0.2\<close>, \<open>c = 0.3\<close>, \<open>d = 0.7\<close>
  the relative path is \<open>M 0.1 0.2 l 0.2 0.5\<close>. The absolute path draws its line to the
  binary64 number nearest to 0.3; the relative path draws it to the binary64 sum of the
  numbers nearest to 0.1 and 0.2, the next binary64 number above (0.30000000000000004).
\<close>

theorem absolute_relative_line_counterexample:
  "drawPathData accept_all ''M 0.1 0.2 L 0.3 0.7'' blank =
     Inr (blank\<lparr>ops :=
            [MoveTo (Num (7205759403792794 / 2 ^ 56)) (Num (7205759403792794 / 2 ^ 55)),
             LineTo (Num (5404319552844595 / 2 ^ 54)) (Num (6305039478318694 / 2 ^ 53))]\<rparr>)
   \<and> drawPathData accept_all ''M 0.1 0.2 l 0.2 0.5'' blank =
     Inr (blank\<lparr>ops :=
            [MoveTo (Num (7205759403792794 / 2 ^ 56)) (Num (7205759403792794 / 2 ^ 55)),
             LineTo (Num (5404319552844596 / 2 ^ 54)) (Num (6305039478318694 / 2 ^ 53))]\<rparr>)
   \<and> drawPathData accept_all ''M 0.1 0.2 L 0.3 0.7'' blank \<noteq>
     drawPathData accept_all ''M 0.1 0.2 l 0.2 0.5'' blank"
proof -
  have a: "drawPathData accept_all ''M 0.1 0.2 L 0.3 0.7'' blank =
     Inr (blank\<lparr>ops :=
            [MoveTo (Num (7205759403792794 / 2 ^ 56)) (Num (7205759403792794 / 2 ^ 55)),
             LineTo (Num (5404319552844595 / 2 ^ 54)) (Num (6305039478318694 / 2 ^ 53))]\<rparr>)"
    unfolding drawPathData_def tokens_absolute run_absolute_line by (simp add: blank_def)
  have r: "drawPathData accept_all ''M 0.1 0.2 l 0.2 0.5'' blank =
     Inr (blank\<lparr>ops :=
            [MoveTo (Num (7205759403792794 / 2 ^ 56)) (Num (7205759403792794 / 2 ^ 55)),
             LineTo (Num (5404319552844596 / 2 ^ 54)) (Num (6305039478318694 / 2 ^ 53))]\<rparr>)"
    unfolding drawPathData_def tokens_relative run_relative_line
      binary64_tenth_plus_fifth binary64_fifth_plus_half
    by (simp add: blank_def)
  have "blank\<lparr>ops :=
            [MoveTo (Num (7205759403792794 / 2 ^ 56)) (Num (7205759403792794 / 2 ^ 55)),
             LineTo (Num (5404319552844595 / 2 ^ 54)) (Num (6305039478318694 / 2 ^ 53))]\<rparr> \<noteq>
        blank\<lparr>ops :=
            [MoveTo (Num (7205759403792794 / 2 ^ 56)) (Num (7205759403792794 / 2 ^ 55)),
             LineTo (Num (5404319552844596 / 2 ^ 54)) (Num (6305039478318694 / 2 ^ 53))]\<rparr>"
  proof
    assume "blank\<lparr>ops :=
            [MoveTo (Num (7205759403792794 / 2 ^ 56)) (Num (7205759403792794 / 2 ^ 55)),
             LineTo (Num (5404319552844595 / 2 ^ 54)) (Num (6305039478318694 / 2 ^ 53))]\<rparr> =
        blank\<lparr>ops :=
            [MoveTo (Num (7205759403792794 / 2 ^ 56)) (Num (7205759403792794 / 2 ^ 55)),
             LineTo (Num (5404319552844596 / 2 ^ 54)) (Num (6305039478318694 / 2 ^ 53))]\<rparr>"
    then have "ops (blank\<lparr>ops :=
            [MoveTo (Num (7205759403792794 / 2 ^ 56)) (Num (7205759403792794 / 2 ^ 55)),
             LineTo (Num (5404319552844595 / 2 ^ 54)) (Num (6305039478318694 / 2 ^ 53))]\<rparr>) =
        ops (blank\<lparr>ops :=
            [MoveTo (Num (7205759403792794 / 2 ^ 56)) (Num (7205759403792794 / 2 ^ 55)),
             LineTo (Num (5404319552844596 / 2 ^ 54)) (Num (6305039478318694 / 2 ^ 53))]\<rparr>)"
      by (rule arg_cong)
    then show False by simp
  qed
  with a r show ?thesis by simp
qed

text \<open>
  Claim C8, amended. Let \<open>a\<close>, \<open>b\<close>, \<open>c\<close>, \<open>d\<close>, \<open>e\<close>, \<open>f\<close> be finite binary64 numbers such
  that the binary64 sums \<open>a + e\<close> and \<open>b + f\<close> are \<open>c\<close> and \<open>d\<close>. Then, from the same current
  point (and the same document), the token sequences of \<open>M a b L c d\<close> and of
  \<open>M a b l e f\<close> give the same result: the same calls on the canvas, the same exception if
  the library raises one, and the same final current point and subpath start. So do two
  path strings with these tokens under \<open>drawPathData\<close>.
\<close>

theorem absolute_relative_line:
  assumes "is_binary64 a" "is_binary64 b" "is_binary64 c" "is_binary64 d"
    and "is_binary64 e" "is_binary64 f"
    and "binary64 (a + e) = c" "binary64 (b + f) = d"
  shows
  "run lib (p, [Cmd CHR ''M'', Val a, Val b, Cmd CHR ''L'', Val c, Val d], st) =
   run lib (p, [Cmd CHR ''M'', Val a, Val b, Cmd CHR ''l'', Val e, Val f], st)
   \<and> (tokenizePath s1 = [Cmd CHR ''M'', Val a, Val b, Cmd CHR ''L'', Val c, Val d] \<and>
      tokenizePath s2 = [Cmd CHR ''M'', Val a, Val b, Cmd CHR ''l'', Val e, Val f]
      \<longrightarrow> drawPathData lib s1 st = drawPathData lib s2 st)"
proof -
  have r: "run lib (p, [Cmd CHR ''M'', Val a, Val b, Cmd CHR ''L'', Val c, Val d], st) =
   run lib (p, [Cmd CHR ''M'', Val a, Val b, Cmd CHR ''l'', Val e, Val f], st)"
    for p
    using assms(7,8)
    by (simp add: command_def num2_def andThen_def call_def repeat_no_number repeat_number
        padd_numbers Let_def)
  show ?thesis
  proof (intro conjI impI)
    show "run lib (p, [Cmd CHR ''M'', Val a, Val b, Cmd CHR ''L'', Val c, Val d], st) =
      run lib (p, [Cmd CHR ''M'', Val a, Val b, Cmd CHR ''l'', Val e, Val f], st)"
      by (rule r)
  next
    assume "tokenizePath s1 = [Cmd CHR ''M'', Val a, Val b, Cmd CHR ''L'', Val c, Val d] \<and>
      tokenizePath s2 = [Cmd CHR ''M'', Val a, Val b, Cmd CHR ''l'', Val e, Val f]"
    then show "drawPathData lib s1 st = drawPathData lib s2 st"
      unfolding drawPathData_def by (simp only: r)
  qed
qed

theorem absolute_relative_line_witness:
  "is_binary64 (3 / 2) \<and> is_binary64 2 \<and> is_binary64 4 \<and> is_binary64 6 \<and>
   is_binary64 (5 / 2) \<and> binary64 (3 / 2 + 5 / 2) = 4 \<and> binary64 (2 + 4) = 6
   \<and> drawPathData accept_all ''M 1.5 2 L 4 6'' blank =
     drawPathData accept_all ''M 1.5 2 l 2.5 4'' blank
   \<and> drawPathData accept_all ''M 1.5 2 l 2.5 4'' blank =
     Inr (blank\<lparr>ops := [MoveTo (Num (3 / 2)) (Num 2), LineTo (Num 4) (Num 6)]\<rparr>)"
proof -
  have b: "is_binary64 (3 / 2)" "is_binary64 2" "is_binary64 4" "is_binary64 6"
    "is_binary64 (5 / 2)"
    by (simp_all add: is_binary64_def binary64_small)
  have s: "binary64 (3 / 2 + 5 / 2) = 4" "binary64 (2 + 4) = 6"
    by (simp_all add: binary64_small)
  have t1: "tokenizePath ''M 1.5 2 L 4 6'' =
      [Cmd CHR ''M'', Val (3 / 2), Val 2, Cmd CHR ''L'', Val 4, Val 6]"
    by (simp add: scan_defs binary64_small)
  have t2: "tokenizePath ''M 1.5 2 l 2.5 4'' =
      [Cmd CHR ''M'', Val (3 / 2), Val 2, Cmd CHR ''l'', Val (5 / 2), Val 4]"
    by (simp add: scan_defs binary64_small)
  have e: "drawPathData accept_all ''M 1.5 2 L 4 6'' blank =
     Inr (blank\<lparr>ops := [MoveTo (Num (3 / 2)) (Num 2), LineTo (Num 4) (Num 6)]\<rparr>)"
    unfolding drawPathData_def t1 run_absolute_line by (simp add: blank_def)
  have "drawPathData accept_all ''M 1.5 2 L 4 6'' blank =
        drawPathData accept_all ''M 1.5 2 l 2.5 4'' blank"
    using absolute_relative_line [OF b(1) b(2) b(3) b(4) b(5) b(3) s,
        where lib = accept_all and ?s1.0 = "''M 1.5 2 L 4 6''"
        and ?s2.0 = "''M 1.5 2 l 2.5 4''" and st = blank] t1 t2
    by blast
  with e b s show ?thesis by metis
qed

section \<open>Paths without data\<close>




section \<open>Glyphs\<close>

lemma or_default_text: "or_default (attr n k) d = attr_text n k d"
  by (simp add: or_default_def attr_text_def)

lemma attr_number_12: "parseFloat (attr_text n k ''12'') = attr_number n k 12"
  by (simp add: attr_text_def attr_number_def parseFloat_samples split: option.splits)

lemma attr_number_0: "parseFloat (attr_text n k ''0'') = attr_number n k 0"
  by (simp add: attr_text_def attr_number_def parseFloat_samples split: option.splits)

lemma loaded_font_eq:
  "(if present (attr n ''FontUri'') then font_at fnt (attr_text n ''FontUri'' []) else None) =
   loaded_font fnt n"
  by (simp add: loaded_font_def present_def attr_text_def split: option.splits)

lemma accepts_run:
  "accepts lib (ops st) [c1, c2, c3, c4] \<Longrightarrow>
   andThen (call lib c1 st) (\<lambda>st. andThen (call lib c2 st) (\<lambda>st.
     andThen (call lib c3 st) (\<lambda>st. call lib c4 st))) =
   Inr (st\<lparr>ops := ops st @ [c1, c2, c3, c4]\<rparr>)"
  by (simp add: andThen_def call_def)

lemma renderGlyphs_unfold:
  "has_attributes node \<Longrightarrow> present (attr node ''UnicodeString'') \<Longrightarrow>
   renderGlyphs lib fnt node st =
     (case (case loaded_font fnt node of
              None \<Rightarrow> (''Helvetica'', save st)
            | Some entry \<Rightarrow>
                if font_id node \<notin> registeredFonts (save st) then
                  (case call lib (register_call node (font_id node) entry) (save st) of
                     Inr st2 \<Rightarrow>
                       (font_id node,
                        st2\<lparr>registeredFonts := insert (font_id node) (registeredFonts st2)\<rparr>)
                   | Inl (e, st2) \<Rightarrow> (''Helvetica'', st2))
                else (font_id node, save st)) of
        (fontName, st3) \<Rightarrow>
          andThen
            (swallow
               (andThen (call lib (Font fontName) st3) (\<lambda>st.
                andThen (call lib (FontSize (attr_number node ''FontRenderingEmSize'' 12)) st) (\<lambda>st.
                andThen (call lib (FillColor (attr_text node ''Fill'' ''#000000'')) st) (\<lambda>st.
                call lib
                  (Text (attr_text node ''UnicodeString'' [])
                     (attr_number node ''OriginX'' 0)
                     (jsub (attr_number node ''OriginY'' 0)
                        (jmul (attr_number node ''FontRenderingEmSize'' 12) (Num 0.8)))
                     False) st)))))
            (\<lambda>st. Inr (restore st)))"
proof -
  assume a: "has_attributes node" "present (attr node ''UnicodeString'')"
  have r: "(case entry of
      Loaded buf \<Rightarrow> RegisterFont fontId buf
    | Inherited \<Rightarrow> RegisterInherited fontId (attr_text node ''FontUri'' [])) =
    register_call node fontId entry" if "loaded_font fnt node = Some entry" for entry fontId
    using that
    by (auto simp: register_call_def loaded_font_def attr_text_def
        split: font_entry.splits option.splits if_splits)
  show ?thesis
    using a unfolding renderGlyphs_def Let_def or_default_text attr_number_12 attr_number_0
      loaded_font_eq font_id_def
    by (auto simp: r split: option.splits)
qed

lemma glyphs_drawn:
  assumes "accepts lib (ops st3) (glyph_run node fontName)"
  shows "andThen
            (swallow
               (andThen (call lib (Font fontName) st3) (\<lambda>st.
                andThen (call lib (FontSize (attr_number node ''FontRenderingEmSize'' 12)) st) (\<lambda>st.
                andThen (call lib (FillColor (attr_text node ''Fill'' ''#000000'')) st) (\<lambda>st.
                call lib
                  (Text (attr_text node ''UnicodeString'' [])
                     (attr_number node ''OriginX'' 0)
                     (jsub (attr_number node ''OriginY'' 0)
                        (jmul (attr_number node ''FontRenderingEmSize'' 12) (Num 0.8)))
                     False) st)))))
            (\<lambda>st. Inr (restore st)) =
         Inr (st3\<lparr>ops := ops st3 @ glyph_run node fontName @ [Restore]\<rparr>)"
  using accepts_run [OF assms [unfolded glyph_run_def]]
  by (simp add: glyph_run_def andThen_def swallow_def restore_def)

text \<open>
  What \<open>renderGlyphs\<close> does for an element with attributes. With an empty (or absent)
  \<open>UnicodeString\<close> it adds no call. Otherwise, when the library accepts the calls, the text
  is drawn between a save and a restore by \<open>glyph_run\<close>: at
  \<open>(OriginX, OriginY - 0.8 * FontRenderingEmSize)\<close>, without line breaking, with the
  defaults \<open>Fill = #000000\<close>, \<open>FontRenderingEmSize = 12\<close>, \<open>OriginX = OriginY = 0\<close>; in the
  face \<open>Helvetica\<close> when \<open>fonts[FontUri]\<close> is falsy, and otherwise in the face registered
  (if it is not yet) from what \<open>fonts[FontUri]\<close> is.
\<close>

lemma renderGlyphs_runs:
  assumes "has_attributes node"
  shows
  "(\<not> present (attr node ''UnicodeString'') \<longrightarrow> renderGlyphs lib fnt node st = Inr st)
   \<and> (present (attr node ''UnicodeString'') \<and> loaded_font fnt node = None \<and>
      accepts lib (ops st @ [Save]) (glyph_run node ''Helvetica'')
      \<longrightarrow> renderGlyphs lib fnt node st =
            Inr (st\<lparr>ops := ops st @ [Save] @ glyph_run node ''Helvetica'' @ [Restore]\<rparr>))
   \<and> (present (attr node ''UnicodeString'') \<and> loaded_font fnt node = Some entry \<and>
      font_id node \<in> registeredFonts st \<and>
      accepts lib (ops st @ [Save]) (glyph_run node (font_id node))
      \<longrightarrow> renderGlyphs lib fnt node st =
            Inr (st\<lparr>ops := ops st @ [Save] @ glyph_run node (font_id node) @ [Restore]\<rparr>))
   \<and> (present (attr node ''UnicodeString'') \<and> loaded_font fnt node = Some entry \<and>
      font_id node \<notin> registeredFonts st \<and>
      accepts lib (ops st @ [Save])
        (register_call node (font_id node) entry # glyph_run node (font_id node))
      \<longrightarrow> renderGlyphs lib fnt node st =
            Inr (st\<lparr>ops := ops st @ [Save, register_call node (font_id node) entry] @
                          glyph_run node (font_id node) @ [Restore],
                     registeredFonts := insert (font_id node) (registeredFonts st)\<rparr>))"
proof (intro conjI impI)
  assume "\<not> present (attr node ''UnicodeString'')"
  with assms show "renderGlyphs lib fnt node st = Inr st" by (simp add: renderGlyphs_def)
next
  assume a: "present (attr node ''UnicodeString'') \<and> loaded_font fnt node = None \<and>
      accepts lib (ops st @ [Save]) (glyph_run node ''Helvetica'')"
  then have "accepts lib (ops (save st)) (glyph_run node ''Helvetica'')"
    by (simp add: save_def)
  from glyphs_drawn [OF this] a assms
  show "renderGlyphs lib fnt node st =
            Inr (st\<lparr>ops := ops st @ [Save] @ glyph_run node ''Helvetica'' @ [Restore]\<rparr>)"
    by (simp add: renderGlyphs_unfold save_def)
next
  assume a: "present (attr node ''UnicodeString'') \<and> loaded_font fnt node = Some entry \<and>
      font_id node \<in> registeredFonts st \<and>
      accepts lib (ops st @ [Save]) (glyph_run node (font_id node))"
  then have "accepts lib (ops (save st)) (glyph_run node (font_id node))"
    by (simp add: save_def)
  from glyphs_drawn [OF this] a assms
  show "renderGlyphs lib fnt node st =
            Inr (st\<lparr>ops := ops st @ [Save] @ glyph_run node (font_id node) @ [Restore]\<rparr>)"
    by (simp add: renderGlyphs_unfold save_def)
next
  assume a: "present (attr node ''UnicodeString'') \<and> loaded_font fnt node = Some entry \<and>
      font_id node \<notin> registeredFonts st \<and>
      accepts lib (ops st @ [Save])
        (register_call node (font_id node) entry # glyph_run node (font_id node))"
  let ?st3 = "st\<lparr>ops := ops st @ [Save, register_call node (font_id node) entry],
                 registeredFonts := insert (font_id node) (registeredFonts st)\<rparr>"
  from a have "accepts lib (ops ?st3) (glyph_run node (font_id node))" by simp
  from glyphs_drawn [OF this] a assms
  show "renderGlyphs lib fnt node st =
            Inr (st\<lparr>ops := ops st @ [Save, register_call node (font_id node) entry] @
                          glyph_run node (font_id node) @ [Restore],
                     registeredFonts := insert (font_id node) (registeredFonts st)\<rparr>)"
    by (simp add: renderGlyphs_unfold save_def call_def)
qed

section \<open>A canvas whose subtree raises\<close>

lemma toString_Buffer_from: "toString (Buffer_from s) = s"
proof -
  have "char_of (unat (of_nat (of_char c) :: byte)) = c" for c :: char
  proof -
    have "(of_char c :: nat) < 256" by (rule nat_of_char_less_256)
    then have "unat (of_nat (of_char c) :: byte) = of_char c"
      by (simp add: unat_of_nat)
    then show ?thesis by simp
  qed
  then show ?thesis by (simp add: Buffer_from_def toString_def comp_def map_idI)
qed

lemma depth_after_append:
  "depth_after d (xs @ ys) = depth_after (depth_after d xs) ys"
  by (induction d xs rule: depth_after.induct) auto

lemma depth_save: "depth (save st) = Suc (depth st)"
  by (simp add: depth_def save_def depth_after_append)

lemma Number_of_samples:
  "map Number_of (split_comma ''1,0,0,1'') = [Num 1, Num 0, Num 0, Num 1]"
  "map Number_of (split_comma ''2,0,0,2,0,0'') = [Num 2, Num 0, Num 0, Num 2, Num 0, Num 0]"
  by (simp_all add: Number_of_def trim_def is_space_def scan_defs)

text \<open>
  Claim C1 fails on the code: \<open>renderCanvas\<close> saves, and when the transform of a
  malformed \<open>RenderTransform\<close> (here four numbers instead of six) or a call of a malformed
  \<open>Clip\<close> path is refused by the library, the exception leaves \<open>renderCanvas\<close> with the
  frame still open: the stack is one deeper than on entry.
\<close>

theorem renderCanvas_exception_leaves_frame:
  "renderCanvas refuses_non_numbers res fnt
     (Node ''Canvas'' [(''RenderTransform'', ''1,0,0,1'')] cs) st =
     Inl (Rejected (Transform (Num 1) (Num 0) (Num 0) (Num 1) Undef Undef), save st)
   \<and> depth (save st) = Suc (depth st)
   \<and> renderCanvas refuses_non_numbers res fnt
       (Node ''Canvas'' [(''Clip'', ''M 0,0 L 10'')] cs) st =
     Inl (Rejected (LineTo (Num 10) Undef), st\<lparr>ops := ops st @ [Save, MoveTo (Num 0) (Num 0)]\<rparr>)
   \<and> depth (st\<lparr>ops := ops st @ [Save, MoveTo (Num 0) (Num 0)]\<rparr>) = Suc (depth st)"
proof (intro conjI)
  show "renderCanvas refuses_non_numbers res fnt
     (Node ''Canvas'' [(''RenderTransform'', ''1,0,0,1'')] cs) st =
     Inl (Rejected (Transform (Num 1) (Num 0) (Num 0) (Num 1) Undef Undef), save st)"
    by (simp add: has_attributes_def attr_def present_def or_default_def Number_of_samples
        transform6_def at_index_def call_def refuses_non_numbers_def andThen_def
        del: split_comma.simps)
next
  show "depth (save st) = Suc (depth st)" by (rule depth_save)
next
  show "renderCanvas refuses_non_numbers res fnt
       (Node ''Canvas'' [(''Clip'', ''M 0,0 L 10'')] cs) st =
     Inl (Rejected (LineTo (Num 10) Undef), st\<lparr>ops := ops st @ [Save, MoveTo (Num 0) (Num 0)]\<rparr>)"
    by (simp add: has_attributes_def attr_def present_def or_default_def drawPathData_def
        scan_defs binary64_0 binary64_small command_def num2_def repeat_no_number repeat_number
        call_def refuses_non_numbers_def andThen_def save_def)
next
  show "depth (st\<lparr>ops := ops st @ [Save, MoveTo (Num 0) (Num 0)]\<rparr>) = Suc (depth st)"
    by (simp add: depth_def depth_after_append)
qed

section \<open>Two conversions in one process\<close>

lemma sample_reads:
  "readEntry sample_zip ''FixedDocumentSequence.fdseq'' = Some ''<seq>''"
  "readEntry sample_zip ''doc'' = Some ''<doc>''"
  "readEntry sample_zip ''page'' = Some ''<page>''"
  "readEntryBuf sample_zip ''f.odttf'' = Some [1, 2, 3]"
  by (simp_all add: readEntry_def readEntryBuf_def sample_zip_def strip_prefix_def
      toString_Buffer_from)

lemma sample_pages:
  "findPages sample_parser sample_zip = Inr [\<lparr>fpagePath = ''page'', basePath = ''.''\<rparr>]"
  by (simp add: findPages_def sample_reads present_def or_default_def sample_parser_def
      getChildren_def attr_def strip_prefix_def dirname_def is_slash_def)

lemma sample_fonts:
  "collectFontRefs sample_zip ''.'' sample_page Map.empty = Inr [''/f.odttf'' \<mapsto> [1, 2, 3]]"
  by (simp add: sample_page_def font_ref_def has_attributes_def font_at_def object_prototype_def
      attr_def present_def or_default_def resolvePath_def
      sample_reads deobfuscateOdttf_def basename_def is_slash_def uuid_at_def hex_group_def)

lemma sample_resources:
  "collectResources sample_parser sample_zip ''.'' sample_page Map.empty = Inr Map.empty"
  by (simp add: sample_page_def)

lemma sample_has_attributes: "has_attributes sample_page"
  by (simp add: sample_page_def has_attributes_def)

lemma sample_font_id: "take 20 (hex_encode ''/f.odttf'') = ''2f662e6f64747466''"
  by (simp add: hex_encode_def hex_digit_def)

lemmas render_defs = sample_page_def has_attributes_def font_at_def attr_def call_def
  andThen_def save_def restore_def end_document_def renderGlyphs_def swallow_def
  XPS_TO_PDF_def jmul_def jsub_def lift2_def parseFloat_samples sample_font_id

lemma first_run:
  "convertDwfxToPdf sample_parser accept_all sample_zip {} =
     Inr \<lparr>page_size = (Num 720, Num 540),
          ops = [Save, Transform (Num (3 / 4)) (Num 0) (Num 0) (Num (3 / 4)) (Num 0) (Num 0),
                 Save, RegisterFont ''f_2f662e6f64747466'' [1, 2, 3],
                 Font ''f_2f662e6f64747466'', FontSize (Num 12), FillColor ''#000000'',
                 Text ''Hi'' (Num 0) (Num (- (48 / 5))) False, Restore, Restore, End],
          registeredFonts = {''f_2f662e6f64747466''}\<rparr>"
  unfolding convertDwfxToPdf_def sample_pages
  by (simp add: sample_reads present_def or_default_def sample_parser_def sample_fonts
      sample_resources Let_def parseFloat_opt_def sample_has_attributes)
     (simp add: render_defs accept_all_def present_def or_default_def Let_def)

lemma second_run:
  "convertDwfxToPdf sample_parser accept_all sample_zip {''f_2f662e6f64747466''} =
     Inr \<lparr>page_size = (Num 720, Num 540),
          ops = [Save, Transform (Num (3 / 4)) (Num 0) (Num 0) (Num (3 / 4)) (Num 0) (Num 0),
                 Save,
                 Font ''f_2f662e6f64747466'', FontSize (Num 12), FillColor ''#000000'',
                 Text ''Hi'' (Num 0) (Num (- (48 / 5))) False, Restore, Restore, End],
          registeredFonts = {''f_2f662e6f64747466''}\<rparr>"
  unfolding convertDwfxToPdf_def sample_pages
  by (simp add: sample_reads present_def or_default_def sample_parser_def sample_fonts
      sample_resources Let_def parseFloat_opt_def sample_has_attributes)
     (simp add: render_defs accept_all_def present_def or_default_def Let_def)

lemma first_run_strict:
  "convertDwfxToPdf sample_parser refuses_unknown_fonts sample_zip {} =
     Inr \<lparr>page_size = (Num 720, Num 540),
          ops = [Save, Transform (Num (3 / 4)) (Num 0) (Num 0) (Num (3 / 4)) (Num 0) (Num 0),
                 Save, RegisterFont ''f_2f662e6f64747466'' [1, 2, 3],
                 Font ''f_2f662e6f64747466'', FontSize (Num 12), FillColor ''#000000'',
                 Text ''Hi'' (Num 0) (Num (- (48 / 5))) False, Restore, Restore, End],
          registeredFonts = {''f_2f662e6f64747466''}\<rparr>"
  unfolding convertDwfxToPdf_def sample_pages
  by (simp add: sample_reads present_def or_default_def sample_parser_def sample_fonts
      sample_resources Let_def parseFloat_opt_def sample_has_attributes)
     (simp add: render_defs refuses_unknown_fonts_def present_def or_default_def Let_def)

lemma second_run_strict:
  "convertDwfxToPdf sample_parser refuses_unknown_fonts sample_zip {''f_2f662e6f64747466''} =
     Inr \<lparr>page_size = (Num 720, Num 540),
          ops = [Save, Transform (Num (3 / 4)) (Num 0) (Num 0) (Num (3 / 4)) (Num 0) (Num 0),
                 Save, Restore, Restore, End],
          registeredFonts = {''f_2f662e6f64747466''}\<rparr>"
  unfolding convertDwfxToPdf_def sample_pages
  by (simp add: sample_reads present_def or_default_def sample_parser_def sample_fonts
      sample_resources Let_def parseFloat_opt_def sample_has_attributes)
     (simp add: render_defs refuses_unknown_fonts_def present_def or_default_def Let_def)

text \<open>
  Claim C4 fails on the code: the set \<open>registeredFonts\<close> outlives a conversion. The first
  conversion of the sample package registers the embedded font and draws the text with
  it; a second conversion of the same package in the same process finds the identifier in
  the set and does not register the font in the new document. With a library that
  accepts every call the two documents differ by that call; with a library that refuses
  a font it does not know, the text of the second document is lost.
\<close>

theorem conversion_depends_on_earlier_runs:
  "(\<exists>st1 st2.
      convertDwfxToPdf sample_parser accept_all sample_zip {} = Inr st1 \<and>
      convertDwfxToPdf sample_parser accept_all sample_zip (registeredFonts st1) = Inr st2 \<and>
      RegisterFont ''f_2f662e6f64747466'' [1, 2, 3] \<in> set (ops st1) \<and>
      RegisterFont ''f_2f662e6f64747466'' [1, 2, 3] \<notin> set (ops st2))
   \<and> (\<exists>st1 st2.
      convertDwfxToPdf sample_parser refuses_unknown_fonts sample_zip {} = Inr st1 \<and>
      convertDwfxToPdf sample_parser refuses_unknown_fonts sample_zip (registeredFonts st1) =
        Inr st2 \<and>
      Text ''Hi'' (Num 0) (Num (- (48 / 5))) False \<in> set (ops st1) \<and>
      ops st2 =
        [Save, Transform (Num (3 / 4)) (Num 0) (Num 0) (Num (3 / 4)) (Num 0) (Num 0),
         Save, Restore, Restore, End])"
  by (simp add: first_run second_run first_run_strict second_run_strict)

section \<open>A font name that every object inherits\<close>

lemma inherited_pages:
  "findPages inherited_parser sample_zip = Inr [\<lparr>fpagePath = ''page'', basePath = ''.''\<rparr>]"
  by (simp add: findPages_def sample_reads present_def or_default_def inherited_parser_def
      sample_parser_def getChildren_def attr_def strip_prefix_def dirname_def is_slash_def)

lemma inherited_fonts:
  "collectFontRefs sample_zip ''.'' inherited_page Map.empty = Inr Map.empty"
  by (simp add: inherited_page_def inherited_glyphs_def font_ref_def has_attributes_def
      font_at_def object_prototype_def attr_def present_def or_default_def)

lemma inherited_resources:
  "collectResources inherited_parser sample_zip ''.'' inherited_page Map.empty = Inr Map.empty"
  by (simp add: inherited_page_def inherited_glyphs_def)

lemma inherited_has_attributes: "has_attributes inherited_page"
  by (simp add: inherited_page_def has_attributes_def)

lemma inherited_font_id: "take 20 (hex_encode ''constructor'') = ''636f6e7374727563746f''"
  by (simp add: hex_encode_def hex_digit_def)

lemmas inherited_defs = inherited_glyphs_def has_attributes_def font_at_def object_prototype_def
  attr_def call_def andThen_def save_def restore_def end_document_def renderGlyphs_def
  swallow_def XPS_TO_PDF_def jmul_def jsub_def lift2_def parseFloat_samples inherited_font_id
  present_def or_default_def Let_def

lemma inherited_run:
  "convertDwfxToPdf inherited_parser refuses_unknown_fonts sample_zip {} =
     Inr \<lparr>page_size = (Num 720, Num 540),
          ops = [Save, Transform (Num (3 / 4)) (Num 0) (Num 0) (Num (3 / 4)) (Num 0) (Num 0),
                 Save, RegisterInherited ''f_636f6e7374727563746f'' ''constructor'',
                 Restore, Restore, End],
          registeredFonts = {''f_636f6e7374727563746f''}\<rparr>"
  unfolding convertDwfxToPdf_def inherited_pages
  by (simp add: sample_reads present_def or_default_def inherited_parser_def inherited_fonts
      inherited_resources Let_def parseFloat_opt_def inherited_has_attributes)
     (simp add: inherited_page_def inherited_defs refuses_unknown_fonts_def)

text \<open>
  Claim C9 fails on the code. The table \<open>fonts\<close> is a plain object, and \<open>fonts[uri]\<close> is
  truthy for a \<open>FontUri\<close> such as \<open>constructor\<close>, for which no font was loaded: the
  element is not drawn in the default face. \<open>renderGlyphs\<close> registers the inherited
  function as a font and selects it. With a library that accepts every call the text is
  drawn in that face; with a library that refuses a font it has no font data for, the
  text is lost, and so it is in the converted document. For a \<open>FontUri\<close> that names
  nothing the default face is used.
\<close>

theorem renderGlyphs_inherited_name:
  "collectFontRefs sample_zip ''.'' inherited_page Map.empty = Inr Map.empty
   \<and> renderGlyphs accept_all Map.empty inherited_glyphs blank =
       Inr (blank\<lparr>ops :=
              [Save, RegisterInherited ''f_636f6e7374727563746f'' ''constructor'',
               Font ''f_636f6e7374727563746f'', FontSize (Num 12), FillColor ''#000000'',
               Text ''Hi'' (Num 0) (Num (- (48 / 5))) False, Restore],
            registeredFonts := {''f_636f6e7374727563746f''}\<rparr>)
   \<and> renderGlyphs refuses_unknown_fonts Map.empty inherited_glyphs blank =
       Inr (blank\<lparr>ops :=
              [Save, RegisterInherited ''f_636f6e7374727563746f'' ''constructor'', Restore],
            registeredFonts := {''f_636f6e7374727563746f''}\<rparr>)
   \<and> convertDwfxToPdf inherited_parser refuses_unknown_fonts sample_zip {} =
       Inr \<lparr>page_size = (Num 720, Num 540),
            ops = [Save, Transform (Num (3 / 4)) (Num 0) (Num 0) (Num (3 / 4)) (Num 0) (Num 0),
                   Save, RegisterInherited ''f_636f6e7374727563746f'' ''constructor'',
                   Restore, Restore, End],
            registeredFonts = {''f_636f6e7374727563746f''}\<rparr>
   \<and> renderGlyphs refuses_unknown_fonts Map.empty missing_glyphs blank =
       Inr (blank\<lparr>ops :=
              [Save, Font ''Helvetica'', FontSize (Num 12), FillColor ''#000000'',
               Text ''Hi'' (Num 0) (Num (- (48 / 5))) False, Restore]\<rparr>)"
proof (intro conjI)
  show "collectFontRefs sample_zip ''.'' inherited_page Map.empty = Inr Map.empty"
    by (rule inherited_fonts)
next
  show "renderGlyphs accept_all Map.empty inherited_glyphs blank =
       Inr (blank\<lparr>ops :=
              [Save, RegisterInherited ''f_636f6e7374727563746f'' ''constructor'',
               Font ''f_636f6e7374727563746f'', FontSize (Num 12), FillColor ''#000000'',
               Text ''Hi'' (Num 0) (Num (- (48 / 5))) False, Restore],
            registeredFonts := {''f_636f6e7374727563746f''}\<rparr>)"
    by (simp add: inherited_defs accept_all_def blank_def)
next
  show "renderGlyphs refuses_unknown_fonts Map.empty inherited_glyphs blank =
       Inr (blank\<lparr>ops :=
              [Save, RegisterInherited ''f_636f6e7374727563746f'' ''constructor'', Restore],
            registeredFonts := {''f_636f6e7374727563746f''}\<rparr>)"
    by (simp add: inherited_defs refuses_unknown_fonts_def blank_def)
next
  show "convertDwfxToPdf inherited_parser refuses_unknown_fonts sample_zip {} =
       Inr \<lparr>page_size = (Num 720, Num 540),
            ops = [Save, Transform (Num (3 / 4)) (Num 0) (Num 0) (Num (3 / 4)) (Num 0) (Num 0),
                   Save, RegisterInherited ''f_636f6e7374727563746f'' ''constructor'',
                   Restore, Restore, End],
            registeredFonts = {''f_636f6e7374727563746f''}\<rparr>"
    by (rule inherited_run)
next
  show "renderGlyphs refuses_unknown_fonts Map.empty missing_glyphs blank =
       Inr (blank\<lparr>ops :=
              [Save, Font ''Helvetica'', FontSize (Num 12), FillColor ''#000000'',
               Text ''Hi'' (Num 0) (Num (- (48 / 5))) False, Restore]\<rparr>)"
    by (simp add: missing_glyphs_def inherited_defs refuses_unknown_fonts_def blank_def)
qed

section \<open>The stack of frames\<close>

lemma walk_append:
  "walk k (xs @ ys) = Option.bind (walk k xs) (\<lambda>j. walk j ys)"
  by (induction k xs rule: walk.induct) auto

lemma grows_refl: "grows T a a st st"
  by (simp add: grows_def)

lemma grows_trans: "grows T a b st st' \<Longrightarrow> grows T b c st' st'' \<Longrightarrow> grows T a c st st''"
  unfolding grows_def
proof (elim conjE exE, intro conjI)
  fix d e
  assume p: "page_size st' = page_size st" "page_size st'' = page_size st'"
    and d: "ops st' = ops st @ d" "\<forall>k. walk (a + k) d = Some (b + k)" "list_all (allowed T) d"
    and e: "ops st'' = ops st' @ e" "\<forall>k. walk (b + k) e = Some (c + k)" "list_all (allowed T) e"
  show "page_size st'' = page_size st" using p by simp
  have "ops st'' = ops st @ (d @ e)" using d e by simp
  moreover have "\<forall>k. walk (a + k) (d @ e) = Some (c + k)"
    using d e by (simp add: walk_append)
  moreover have "list_all (allowed T) (d @ e)" using d e by simp
  ultimately show "\<exists>x. ops st'' = ops st @ x \<and> (\<forall>k. walk (a + k) x = Some (c + k)) \<and>
      list_all (allowed T) x"
    by blast
qed

lemma grows_mono: "grows T a b st st' \<Longrightarrow> grows T (a + n) (b + n) st st'"
  unfolding grows_def
proof (elim conjE exE, intro conjI)
  fix d
  assume p: "page_size st' = page_size st"
    and d: "ops st' = ops st @ d" "\<forall>k. walk (a + k) d = Some (b + k)" "list_all (allowed T) d"
  show "page_size st' = page_size st" by (rule p)
  have "walk (a + n + k) d = Some (b + n + k)" for k
    using d(2) [rule_format, of "n + k"] by (simp add: add.assoc)
  with d(1,3) show "\<exists>x. ops st' = ops st @ x \<and> (\<forall>k. walk (a + n + k) x = Some (b + n + k)) \<and>
      list_all (allowed T) x"
    by blast
qed

lemma grows_one:
  "(\<forall>k. walk (a + k) [c] = Some (b + k)) \<Longrightarrow> allowed T c \<Longrightarrow>
   grows T a b st (st\<lparr>ops := ops st @ [c]\<rparr>)"
  by (auto simp: grows_def)

lemma plain_allowed: "plain c \<Longrightarrow> allowed T c"
proof (cases c)
  case (Transform a b c' d e f)
  assume "plain c"
  then have "walk 0 [c] = Some 0" unfolding plain_def by blast
  with Transform show ?thesis by simp
qed (simp_all add: allowed_def)

lemma inside_call: "plain c \<Longrightarrow> inside T (\<lambda>s. s) 0 st (call lib c st)"
  by (auto simp: inside_def call_def library_error_def grows_refl plain_def plain_allowed
      intro!: grows_one)

lemma inside_call_transform:
  "Transform a b c d e f \<in> T \<Longrightarrow>
   inside T (\<lambda>s. s) (Suc 0) st (call lib (Transform a b c d e f) st)"
  by (auto simp: inside_def call_def library_error_def grows_refl allowed_def intro!: grows_one)

lemma inside_andThen:
  assumes "inside T prj a st r" "\<And>x. r = Inr x \<Longrightarrow> inside T prj' a (prj x) (f x)"
  shows "inside T prj' a st (andThen r f)"
proof (cases r)
  case (Inl ex)
  with assms(1) show ?thesis by (simp add: andThen_def inside_def)
next
  case (Inr x)
  with assms(1) have g: "grows T a a st (prj x)" by (simp add: inside_def)
  from assms(2) [OF Inr] have i: "inside T prj' a (prj x) (f x)" .
  show ?thesis
    using i g Inr
    by (auto simp: andThen_def inside_def split: sum.splits intro: grows_trans)
qed

lemma inside_mono: "inside T prj a st r \<Longrightarrow> inside T prj (a + n) st r"
  by (auto simp: inside_def split: sum.splits dest: grows_mono)

lemma inside_Inr: "prj x = st \<Longrightarrow> inside T prj a st (Inr x)"
  by (simp add: inside_def grows_refl)

lemma inside_swallow: "inside T (\<lambda>s. s) a st r \<Longrightarrow> inside T (\<lambda>s. s) a st (swallow r)"
  by (auto simp: inside_def swallow_def split: sum.splits)

lemma inside_tracks: "inside T (\<lambda>s. s) a st r \<Longrightarrow> tracks T a a st r"
  by (auto simp: inside_def tracks_def render_error_def split: sum.splits)

lemma tracks_andThen:
  assumes "tracks T a b st r" "\<And>x. r = Inr x \<Longrightarrow> tracks T b c x (f x)"
  shows "tracks T a c st (andThen r f)"
proof (cases r)
  case (Inl ex)
  with assms(1) show ?thesis by (simp add: andThen_def tracks_def)
next
  case (Inr x)
  with assms(1) have g: "grows T a b st x" by (simp add: tracks_def)
  from assms(2) [OF Inr] g Inr show ?thesis
    by (auto simp: andThen_def tracks_def split: sum.splits intro: grows_trans)
qed

lemma tracks_mono: "tracks T a b st r \<Longrightarrow> tracks T (a + n) (b + n) st r"
  by (auto simp: tracks_def split: sum.splits dest: grows_mono)

lemma grows_save: "grows T a (Suc a) st (save st)"
  unfolding save_def by (rule grows_one) (simp_all add: allowed_def)

lemma grows_restore: "grows T (Suc a) a st (restore st)"
  unfolding restore_def by (rule grows_one) (simp_all add: allowed_def)

lemma tracks_Inr: "grows T a b st st' \<Longrightarrow> tracks T a b st (Inr st')"
  by (simp add: tracks_def)

lemma tracks_TypeError: "tracks T a b st (Inl (TypeError, st'))"
  by (simp add: tracks_def render_error_def)

lemma tracks_from:
  "grows T a b st st1 \<Longrightarrow> tracks T b c st1 r \<Longrightarrow> tracks T a c st r"
  by (auto simp: tracks_def split: sum.splits intro: grows_trans)

lemma plain_ops [simp]:
  "plain (MoveTo x y)" "plain (LineTo x y)" "plain (BezierCurveTo a b c d e f)"
  "plain (QuadraticCurveTo a b c d)" "plain ClosePath" "plain Clip" "plain (Fill s)"
  "plain Stroke" "plain (FillAndStroke s t)" "plain (Image buf x y w ht)"
  "plain (StrokeColor so)" "plain (LineWidth x)" "plain (LineCap s)" "plain (LineJoin s)"
  "plain (MiterLimit x)" "plain (Dash ps x)" "plain Undash" "plain (RegisterFont s buf)"
  "plain (RegisterInherited s t)"
  "plain (Font s)" "plain (FontSize x)" "plain (FillColor s)" "plain (Text s x y bl)"
  by (simp_all add: plain_def)

lemma inside_bezierArcSeg:
  "inside T (\<lambda>s. s) 0 st (bezierArcSeg lib cx0 cy0 rx ry phi t1 t2 st)"
  by (simp add: bezierArcSeg_def Let_def inside_call)

lemma inside_arc_loop:
  "inside T (\<lambda>s. s) 0 st (arc_loop lib cx0 cy0 rx ry phi theta1 delta segs s st)"
proof (induction lib cx0 cy0 rx ry phi theta1 delta segs s st rule: arc_loop.induct)
  case (1 lib cx0 cy0 rx ry phi theta1 delta segs s st)
  show ?case
  proof (cases "jlt (Num (real s)) segs")
    case False
    then show ?thesis
      by (subst arc_loop.simps) (simp add: inside_Inr)
  next
    case True
    show ?thesis
      apply (subst arc_loop.simps)
      apply (simp only: True if_True)
      apply (rule inside_andThen [where prj = "\<lambda>s. s"])
       apply (rule inside_bezierArcSeg)
      apply (rule 1 [OF True])
      apply assumption
      done
  qed
qed

lemma inside_emitArc:
  "inside T (\<lambda>s. s) 0 st (emitArc lib x1 y1 rx0 ry0 angleDeg largeArc sweep x2 y2 st)"
  by (simp add: emitArc_def Let_def inside_call inside_arc_loop)

lemma inside_then_Inr:
  assumes "inside T (\<lambda>s. s) a st r" "\<And>s. prj (f s) = s"
  shows "inside T prj a st (andThen r (\<lambda>s. Inr (f s)))"
  by (rule inside_andThen [OF assms(1)]) (simp add: inside_Inr assms(2))

lemma inside_call_then:
  "plain c \<Longrightarrow> (\<And>s. prj (f s) = s) \<Longrightarrow>
   inside T prj 0 st (andThen (call lib c st) (\<lambda>s. Inr (f s)))"
  by (rule inside_then_Inr [OF inside_call])

lemma inside_emitArc_then:
  "(\<And>s. prj (f s) = s) \<Longrightarrow>
   inside T prj 0 st
     (andThen (emitArc lib x1 y1 rx0 ry0 angleDeg largeArc sweep x2 y2 st) (\<lambda>s. Inr (f s)))"
  by (rule inside_then_Inr [OF inside_emitArc])

lemma inside_step: "inside T (\<lambda>x. snd (snd x)) 0 st (step lib g (p, ts, st))"
proof (cases g)
  case LineAbs
  then show ?thesis by (simp add: inside_call_then split: prod.splits)
next
  case LineRel
  then show ?thesis by (simp add: Let_def inside_call_then split: prod.splits)
next
  case HorAbs
  then show ?thesis by (simp add: inside_call_then split: prod.splits)
next
  case HorRel
  then show ?thesis by (simp add: Let_def inside_call_then split: prod.splits)
next
  case VerAbs
  then show ?thesis by (simp add: inside_call_then split: prod.splits)
next
  case VerRel
  then show ?thesis by (simp add: Let_def inside_call_then split: prod.splits)
next
  case CubicAbs
  then show ?thesis by (simp add: inside_call_then split: prod.splits)
next
  case CubicRel
  then show ?thesis by (simp add: Let_def inside_call_then split: prod.splits)
next
  case QuadAbs
  then show ?thesis by (simp add: inside_call_then split: prod.splits)
next
  case QuadRel
  then show ?thesis by (simp add: Let_def inside_call_then split: prod.splits)
next
  case ArcAbs
  then show ?thesis by (simp add: inside_emitArc_then split: prod.splits)
next
  case ArcRel
  then show ?thesis by (simp add: Let_def inside_emitArc_then split: prod.splits)
qed

lemma inside_repeat:
  "inside T (\<lambda>x. snd (snd x)) 0 (snd (snd pst)) (repeat lib g pst)"
proof (induction lib g pst rule: repeat.induct)
  case (1 lib g p ts st)
  show ?case
  proof (cases "isNum ts")
    case False
    then show ?thesis by (simp add: repeat.simps inside_Inr)
  next
    case True
    have "inside T (\<lambda>x. snd (snd x)) 0 st (andThen (step lib g (p, ts, st)) (repeat lib g))"
    proof (rule inside_andThen [where prj = "\<lambda>x. snd (snd x)"])
      show "inside T (\<lambda>x. snd (snd x)) 0 st (step lib g (p, ts, st))" by (rule inside_step)
    next
      fix x assume "step lib g (p, ts, st) = Inr x"
      then show "inside T (\<lambda>x. snd (snd x)) 0 (snd (snd x)) (repeat lib g x)"
        using 1 True by blast
    qed
    with True show ?thesis by (simp add: repeat.simps)
  qed
qed

lemma inside_repeat': "inside T (\<lambda>x. snd (snd x)) 0 st (repeat lib g (p, ts, st))"
  using inside_repeat [where lib = lib and g = g and pst = "(p, ts, st)"] by simp

lemma inside_move:
  "inside T (\<lambda>x. snd (snd x)) 0 st
     (andThen (call lib (MoveTo x y) st) (\<lambda>st'. repeat lib g (p, ts, st')))"
  by (rule inside_andThen [where prj = "\<lambda>s. s"]) (simp_all add: inside_call inside_repeat')

lemma inside_command: "inside T (\<lambda>x. snd (snd x)) 0 st (command lib c (p, ts, st))"
  unfolding command_def
  by (simp add: Let_def inside_repeat' inside_Inr inside_move inside_call_then
      split: prod.splits)

lemma inside_run: "inside T (\<lambda>x. snd (snd x)) 0 (snd (snd pst)) (run lib pst)"
proof (induction lib pst rule: run.induct)
  case (1 lib p st)
  show ?case by (simp add: inside_Inr)
next
  case (2 lib p c ts st)
  have "inside T (\<lambda>x. snd (snd x)) 0 st (andThen (command lib c (p, ts, st)) (run lib))"
  proof (rule inside_andThen [where prj = "\<lambda>x. snd (snd x)"])
    show "inside T (\<lambda>x. snd (snd x)) 0 st (command lib c (p, ts, st))" by (rule inside_command)
  next
    fix x assume "command lib c (p, ts, st) = Inr x"
    then show "inside T (\<lambda>x. snd (snd x)) 0 (snd (snd x)) (run lib x)" by (rule 2)
  qed
  then show ?case by simp
next
  case (3 lib p v ts st)
  then show ?case by simp
qed

lemma inside_drawPathData: "inside T (\<lambda>s. s) 0 st (drawPathData lib d st)"
proof -
  let ?r = "run lib (\<lparr>cx = Num 0, cy = Num 0, sx = Num 0, sy = Num 0\<rparr>, tokenizePath d, st)"
  have "inside T (\<lambda>x. snd (snd x)) 0 st ?r"
    using inside_run [where lib = lib and
        pst = "(\<lparr>cx = Num 0, cy = Num 0, sx = Num 0, sy = Num 0\<rparr>, tokenizePath d, st)"]
    by simp
  then show ?thesis
    unfolding drawPathData_def by (auto simp: inside_def split: sum.splits)
qed

lemma inside_andThen_call:
  "plain c \<Longrightarrow> (\<And>s. inside T prj 0 s (f s)) \<Longrightarrow> inside T prj 0 st (andThen (call lib c st) f)"
  by (rule inside_andThen [where prj = "\<lambda>s. s"]) (simp_all add: inside_call)

lemma inside_applyStrokeStyle:
  "inside T (\<lambda>s. s) 0 st (applyStrokeStyle lib node thickness st)"
  by (simp add: applyStrokeStyle_def Let_def inside_andThen_call inside_call)

lemma tracks_of_inside: "inside T (\<lambda>s. s) 0 st r \<Longrightarrow> tracks T a a st r"
  using inside_mono [of T "\<lambda>s. s" 0 st r a] by (simp add: inside_tracks)

lemma tracks_of_inside1: "inside T (\<lambda>s. s) (Suc 0) st r \<Longrightarrow> tracks T (Suc a) (Suc a) st r"
  using inside_mono [of T "\<lambda>s. s" "Suc 0" st r a] by (simp add: inside_tracks)

lemma tracks_restore: "tracks T (Suc a) a st (Inr (restore st))"
  by (simp add: tracks_def grows_restore)

lemma tracks_return: "tracks T a a st (Inr st)"
  by (simp add: tracks_def grows_refl)

text \<open>save; try { body } catch { }; restore\<close>

lemma tracks_frame:
  assumes "grows T a (Suc a) st st1" "inside T (\<lambda>s. s) (Suc 0) st1 body"
  shows "tracks T a a st (andThen (swallow body) (\<lambda>s. Inr (restore s)))"
proof -
  have "tracks T (Suc a) (Suc a) st1 (swallow body)"
    by (rule tracks_of_inside1) (rule inside_swallow [OF assms(2)])
  then have "tracks T (Suc a) a st1 (andThen (swallow body) (\<lambda>s. Inr (restore s)))"
    by (rule tracks_andThen) (rule tracks_restore)
  with assms(1) show ?thesis by (rule tracks_from)
qed

lemma inside_01: "inside T (\<lambda>s. s) 0 st r \<Longrightarrow> inside T (\<lambda>s. s) (Suc 0) st r"
  using inside_mono [of T "\<lambda>s. s" 0 st r "Suc 0"] by simp

lemma inside_path_then_call:
  "plain c \<Longrightarrow> inside T (\<lambda>s. s) 0 st (andThen (drawPathData lib d st) (call lib c))"
  by (rule inside_andThen [OF inside_drawPathData]) (rule inside_call)

lemma inside_image_body:
  assumes "tp \<Longrightarrow> Transform (at_index m 0) (at_index m 1) (at_index m 2)
                    (at_index m 3) (at_index m 4) (at_index m 5) \<in> T"
  shows "inside T (\<lambda>s. s) (Suc 0) st
     (andThen (drawPathData lib data st) (\<lambda>st.
      andThen (call lib Clip st) (\<lambda>st.
      andThen (if tp then transform6 lib m st else Inr st) (\<lambda>st.
      call lib (Image img x y w ht) st))))"
proof (rule inside_andThen [where prj = "\<lambda>s. s"])
  show "inside T (\<lambda>s. s) (Suc 0) st (drawPathData lib data st)"
    by (rule inside_01) (rule inside_drawPathData)
next
  fix s1
  show "inside T (\<lambda>s. s) (Suc 0) s1
     (andThen (call lib Clip s1) (\<lambda>st.
      andThen (if tp then transform6 lib m st else Inr st) (\<lambda>st.
      call lib (Image img x y w ht) st)))"
  proof (rule inside_andThen [where prj = "\<lambda>s. s"])
    show "inside T (\<lambda>s. s) (Suc 0) s1 (call lib Clip s1)"
      by (rule inside_01) (simp add: inside_call)
  next
    fix s2
    show "inside T (\<lambda>s. s) (Suc 0) s2
       (andThen (if tp then transform6 lib m s2 else Inr s2)
          (\<lambda>st. call lib (Image img x y w ht) st))"
    proof (rule inside_andThen [where prj = "\<lambda>s. s"])
      show "inside T (\<lambda>s. s) (Suc 0) s2 (if tp then transform6 lib m s2 else Inr s2)"
        using assms by (simp add: transform6_def inside_call_transform inside_Inr)
    next
      fix s3
      show "inside T (\<lambda>s. s) (Suc 0) s3 (call lib (Image img x y w ht) s3)"
        by (rule inside_01) (simp add: inside_call)
    qed
  qed
qed

lemma tracks_stroke_pass:
  "tracks T a a st
     (andThen (applyStrokeStyle lib node thickness (save st)) (\<lambda>st.
      andThen (swallow (andThen (drawPathData lib data st) (call lib Stroke)))
        (\<lambda>st. Inr (restore st))))"
proof -
  have 1: "tracks T a (Suc a) st (applyStrokeStyle lib node thickness (save st))"
    by (rule tracks_from [OF grows_save]) (rule tracks_of_inside [OF inside_applyStrokeStyle])
  show ?thesis
  proof (rule tracks_andThen [OF 1])
    fix x
    have "tracks T (Suc a) (Suc a) x (swallow (andThen (drawPathData lib data x) (call lib Stroke)))"
      by (rule tracks_of_inside) (rule inside_swallow, rule inside_path_then_call, simp)
    then show "tracks T (Suc a) a x
       (andThen (swallow (andThen (drawPathData lib data x) (call lib Stroke)))
          (\<lambda>st. Inr (restore st)))"
      by (rule tracks_andThen) (rule tracks_restore)
  qed
qed

lemma brush_transform_declared:
  "resources key = Some res \<Longrightarrow> present (transform res) \<Longrightarrow> brush_transforms resources \<subseteq> T \<Longrightarrow>
   Transform (at_index (map Number_of (split_comma (or_default (transform res) []))) 0)
     (at_index (map Number_of (split_comma (or_default (transform res) []))) 1)
     (at_index (map Number_of (split_comma (or_default (transform res) []))) 2)
     (at_index (map Number_of (split_comma (or_default (transform res) []))) 3)
     (at_index (map Number_of (split_comma (or_default (transform res) []))) 4)
     (at_index (map Number_of (split_comma (or_default (transform res) []))) 5) \<in> T"
proof -
  assume a: "resources key = Some res" "present (transform res)" "brush_transforms resources \<subseteq> T"
  then have "transform_of (or_default (transform res) []) \<in> brush_transforms resources"
    unfolding brush_transforms_def by blast
  with a(3) show ?thesis by (auto simp: transform_of_def Let_def)
qed

lemma tracks_renderImageFill:
  assumes T: "brush_transforms resources \<subseteq> T"
  shows "tracks T a a st (renderImageFill lib data key resources stroke node thickness st)"
proof (cases "resources key")
  case None
  then show ?thesis by (simp add: renderImageFill_def tracks_return)
next
  case (Some res)
  show ?thesis
  proof (cases "imageBuffer res")
    case None
    with Some show ?thesis by (simp add: renderImageFill_def tracks_return)
  next
    case (Some img)
    show ?thesis
      unfolding renderImageFill_def Let_def \<open>resources key = Some res\<close> Some option.case
    proof (rule tracks_andThen [where b = "Suc a"])
      show "tracks T a (Suc a) st
        (swallow
          (andThen (drawPathData lib data (save st)) (\<lambda>st.
           andThen (call lib Clip st) (\<lambda>st.
           andThen
             (if present (transform res)
              then transform6 lib (map Number_of (split_comma (or_default (transform res) []))) st
              else Inr st) (\<lambda>st.
           call lib
             (Image img
               (at_index (if present (viewport res)
                          then map Number_of (split_sep (or_default (viewport res) []))
                          else [Num 0, Num 0, Num 100, Num 100]) 0)
               (at_index (if present (viewport res)
                          then map Number_of (split_sep (or_default (viewport res) []))
                          else [Num 0, Num 0, Num 100, Num 100]) 1)
               (at_index (if present (viewport res)
                          then map Number_of (split_sep (or_default (viewport res) []))
                          else [Num 0, Num 0, Num 100, Num 100]) 2)
               (at_index (if present (viewport res)
                          then map Number_of (split_sep (or_default (viewport res) []))
                          else [Num 0, Num 0, Num 100, Num 100]) 3))
             st)))))"
        by (rule tracks_from [OF grows_save], rule tracks_of_inside1, rule inside_swallow,
            rule inside_image_body,
            rule brush_transform_declared [OF \<open>resources key = Some res\<close> _ T])
    next
      fix x
      show "tracks T (Suc a) a x
        (if present stroke
         then andThen (applyStrokeStyle lib node thickness (save (restore x))) (\<lambda>st.
              andThen (swallow (andThen (drawPathData lib data st) (call lib Stroke)))
                (\<lambda>st. Inr (restore st)))
         else Inr (restore x))"
      proof (cases "present stroke")
        case True
        have "tracks T (Suc a) a x
          (andThen (applyStrokeStyle lib node thickness (save (restore x))) (\<lambda>st.
              andThen (swallow (andThen (drawPathData lib data st) (call lib Stroke)))
                (\<lambda>st. Inr (restore st))))"
          by (rule tracks_from [OF grows_restore]) (rule tracks_stroke_pass)
        with True show ?thesis by simp
      next
        case False
        then show ?thesis by (simp add: tracks_restore)
      qed
    qed
  qed
qed

lemma inside_path_fill:
  "inside T (\<lambda>s. s) 0 st
     (andThen (drawPathData lib d st) (\<lambda>st.
        if c1 then call lib (FillAndStroke f s) st
        else if c2 then call lib (Fill f) st else call lib Stroke st))"
  by (rule inside_andThen [OF inside_drawPathData]) (simp add: inside_call)

lemma tracks_renderPath:
  assumes T: "brush_transforms resources \<subseteq> T"
  shows "tracks T a a st (renderPath lib resources node st)"
proof (cases "has_attributes node")
  case False
  then show ?thesis by (simp add: renderPath_def tracks_TypeError)
next
  case attrs: True
  show ?thesis
  proof (cases "present (attr node ''Data'')")
    case False
    with attrs show ?thesis by (simp add: renderPath_def tracks_return)
  next
    case data: True
    show ?thesis
    proof (cases "\<not> present (attr node ''Fill'') \<and> \<not> present (attr node ''Stroke'')")
      case True
      with attrs data show ?thesis by (simp add: renderPath_def tracks_return)
    next
      case False
      then have paint: "(\<not> present (attr node ''Fill'') \<and> \<not> present (attr node ''Stroke'')) = False"
        by simp
      let ?th = "parseFloat (or_default (attr node ''StrokeThickness'') ''1'')"
      let ?m = "if present (attr node ''Fill'')
                then static_resource (or_default (attr node ''Fill'') []) else None"
      show ?thesis
      proof (cases ?m)
        case (Some key)
        have "renderPath lib resources node st =
              renderImageFill lib (or_default (attr node ''Data'') []) key resources
                (attr node ''Stroke'') node ?th st"
          using attrs data paint Some unfolding renderPath_def Let_def by auto
        then show ?thesis by (simp add: tracks_renderImageFill [OF T])
      next
        case None
        let ?open = "if present (attr node ''Stroke'')
                     then applyStrokeStyle lib node ?th (save st) else Inr (save st)"
        have r: "renderPath lib resources node st =
            andThen ?open (\<lambda>st.
              andThen
                (swallow
                   (andThen (drawPathData lib (or_default (attr node ''Data'') []) st) (\<lambda>st.
                      if present (attr node ''Fill'') \<and> present (attr node ''Stroke'')
                      then call lib (FillAndStroke (or_default (attr node ''Fill'') [])
                                       (or_default (attr node ''Stroke'') [])) st
                      else if present (attr node ''Fill'')
                      then call lib (Fill (or_default (attr node ''Fill'') [])) st
                      else call lib Stroke st)))
                (\<lambda>st. Inr (restore st)))"
          using attrs data paint None unfolding renderPath_def Let_def by auto
        have o: "tracks T a (Suc a) st ?open"
        proof (cases "present (attr node ''Stroke'')")
          case True
          have "tracks T a (Suc a) st (applyStrokeStyle lib node ?th (save st))"
            by (rule tracks_from [OF grows_save])
               (rule tracks_of_inside [OF inside_applyStrokeStyle])
          with True show ?thesis by simp
        next
          case False
          then show ?thesis by (simp add: tracks_def grows_save)
        qed
        show ?thesis
          unfolding r
        proof (rule tracks_andThen [OF o])
          fix x
          show "tracks T (Suc a) a x
            (andThen
                (swallow
                   (andThen (drawPathData lib (or_default (attr node ''Data'') []) x) (\<lambda>st.
                      if present (attr node ''Fill'') \<and> present (attr node ''Stroke'')
                      then call lib (FillAndStroke (or_default (attr node ''Fill'') [])
                                       (or_default (attr node ''Stroke'') [])) st
                      else if present (attr node ''Fill'')
                      then call lib (Fill (or_default (attr node ''Fill'') [])) st
                      else call lib Stroke st)))
                (\<lambda>st. Inr (restore st)))"
            by (rule tracks_andThen [where b = "Suc a"], rule tracks_of_inside,
                rule inside_swallow, rule inside_path_fill, rule tracks_restore)
        qed
      qed
    qed
  qed
qed

lemma inside_glyph_calls:
  "inside T (\<lambda>s. s) 0 st
     (andThen (call lib (Font fontName) st) (\<lambda>st.
      andThen (call lib (FontSize fontSize) st) (\<lambda>st.
      andThen (call lib (FillColor fill) st) (\<lambda>st.
      call lib (Text t x y b) st))))"
  by (simp add: inside_andThen_call inside_call)

lemma tracks_renderGlyphs: "tracks T a a st (renderGlyphs lib fnt node st)"
proof (cases "has_attributes node")
  case False
  then show ?thesis by (simp add: renderGlyphs_def tracks_TypeError)
next
  case attrs: True
  show ?thesis
  proof (cases "present (attr node ''UnicodeString'')")
    case False
    with attrs show ?thesis by (simp add: renderGlyphs_def tracks_return)
  next
    case True
    let ?uri = "attr node ''FontUri''"
    let ?chosen = "case (if present ?uri then font_at fnt (or_default ?uri []) else None) of
                   None \<Rightarrow> (''Helvetica'', save st)
                 | Some entry \<Rightarrow>
                    (let fontId = ''f_'' @ take 20 (hex_encode (or_default ?uri [])) in
                     if fontId \<notin> registeredFonts (save st) then
                       (case call lib
                               (case entry of
                                  Loaded buf \<Rightarrow> RegisterFont fontId buf
                                | Inherited \<Rightarrow> RegisterInherited fontId (or_default ?uri []))
                               (save st) of
                          Inr st2 \<Rightarrow>
                            (fontId, st2\<lparr>registeredFonts := insert fontId (registeredFonts st2)\<rparr>)
                        | Inl (e, st2) \<Rightarrow> (''Helvetica'', st2))
                     else (fontId, save st))"
    have "grows T 0 0 (save st) (snd ?chosen)"
      by (auto simp: Let_def call_def grows_refl grows_def allowed_def
          split: option.splits font_entry.splits)
    then have "grows T (Suc a) (Suc a) (save st) (snd ?chosen)"
      using grows_mono [of T 0 0 "save st" "snd ?chosen" "Suc a"] by simp
    with grows_save have g: "grows T a (Suc a) st (snd ?chosen)" by (rule grows_trans)
    obtain fontName st3 where c: "?chosen = (fontName, st3)" by (cases ?chosen)
    with g have g3: "grows T a (Suc a) st st3" by simp
    have "renderGlyphs lib fnt node st =
        andThen
          (swallow
            (andThen (call lib (Font fontName) st3) (\<lambda>st.
             andThen (call lib (FontSize (parseFloat (or_default (attr node ''FontRenderingEmSize'') ''12''))) st) (\<lambda>st.
             andThen (call lib (FillColor (or_default (attr node ''Fill'') ''#000000'')) st) (\<lambda>st.
             call lib (Text (or_default (attr node ''UnicodeString'') [])
                        (parseFloat (or_default (attr node ''OriginX'') ''0''))
                        (jsub (parseFloat (or_default (attr node ''OriginY'') ''0''))
                           (jmul (parseFloat (or_default (attr node ''FontRenderingEmSize'') ''12''))
                              (Num 0.8))) False) st)))))
          (\<lambda>st. Inr (restore st))"
      using attrs True c unfolding renderGlyphs_def Let_def by simp
    moreover have "tracks T a a st \<dots>"
      by (rule tracks_frame [OF g3]) (rule inside_01, rule inside_glyph_calls)
    ultimately show ?thesis by simp
  qed
qed

lemma tracks_mono1: "tracks T 0 0 st r \<Longrightarrow> tracks T (Suc 0) (Suc 0) st r"
  using tracks_mono [of T 0 0 st r "Suc 0"] by simp

lemma canvas_transform_declared:
  assumes "present (attr (Node ''Canvas'' a cs) ''RenderTransform'')"
    and "set (canvas_transforms (Node ''Canvas'' a cs)) \<subseteq> T"
  shows "Transform
     (at_index (map Number_of (split_comma (or_default (attr (Node ''Canvas'' a cs) ''RenderTransform'') []))) 0)
     (at_index (map Number_of (split_comma (or_default (attr (Node ''Canvas'' a cs) ''RenderTransform'') []))) 1)
     (at_index (map Number_of (split_comma (or_default (attr (Node ''Canvas'' a cs) ''RenderTransform'') []))) 2)
     (at_index (map Number_of (split_comma (or_default (attr (Node ''Canvas'' a cs) ''RenderTransform'') []))) 3)
     (at_index (map Number_of (split_comma (or_default (attr (Node ''Canvas'' a cs) ''RenderTransform'') []))) 4)
     (at_index (map Number_of (split_comma (or_default (attr (Node ''Canvas'' a cs) ''RenderTransform'') []))) 5)
     \<in> T"
proof -
  from assms(1) have "transform_of (or_default (map_of a ''RenderTransform'') [])
      \<in> set (canvas_transforms (Node ''Canvas'' a cs))"
    by (simp add: attr_def)
  with assms(2) show ?thesis by (auto simp: transform_of_def Let_def attr_def)
qed

text \<open>
  The rendering of an element, when it returns, has added calls in which every save has
  its restore, every transform is applied inside a frame saved among them, and every
  transform is one the page declares.
\<close>

lemma tracks_render:
  "set (canvas_transforms n) \<union> brush_transforms res \<subseteq> T \<Longrightarrow>
     tracks T 0 0 st (renderElement lib res fnt n st)"
  "tag n = ''Canvas'' \<Longrightarrow> set (canvas_transforms n) \<union> brush_transforms res \<subseteq> T \<Longrightarrow>
     tracks T 0 0 st (renderCanvas lib res fnt n st)"
  "set (canvas_transforms n) \<union> brush_transforms res \<subseteq> T \<Longrightarrow>
     tracks T 0 0 st (renderChildren lib res fnt n st)"
  "(\<Union>c\<in>set ns. set (canvas_transforms c)) \<union> brush_transforms res \<subseteq> T \<Longrightarrow>
     tracks T 0 0 st (renderEach lib res fnt ns st)"
proof (induction lib res fnt n st and lib res fnt n st and lib res fnt n st and lib res fnt ns st
    rule: renderElement_renderCanvas_renderChildren_renderEach.induct)
  case (1 lib res fnt t a cs st)
  from 1(3) have b: "brush_transforms res \<subseteq> T" by simp
  show ?case
  proof (cases "t = ''Canvas''")
    case True
    with 1(1) [OF True] 1(3) show ?thesis by simp
  next
    case False
    with 1(2) 1(3) b show ?thesis
      by (auto simp: tracks_renderPath tracks_renderGlyphs tracks_return
          simp del: renderCanvas.simps renderChildren.simps canvas_transforms.simps)
  qed
next
  case (2 lib res fnt t a cs st)
  let ?n = "Node t a cs"
  show ?case
  proof (cases "has_attributes ?n")
    case False
    then show ?thesis by (simp add: tracks_TypeError)
  next
    case attrs: True
    from 2(2) have t: "t = ''Canvas''" by simp
    from 2(3) have c: "set (canvas_transforms ?n) \<subseteq> T" by simp
    let ?A = "if present (attr ?n ''RenderTransform'')
              then transform6 lib (map Number_of (split_comma (or_default (attr ?n ''RenderTransform'') [])))
                     (save st)
              else Inr (save st)"
    let ?B = "\<lambda>st. if present (attr ?n ''Clip'')
                then andThen (drawPathData lib (or_default (attr ?n ''Clip'') []) st) (call lib Clip)
                else Inr st"
    have A: "tracks T 0 (Suc 0) st ?A"
    proof (rule tracks_from [OF grows_save])
      show "tracks T (Suc 0) (Suc 0) (save st) ?A"
        using canvas_transform_declared [of a cs T] c t
        by (intro tracks_of_inside1) (simp add: transform6_def inside_call_transform inside_Inr)
    qed
    have B: "tracks T (Suc 0) (Suc 0) x (?B x)" for x
      by (rule tracks_of_inside) (simp add: inside_path_then_call inside_Inr)
    have "tracks T 0 0 st
       (andThen ?A (\<lambda>st. andThen (?B st) (\<lambda>st.
          andThen (renderChildren lib res fnt ?n st) (\<lambda>st. Inr (restore st)))))"
    proof (rule tracks_andThen [OF A])
      fix xb assume xb: "?A = Inr xb"
      show "tracks T (Suc 0) 0 xb (andThen (?B xb) (\<lambda>st.
          andThen (renderChildren lib res fnt ?n st) (\<lambda>st. Inr (restore st))))"
      proof (rule tracks_andThen [OF B])
        fix xc assume xc: "?B xb = Inr xc"
        have "tracks T 0 0 xc (renderChildren lib res fnt ?n xc)"
          using 2(1) [OF _ refl refl xb xc 2(3)] attrs by simp
        then have "tracks T (Suc 0) (Suc 0) xc (renderChildren lib res fnt ?n xc)"
          by (rule tracks_mono1)
        then show "tracks T (Suc 0) 0 xc
           (andThen (renderChildren lib res fnt ?n xc) (\<lambda>st. Inr (restore st)))"
          by (rule tracks_andThen) (rule tracks_restore)
      qed
    qed
    with attrs show ?thesis by (simp add: Let_def del: renderChildren.simps)
  qed
next
  case (3 lib res fnt t a cs st)
  from 3(2) have "(\<Union>c\<in>set cs. set (canvas_transforms c)) \<union> brush_transforms res \<subseteq> T"
    by auto
  from 3(1) [OF this] show ?case by simp
next
  case (4 lib res fnt st)
  show ?case by (simp add: tracks_return)
next
  case (5 lib res fnt c cs st)
  from 5(3) have h: "set (canvas_transforms c) \<union> brush_transforms res \<subseteq> T"
    and t: "(\<Union>c\<in>set cs. set (canvas_transforms c)) \<union> brush_transforms res \<subseteq> T"
    by auto
  have "tracks T 0 0 st (andThen (renderElement lib res fnt c st) (renderEach lib res fnt cs))"
    using 5(1) [OF h] by (rule tracks_andThen) (rule 5(2) [OF _ t])
  then show ?case by simp
qed

section \<open>Page size and the global scale\<close>

lemma convert_success:
  assumes "convertDwfxToPdf P lib z rf = Inr st"
  shows "\<exists>fixedPage resources fnt.
    first_fixed_page P z = Some fixedPage \<and>
    first_page_resources P z = Some resources \<and>
    andThen (call lib (Transform XPS_TO_PDF (Num 0) (Num 0) XPS_TO_PDF (Num 0) (Num 0))
               (save (new_document fixedPage rf))) (\<lambda>st.
      andThen (renderChildren lib resources fnt fixedPage st) (\<lambda>st.
      Inr (end_document (restore st)))) = Inr st"
  using assms
  unfolding convertDwfxToPdf_def first_page_resources_def first_fixed_page_def new_document_def
    Let_def
  by (auto simp: present_def or_default_def
      split: sum.splits list.splits option.splits if_splits prod.splits)

lemma sample_first_page: "first_fixed_page sample_parser sample_zip = Some sample_page"
  by (simp add: first_fixed_page_def sample_pages sample_reads sample_parser_def)

lemma drawing_pages:
  "findPages drawing_parser sample_zip = Inr [\<lparr>fpagePath = ''page'', basePath = ''.''\<rparr>]"
  by (simp add: findPages_def sample_reads present_def or_default_def drawing_parser_def
      sample_parser_def getChildren_def attr_def strip_prefix_def dirname_def is_slash_def)

lemma drawing_first_page: "first_fixed_page drawing_parser sample_zip = Some drawing_page"
  by (simp add: first_fixed_page_def drawing_pages sample_reads drawing_parser_def)

lemma drawing_resources:
  "collectResources drawing_parser sample_zip ''.'' drawing_page Map.empty = Inr Map.empty"
  by (simp add: drawing_page_def)

lemma drawing_fonts:
  "collectFontRefs sample_zip ''.'' drawing_page Map.empty = Inr Map.empty"
  by (simp add: drawing_page_def)

lemma drawing_first_resources: "first_page_resources drawing_parser sample_zip = Some Map.empty"
  by (simp add: first_page_resources_def drawing_pages drawing_first_page drawing_resources)

lemma drawing_has_attributes: "has_attributes drawing_page"
  by (simp add: drawing_page_def has_attributes_def)

lemma malformed_tokens:
  "tokenizePath ''M 0 L 5,5'' = [Cmd CHR ''M'', Val 0, Cmd CHR ''L'', Val 5, Val 5]"
  by (simp add: scan_defs binary64_0 binary64_small)

text \<open>
  A path whose data is malformed is skipped: the library refuses the call that has the
  letter for a coordinate, \<open>renderPath\<close> catches the exception and restores.
\<close>

lemma malformed_path_refused:
  "drawPathData refuses_non_numbers ''M 0 L 5,5'' st =
     Inl (Rejected (MoveTo (Num 0) (Letter CHR ''L'')), st)"
  unfolding drawPathData_def malformed_tokens
  by (simp add: command_def num2_def call_def refuses_non_numbers_def andThen_def
      letter_L_not_a_number)

lemma malformed_path_is_skipped:
  "renderPath refuses_non_numbers res
     (Node ''Path'' [(''Data'', ''M 0 L 5,5''), (''Fill'', ''#FF0000'')] []) st =
   Inr (st\<lparr>ops := ops st @ [Save, Restore]\<rparr>)"
  by (simp add: renderPath_def has_attributes_def attr_def present_def or_default_def
      static_resource_def malformed_path_refused andThen_def swallow_def save_def
      restore_def Let_def)

lemma drawing_run:
  "convertDwfxToPdf drawing_parser refuses_non_numbers sample_zip {} =
     Inr \<lparr>page_size = (Num 720, Num 540),
          ops = [Save, Transform (Num (3 / 4)) (Num 0) (Num 0) (Num (3 / 4)) (Num 0) (Num 0),
                 Save, Transform (Num 2) (Num 0) (Num 0) (Num 2) (Num 0) (Num 0),
                 Save, Restore, Restore, Restore, End],
          registeredFonts = {}\<rparr>"
  unfolding convertDwfxToPdf_def drawing_pages
  by (simp add: sample_reads present_def or_default_def drawing_parser_def drawing_fonts
      drawing_resources Let_def parseFloat_opt_def drawing_has_attributes)
     (simp add: drawing_page_def has_attributes_def attr_def present_def or_default_def
       Number_of_samples transform6_def at_index_def malformed_path_is_skipped
       call_def refuses_non_numbers_def andThen_def save_def restore_def end_document_def
       XPS_TO_PDF_def jmul_def lift2_def parseFloat_samples Let_def
       del: split_comma.simps)

text \<open>
  Claim C2. When the conversion of a package whose first fixed page has numeric \<open>Width\<close>
  and \<open>Height\<close> succeeds, the document has the page it was created with, of size
  \<open>(Width * 72/96, Height * 72/96)\<close>, and its calls are: a save, the transform
  \<open>(72/96, 0, 0, 72/96, 0, 0)\<close>, the content, the matching restore and the end. In the
  content every save has its restore, no restore pops the outermost frame, the document
  is not ended, and every other transform is applied inside a frame saved within the
  content (\<open>walk 0 body = Some 0\<close>), so that it is undone by the restore of that frame.
  Every such transform is one the page declares: the \<open>RenderTransform\<close> of one of its
  \<open>Canvas\<close> elements or the \<open>Transform\<close> of an image brush of its resource table; the
  converter adds no transform of its own but the global scale. No call of the converter
  adds a page.
\<close>

theorem page_size_and_scale:
  assumes "convertDwfxToPdf P lib z rf = Inr st"
    and "first_fixed_page P z = Some fixedPage"
    and "parseFloat_opt (attr fixedPage ''Width'') = Num w"
    and "parseFloat_opt (attr fixedPage ''Height'') = Num ht"
  shows "page_size st = (Num (w * (72 / 96)), Num (ht * (72 / 96))) \<and>
         (\<exists>body resources.
            first_page_resources P z = Some resources \<and>
            ops st =
              [Save, Transform (Num (72 / 96)) (Num 0) (Num 0) (Num (72 / 96)) (Num 0) (Num 0)]
              @ body @ [Restore, End] \<and>
            walk 0 body = Some 0 \<and>
            list_all (allowed (declared fixedPage resources)) body)"
proof -
  from convert_success [OF assms(1)] assms(2)
  obtain resources fnt where
    fr: "first_page_resources P z = Some resources" and
    c: "andThen (call lib (Transform XPS_TO_PDF (Num 0) (Num 0) XPS_TO_PDF (Num 0) (Num 0))
               (save (new_document fixedPage rf))) (\<lambda>st.
      andThen (renderChildren lib resources fnt fixedPage st) (\<lambda>st.
      Inr (end_document (restore st)))) = Inr st"
    by auto
  let ?T = "declared fixedPage resources"
  let ?t = "Transform XPS_TO_PDF (Num 0) (Num 0) XPS_TO_PDF (Num 0) (Num 0)"
  let ?st1 = "(new_document fixedPage rf)\<lparr>ops := [Save, ?t]\<rparr>"
  from c obtain st2 where
    r: "renderChildren lib resources fnt fixedPage ?st1 = Inr st2"
    and e: "st = end_document (restore st2)"
    by (auto simp: andThen_def call_def save_def new_document_def split: sum.splits if_splits)
  have "tracks ?T 0 0 ?st1 (renderChildren lib resources fnt fixedPage ?st1)"
    by (rule tracks_render) (simp add: declared_def)
  with r have "grows ?T 0 0 ?st1 st2" by (simp add: tracks_def)
  then obtain d where p: "page_size st2 = page_size ?st1"
    and d: "ops st2 = ops ?st1 @ d" "\<forall>k. walk (0 + k) d = Some (0 + k)"
      "list_all (allowed ?T) d"
    unfolding grows_def by blast
  from d(2) have w: "walk 0 d = Some 0" by (metis add_0)
  have "page_size st = (Num (w * (72 / 96)), Num (ht * (72 / 96)))"
    using p e assms(3,4)
    by (simp add: end_document_def restore_def new_document_def XPS_TO_PDF_def jmul_def lift2_def)
  moreover have "ops st = [Save, Transform (Num (72 / 96)) (Num 0) (Num 0) (Num (72 / 96)) (Num 0) (Num 0)]
            @ d @ [Restore, End]"
    using d(1) e by (simp add: end_document_def restore_def XPS_TO_PDF_def)
  ultimately show ?thesis using w fr d(3) by blast
qed

theorem page_size_and_scale_witness:
  "convertDwfxToPdf drawing_parser refuses_non_numbers sample_zip {} =
     Inr \<lparr>page_size = (Num 720, Num 540),
          ops = [Save, Transform (Num (3 / 4)) (Num 0) (Num 0) (Num (3 / 4)) (Num 0) (Num 0),
                 Save, Transform (Num 2) (Num 0) (Num 0) (Num 2) (Num 0) (Num 0),
                 Save, Restore, Restore, Restore, End],
          registeredFonts = {}\<rparr>
   \<and> first_fixed_page drawing_parser sample_zip = Some drawing_page
   \<and> (\<exists>body resources.
        first_page_resources drawing_parser sample_zip = Some resources \<and>
        [Save, Transform (Num (3 / 4)) (Num 0) (Num 0) (Num (3 / 4)) (Num 0) (Num 0),
         Save, Transform (Num 2) (Num 0) (Num 0) (Num 2) (Num 0) (Num 0),
         Save, Restore, Restore, Restore, End] =
          [Save, Transform (Num (72 / 96)) (Num 0) (Num 0) (Num (72 / 96)) (Num 0) (Num 0)]
          @ body @ [Restore, End] \<and>
        walk 0 body = Some 0 \<and>
        list_all (allowed (declared drawing_page resources)) body)"
proof -
  have w: "parseFloat_opt (attr drawing_page ''Width'') = Num 960"
    and h: "parseFloat_opt (attr drawing_page ''Height'') = Num 720"
    by (simp_all add: parseFloat_opt_def attr_def drawing_page_def parseFloat_samples)
  from page_size_and_scale [OF drawing_run drawing_first_page w h] drawing_run
    drawing_first_page
  show ?thesis by simp
qed

section \<open>Navigation failures\<close>

lemma page_contents_error: "page_contents cs pages = Inl e \<Longrightarrow> e = TypeError"
  by (induction cs pages rule: page_contents.induct)
     (auto simp: Let_def split: if_splits option.splits)

lemma document_references_error:
  "document_references P z cs pages = Inl e \<Longrightarrow> e = TypeError \<or> e = XmlParseError"
  by (induction P z cs pages rule: document_references.induct)
     (auto simp: Let_def split: if_splits option.splits sum.splits dest: page_contents_error)

lemma findPages_error:
  "findPages P z = Inl e \<Longrightarrow>
     e = NoFixedDocumentSequence \<or> e = TypeError \<or> e = XmlParseError"
  by (auto simp: findPages_def Let_def split: if_splits option.splits
      dest: document_references_error)

lemma loadBrush_error: "loadBrush z base n r = Inl e \<Longrightarrow> e = TypeError"
  by (auto simp: loadBrush_def Let_def split: if_splits)

lemma loadBrushes_error: "loadBrushes z base ns r = Inl e \<Longrightarrow> e = TypeError"
  by (induction z base ns r rule: loadBrushes.induct)
     (auto split: sum.splits dest: loadBrush_error)

lemma parseResourceDict_error:
  "parseResourceDict P z base xml r = Inl e \<Longrightarrow> e = XmlParseError \<or> e = TypeError"
  by (auto simp: parseResourceDict_def split: option.splits dest: loadBrushes_error)

lemma resource_dictionaries_error:
  "resource_dictionaries P z base rds r = Inl e \<Longrightarrow> e = XmlParseError \<or> e = TypeError"
  by (induction P z base rds r rule: resource_dictionaries.induct)
     (auto simp: Let_def split: if_splits option.splits sum.splits
       dest: parseResourceDict_error loadBrushes_error)

lemma collectResources_error:
  "collectResources P z base n r = Inl e \<Longrightarrow> e = XmlParseError \<or> e = TypeError"
  "collectResources_each P z base ns r = Inl e \<Longrightarrow> e = XmlParseError \<or> e = TypeError"
  by (induction P z base n r and P z base ns r rule: collectResources_collectResources_each.induct)
     (auto split: if_splits sum.splits dest: resource_dictionaries_error)

lemma font_ref_error: "font_ref z base n f = Inl e \<Longrightarrow> e = TypeError"
  by (auto simp: font_ref_def Let_def split: if_splits option.splits)

lemma collectFontRefs_error:
  "collectFontRefs z base n f = Inl e \<Longrightarrow> e = TypeError"
  "collectFontRefs_each z base ns f = Inl e \<Longrightarrow> e = TypeError"
  by (induction z base n f and z base ns f rule: collectFontRefs_collectFontRefs_each.induct)
     (auto split: if_splits sum.splits dest: font_ref_error)

lemma render_error_kind:
  assumes "andThen (call lib c st0) (\<lambda>st.
      andThen (renderChildren lib resources fnt fixedPage st) (\<lambda>st.
      Inr (end_document (restore st)))) = Inl (e, st')"
  shows "render_error e"
proof (cases "call lib c st0")
  case (Inl x)
  with assms show ?thesis
    by (auto simp: andThen_def call_def render_error_def library_error_def split: if_splits)
next
  case (Inr st1)
  with assms have "renderChildren lib resources fnt fixedPage st1 = Inl (e, st')"
    by (auto simp: andThen_def split: sum.splits)
  moreover have "tracks UNIV 0 0 st1 (renderChildren lib resources fnt fixedPage st1)"
    by (rule tracks_render) simp
  ultimately show ?thesis by (simp add: tracks_def)
qed

lemma convert_no_pages:
  assumes "convertDwfxToPdf P lib z rf = Inl (NoPagesFound, rf')"
  shows "findPages P z = Inr []"
proof (cases "findPages P z")
  case (Inl e)
  with assms have "e = NoPagesFound" by (simp add: convertDwfxToPdf_def)
  with findPages_error [OF Inl] show ?thesis by simp
next
  case (Inr pages)
  show ?thesis
  proof (cases pages)
    case Nil
    with Inr show ?thesis by simp
  next
    case (Cons pg others)
    have False
      using assms Inr Cons unfolding convertDwfxToPdf_def Let_def
      by (auto simp: render_error_def library_error_def
          split: if_splits option.splits sum.splits prod.splits
          dest: collectResources_error collectFontRefs_error render_error_kind)
    then show ?thesis ..
  qed
qed

text \<open>
  Claim C6. \<open>findPages\<close> fails with "No FixedDocumentSequence found" exactly when
  \<open>FixedDocumentSequence.fdseq\<close> cannot be read (the entry is missing or empty); a
  \<open>DocumentReference\<close> whose \<open>Source\<close> part cannot be read is skipped and the loop goes on
  with the next child; and the conversion fails with "No pages found in DWFx file" exactly
  when \<open>findPages\<close> returns no page reference.
\<close>

theorem navigation_failures:
  "(findPages P z = Inl NoFixedDocumentSequence \<longleftrightarrow>
      \<not> present (readEntry z ''FixedDocumentSequence.fdseq''))
   \<and> (tag child = ''DocumentReference'' \<and> attr child ''Source'' = Some s \<and>
      \<not> present (readEntry z (strip_prefix ''/'' s)) \<longrightarrow>
      document_references P z (child # cs) pages = document_references P z cs pages)
   \<and> ((\<exists>rf'. convertDwfxToPdf P lib z rf = Inl (NoPagesFound, rf')) \<longleftrightarrow>
      findPages P z = Inr [])"
proof (intro conjI)
  show "findPages P z = Inl NoFixedDocumentSequence \<longleftrightarrow>
      \<not> present (readEntry z ''FixedDocumentSequence.fdseq'')"
    by (auto simp: findPages_def Let_def split: option.splits
        dest: document_references_error)
next
  show "tag child = ''DocumentReference'' \<and> attr child ''Source'' = Some s \<and>
      \<not> present (readEntry z (strip_prefix ''/'' s)) \<longrightarrow>
      document_references P z (child # cs) pages = document_references P z cs pages"
    by (simp add: Let_def)
next
  show "(\<exists>rf'. convertDwfxToPdf P lib z rf = Inl (NoPagesFound, rf')) \<longleftrightarrow>
      findPages P z = Inr []"
  proof
    assume "\<exists>rf'. convertDwfxToPdf P lib z rf = Inl (NoPagesFound, rf')"
    then show "findPages P z = Inr []" using convert_no_pages by blast
  next
    assume "findPages P z = Inr []"
    then show "\<exists>rf'. convertDwfxToPdf P lib z rf = Inl (NoPagesFound, rf')"
      by (simp add: convertDwfxToPdf_def)
  qed
qed

theorem navigation_failures_witness:
  "findPages sample_parser Map.empty = Inl NoFixedDocumentSequence
   \<and> document_references sample_parser sample_zip_no_document
       [Node ''DocumentReference'' [(''Source'', ''/doc'')] []] [] = Inr []
   \<and> (\<exists>rf'. convertDwfxToPdf sample_parser accept_all sample_zip_no_document {} =
              Inl (NoPagesFound, rf'))"
proof -
  have a: "\<not> present (readEntry Map.empty ''FixedDocumentSequence.fdseq'')"
    by (simp add: readEntry_def present_def)
  have b: "tag (Node ''DocumentReference'' [(''Source'', ''/doc'')] []) = ''DocumentReference'' \<and>
      attr (Node ''DocumentReference'' [(''Source'', ''/doc'')] []) ''Source'' = Some ''/doc'' \<and>
      \<not> present (readEntry sample_zip_no_document (strip_prefix ''/'' ''/doc''))"
    by (simp add: attr_def readEntry_def present_def sample_zip_no_document_def
        strip_prefix_def)
  have r: "readEntry sample_zip_no_document ''FixedDocumentSequence.fdseq'' = Some ''<seq>''"
    by (simp add: readEntry_def sample_zip_no_document_def strip_prefix_def
        toString_Buffer_from)
  have "document_references sample_parser sample_zip_no_document
       [Node ''DocumentReference'' [(''Source'', ''/doc'')] []] [] =
        document_references sample_parser sample_zip_no_document [] []"
    using navigation_failures
      [where child = "Node ''DocumentReference'' [(''Source'', ''/doc'')] []"
        and s = "''/doc''" and z = sample_zip_no_document and P = sample_parser
        and cs = "[]" and pages = "[]"] b
    by blast
  then have d: "document_references sample_parser sample_zip_no_document
       [Node ''DocumentReference'' [(''Source'', ''/doc'')] []] [] = Inr []"
    by (simp only: document_references.simps(1))
  have c: "findPages sample_parser sample_zip_no_document = Inr []"
    unfolding findPages_def Let_def
    by (simp add: r present_def or_default_def sample_parser_def getChildren_def
        del: document_references.simps) (simp only: d)
  from navigation_failures [where P = sample_parser and z = Map.empty] a
    navigation_failures [where P = sample_parser and z = sample_zip_no_document
      and lib = accept_all and rf = "{}"] c d
  show ?thesis by blast
qed

end
